(* ===== verification/Prelude.thy ===== *)
theory Prelude
  imports Main "HOL-Library.AList" "HOL-Library.Word"
begin

text \<open>
  Shared vocabulary of the development: the names of the model's types, the
  collection of unfolding rules of the configuration operations, and the generic
  facts on association lists (Python dicts) and characters that the component
  theories use. A Python \<open>dict\<close> is an association list with distinct keys:
  \<open>AList.update\<close> is \<open>dict.__setitem__\<close> (an existing key keeps its position,
  a new key is appended, as CPython's insertion-ordered dicts do) and \<open>map_of\<close>
  is the lookup.
\<close>

named_theorems config_defs "unfolding rules of the traitlets Config operations"
named_theorems py_str "evaluation rules for Python string predicates on literals"

type_synonym key = string
type_synonym attr_path = "string list"
type_synonym 'v pydict = "(key \<times> 'v) list"

declare char_of_eq_iff [py_str]

subsection \<open>Association lists as Python dicts\<close>

lemma set_update_subset: "set (AList.update k v al) \<subseteq> insert (k, v) (set al)"
  by (induction al) auto

lemma mem_update_dict:
  assumes "p \<in> set (AList.update k v al)"
  shows "p = (k, v) \<or> p \<in> set al"
  using assms set_update_subset [of k v al] by auto

lemma update_key_absent:
  "k \<notin> set (map fst al) \<Longrightarrow> AList.update k v al = al @ [(k, v)]"
  by (induction al) auto

lemma map_of_update_same [simp]: "map_of (AList.update k v al) k = Some v"
  by (simp add: AList.update_conv')

lemma map_of_update_other [simp]:
  "k' \<noteq> k \<Longrightarrow> map_of (AList.update k v al) k' = map_of al k'"
  by (simp add: AList.update_conv')

lemma map_values_update:
  "map (\<lambda>(k, v). (k, g v)) (AList.update k v d) = AList.update k (g v) (map (\<lambda>(k, v). (k, g v)) d)"
  by (induction d) auto

text \<open>
  Re-reading a dict whose values changed only at key \<open>s\<close> is a single
  \<open>__setitem__\<close> on the old reading.
\<close>

lemma map_values_update_at:
  assumes "distinct (map fst d)" and "(s, v) \<in> set d"
    and "\<And>k' v'. (k', v') \<in> set d \<Longrightarrow> k' \<noteq> s \<Longrightarrow> g v' = f v'"
  shows "map (\<lambda>(k, v). (k, g v)) d = AList.update s (g v) (map (\<lambda>(k, v). (k, f v)) d)"
  using assms
proof (induction d)
  case Nil
  then show ?case by simp
next
  case (Cons p d)
  obtain k0 v0 where p: "p = (k0, v0)" by (cases p)
  show ?case
  proof (cases "k0 = s")
    case True
    with Cons.prems(1,2) p have "v0 = v" and notin: "s \<notin> fst ` set d" by (auto simp: rev_image_eqI)
    moreover have "map (\<lambda>(k, v). (k, g v)) d = map (\<lambda>(k, v). (k, f v)) d"
    proof (rule map_cong)
      fix q assume q: "q \<in> set d"
      obtain k' v' where kv: "q = (k', v')" by (cases q)
      with q notin have "k' \<noteq> s" by (auto simp: rev_image_eqI)
      with q kv Cons.prems(3) [of k' v'] show "(case q of (k, v) \<Rightarrow> (k, g v)) = (case q of (k, v) \<Rightarrow> (k, f v))"
        by simp
    qed simp
    ultimately show ?thesis using True p by simp
  next
    case False
    with Cons show ?thesis using p by auto
  qed
qed

end
