(* ===== verification/TraitletsConfig.thy ===== *)
theory TraitletsConfig
  imports Prelude
begin

text \<open>
  The configuration object that \<open>get_config()\<close> hands to the config file
  \<open>src/jupyter_lab_config.py\<close>: an instance of traitlets'
  \<open>traitlets.config.loader.Config\<close>, a \<open>dict\<close> subclass whose keys that start with
  a capital letter (section keys, one per configurable class such as \<open>ServerApp\<close>)
  hold nested \<open>Config\<close> objects and whose other keys hold option values. This
  theory models its data (\<open>config\<close>, \<open>entry\<close>, \<open>pyval\<close>), the Python exceptions
  it raises (\<open>pyerror\<close>), the four methods the config file's attribute syntax
  calls (\<open>__getitem__\<close>, \<open>__setitem__\<close>, \<open>__getattr__\<close>, \<open>__setattr__\<close>)
  and the well-formedness invariant that \<open>__setitem__\<close> maintains.
\<close>

section \<open>Data\<close>

text \<open>The Python values a config file assigns: \<open>str\<close>, \<open>int\<close>, \<open>bool\<close>, \<open>None\<close>.\<close>

datatype pyval = PyStr string | PyInt int | PyBool bool | PyNone

text \<open>The exceptions of the methods below, each with the key it names.\<close>

datatype pyerror = KeyError key | AttributeError key | ValueError key

text \<open>
  A \<open>Config\<close> is an insertion-ordered dict. An entry is a nested \<open>Config\<close>, a
  plain value, or the \<open>LazyConfigValue\<close> placeholder that \<open>__getitem__\<close> stores
  for a missing non-section key.
\<close>

datatype config = Config "entry pydict"
     and entry = Sub config | Val pyval | Lazy

fun config_items :: "config \<Rightarrow> entry pydict" where
  "config_items (Config d) = d"

text \<open>\<open>isinstance(value, Config)\<close>.\<close>

abbreviation is_config_instance :: "entry \<Rightarrow> bool" where
  "is_config_instance v \<equiv> (case v of Sub _ \<Rightarrow> True | _ \<Rightarrow> False)"

section \<open>Key classification\<close>

text \<open>\<open>str.upper\<close> on one character, for the ASCII range the model covers.\<close>

abbreviation py_upper_char :: "char \<Rightarrow> char" where
  "py_upper_char ch \<equiv>
     (let n = (of_char ch :: nat) in if 97 \<le> n \<and> n \<le> 122 then char_of (n - 32) else ch)"

text \<open>
  \<open>_is_section_key(key)\<close>:
  \<open>bool(key and key[0].upper() == key[0] and not key.startswith("_"))\<close>.
\<close>

fun is_section_key :: "key \<Rightarrow> bool" where
  "is_section_key [] = False"
| "is_section_key (ch # _) = (py_upper_char ch = ch \<and> ch \<noteq> CHR ''_'')"

text \<open>\<open>key.startswith("_")\<close> and \<open>key.startswith("__")\<close>.\<close>

abbreviation starts_underscore :: "key \<Rightarrow> bool" where
  "starts_underscore k \<equiv> take 1 k = ''_''"

abbreviation is_dunder :: "key \<Rightarrow> bool" where
  "is_dunder k \<equiv> take 2 k = ''__''"

section \<open>Methods\<close>

text \<open>\<open>dict.__setitem__(self, key, value)\<close>: the unchecked store of the base class.\<close>

fun config_put :: "config \<Rightarrow> key \<Rightarrow> entry \<Rightarrow> config" where
  "config_put (Config d) k e = Config (AList.update k e d)"

text \<open>
  \<open>Config.__getitem__\<close>: a present key is returned; a missing section key is
  created as an empty \<open>Config\<close>, a missing key not starting with \<open>_\<close> as a
  \<open>LazyConfigValue\<close>; both are stored before they are returned. Any other missing
  key re-raises the \<open>KeyError\<close>. The result is the entry and the config after the
  call.
\<close>

fun config_getitem :: "config \<Rightarrow> key \<Rightarrow> pyerror + (entry \<times> config)" where
  "config_getitem (Config d) k =
     (case map_of d k of
        Some e \<Rightarrow> Inr (e, Config d)
      | None \<Rightarrow>
          if is_section_key k then Inr (Sub (Config []), config_put (Config d) k (Sub (Config [])))
          else if \<not> starts_underscore k then Inr (Lazy, config_put (Config d) k Lazy)
          else Inl (KeyError k))"

text \<open>
  \<open>Config.__setitem__\<close>: a section key only takes a \<open>Config\<close> instance, anything
  else raises \<open>ValueError\<close>; otherwise the value is stored.
\<close>

fun config_setitem :: "config \<Rightarrow> key \<Rightarrow> entry \<Rightarrow> pyerror + config" where
  "config_setitem c k v =
     (if is_section_key k \<and> \<not> is_config_instance v then Inl (ValueError k)
      else Inr (config_put c k v))"

text \<open>\<open>except KeyError as e: raise AttributeError(e)\<close>.\<close>

abbreviation attr_error :: "pyerror \<Rightarrow> pyerror" where
  "attr_error e \<equiv> (case e of KeyError k \<Rightarrow> AttributeError k | _ \<Rightarrow> e)"

text \<open>
  \<open>Config.__getattr__\<close> (reached when ordinary attribute lookup fails): a name
  starting with \<open>__\<close> goes to \<open>dict.__getattr__\<close>, which does not exist, so
  the lookup raises \<open>AttributeError\<close>; any other name is \<open>__getitem__\<close> with
  \<open>KeyError\<close> turned into \<open>AttributeError\<close>.
\<close>

definition config_getattr :: "config \<Rightarrow> key \<Rightarrow> pyerror + (entry \<times> config)" where
  "config_getattr c k =
     (if is_dunder k then Inl (AttributeError k)
      else (case config_getitem c k of
              Inl e \<Rightarrow> Inl (attr_error e)
            | Inr r \<Rightarrow> Inr r))"

text \<open>
  \<open>Config.__setattr__\<close>: a name starting with \<open>__\<close> becomes an ordinary instance
  attribute through \<open>dict.__setattr__\<close> and leaves the dict's items as they are;
  any other name is \<open>__setitem__\<close>.
\<close>

definition config_setattr :: "config \<Rightarrow> key \<Rightarrow> entry \<Rightarrow> pyerror + config" where
  "config_setattr c k v =
     (if is_dunder k then Inr c
      else (case config_setitem c k v of
              Inl e \<Rightarrow> Inl (attr_error e)
            | Inr c' \<Rightarrow> Inr c'))"

declare config_getattr_def [config_defs] config_setattr_def [config_defs]

section \<open>Well-formedness\<close>

text \<open>
  The invariant of a \<open>Config\<close> built through its methods: keys are distinct (it is a
  dict), every section key holds a \<open>Config\<close> (what \<open>__setitem__\<close> enforces), and
  so, recursively, does every nested \<open>Config\<close>.
\<close>

primrec wf_config :: "config \<Rightarrow> bool"
  and wf_items :: "entry pydict \<Rightarrow> bool"
  and wf_item :: "key \<times> entry \<Rightarrow> bool"
  and wf_entry :: "entry \<Rightarrow> bool" where
  "wf_config (Config d) = (distinct (map fst d) \<and> wf_items d)"
| "wf_items [] = True"
| "wf_items (p # d) = (wf_item p \<and> wf_items d)"
| "wf_item (k, e) = ((is_section_key k \<longrightarrow> is_config_instance e) \<and> wf_entry e)"
| "wf_entry (Sub c) = wf_config c"
| "wf_entry (Val v) = True"
| "wf_entry Lazy = True"

section \<open>Lemmas\<close>

subsection \<open>The invariant, item by item\<close>

text \<open>
  \<open>wf_item\<close> is used through one rule per kind of entry, which keeps \<open>auto\<close>
  away from the implication inside it.
\<close>

declare wf_item.simps [simp del]

lemma wf_item_Sub [simp]: "wf_item (k, Sub c) \<longleftrightarrow> wf_config c"
  by (simp add: wf_item.simps)
lemma wf_item_Val [simp]: "wf_item (k, Val v) \<longleftrightarrow> \<not> is_section_key k"
  by (simp add: wf_item.simps)
lemma wf_item_Lazy [simp]: "wf_item (k, Lazy) \<longleftrightarrow> \<not> is_section_key k"
  by (simp add: wf_item.simps)

lemma wf_items_iff: "wf_items d \<longleftrightarrow> (\<forall>p\<in>set d. wf_item p)"
  by (induction d) auto
lemma wf_config_iff:
  "wf_config (Config d) \<longleftrightarrow> distinct (map fst d) \<and> (\<forall>p\<in>set d. wf_item p)"
  by (simp add: wf_items_iff)
lemma wf_item_found:
  assumes "wf_config (Config d)" and "map_of d k = Some e"
  shows "wf_item (k, e)"
proof -
  from assms(2) have "(k, e) \<in> set d" by (rule map_of_SomeD)
  with assms(1) show ?thesis unfolding wf_config_iff by auto
qed
lemma wf_config_put:
  assumes "wf_config c" and "wf_item (k, e)"
  shows "wf_config (config_put c k e)"
proof (cases c)
  case (Config d)
  with assms show ?thesis
    by (auto simp: wf_items_iff AList.distinct_update dest: mem_update_dict)
qed
subsection \<open>Section keys\<close>

lemma section_key_not_dunder: "is_section_key k \<Longrightarrow> \<not> is_dunder k"
  by (cases k rule: is_section_key.cases) auto

lemma dunder_starts_underscore: "is_dunder k \<Longrightarrow> starts_underscore k"
  by (cases k) auto

subsection \<open>Method results\<close>

lemma config_getitem_present:
  "map_of (config_items c) k = Some e \<Longrightarrow> config_getitem c k = Inr (e, c)"
  by (cases c) simp
lemma config_getitem_absent:
  "map_of (config_items c) k = None \<Longrightarrow>
   config_getitem c k =
     (if is_section_key k then Inr (Sub (Config []), config_put c k (Sub (Config [])))
      else if \<not> starts_underscore k then Inr (Lazy, config_put c k Lazy)
      else Inl (KeyError k))"
  by (cases c) simp
lemma config_items_put: "config_items (config_put c k e) = AList.update k e (config_items c)"
  by (cases c) simp
lemma config_getitem_Inr_cases:
  assumes "config_getitem c k = Inr (e, c')"
  shows "(map_of (config_items c) k = Some e \<and> c' = c) \<or>
         (map_of (config_items c) k = None \<and> c' = config_put c k e \<and>
          (if is_section_key k then e = Sub (Config []) else e = Lazy \<and> \<not> starts_underscore k))"
  using assms by (cases c) (auto split: option.splits if_splits)
lemma wf_item_intro:
  "(is_section_key k \<Longrightarrow> is_config_instance e) \<Longrightarrow> wf_entry e \<Longrightarrow> wf_item (k, e)"
  by (simp add: wf_item.simps)

lemma config_getitem_wf:
  assumes "wf_config c" and "config_getitem c k = Inr (e, c')"
  shows "wf_config c' \<and> wf_item (k, e)"
proof -
  obtain d where c: "c = Config d" by (cases c)
  from config_getitem_Inr_cases [OF assms(2)] show ?thesis
  proof
    assume "map_of (config_items c) k = Some e \<and> c' = c"
    with assms(1) c wf_item_found [of d k e] show ?thesis by simp
  next
    assume new: "map_of (config_items c) k = None \<and> c' = config_put c k e \<and>
      (if is_section_key k then e = Sub (Config []) else e = Lazy \<and> \<not> starts_underscore k)"
    then have "wf_item (k, e)" by (auto split: if_splits)
    with assms(1) new show ?thesis by (simp add: wf_config_put)
  qed
qed

lemma config_setitem_wf:
  assumes "wf_config c" and "wf_entry v" and "config_setitem c k v = Inr c'"
  shows "wf_config c'"
proof -
  from assms(3) have guard: "\<not> (is_section_key k \<and> \<not> is_config_instance v)"
    and c': "c' = config_put c k v"
    by (simp_all split: if_splits)
  from guard assms(2) have "wf_item (k, v)" by (auto intro: wf_item_intro)
  with assms(1) c' show ?thesis by (simp add: wf_config_put)
qed

lemma config_setitem_getitem:
  assumes "config_setitem c k v = Inr c'"
  shows "config_getitem c' k = Inr (v, c')"
proof -
  from assms have "c' = config_put c k v" by (simp split: if_splits)
  then show ?thesis by (simp add: config_getitem_present config_items_put)
qed

lemma config_getattr_wf:
  assumes "wf_config c" and "config_getattr c k = Inr (e, c')"
  shows "wf_config c' \<and> wf_item (k, e)"
  using assms config_getitem_wf [of c k e c']
  by (simp add: config_getattr_def split: if_splits sum.splits)

section \<open>Properties of the methods\<close>

text \<open>Config.__setattr__ keeps the invariant: setting any well-formed value on a
  well-formed Config that does not raise yields a well-formed Config.\<close>

lemma config_setattr_wf:
  assumes "wf_config c" and "wf_entry v" and "config_setattr c k v = Inr c'"
  shows "wf_config c'"
  using assms config_setitem_wf [of c v k c']
  by (simp add: config_setattr_def split: if_splits sum.splits)

text \<open>Round trip: after c.k = v succeeds for an ordinary attribute name, reading
  c.k returns v and changes nothing more.\<close>

lemma config_setattr_getattr:
  assumes "\<not> is_dunder k" and "config_setattr c k v = Inr c'"
  shows "config_getattr c' k = Inr (v, c')"
proof -
  from assms have "config_setitem c k v = Inr c'"
    by (simp add: config_setattr_def split: sum.splits if_splits)
  then have "config_getitem c' k = Inr (v, c')" by (rule config_setitem_getitem)
  with assms(1) show ?thesis by (simp add: config_getattr_def)
qed

text \<open>Assigning anything but a Config to a section key (c.ServerApp = 5) raises
  ValueError and stores nothing.\<close>

lemma config_setattr_section_value_error:
  assumes "is_section_key k" and "\<not> is_config_instance v"
  shows "config_setattr c k v = Inl (ValueError k)"
  using assms by (simp add: config_setattr_def section_key_not_dunder)

text \<open>Config.__getattr__ raises exactly for names starting with two underscores
  and for missing names that start with one underscore, always as AttributeError;
  every other read succeeds.\<close>

lemma config_getattr_Inl:
  "config_getattr c k = Inl err \<longleftrightarrow>
     err = AttributeError k \<and>
     (is_dunder k \<or> (map_of (config_items c) k = None \<and> \<not> is_section_key k \<and> starts_underscore k))"
  by (cases c) (auto simp: config_getattr_def split: option.splits)

text \<open>Reading a missing section (c.ServerApp on first use) creates an empty Config,
  stores it at the end of the dict and returns it.\<close>

lemma config_getattr_section_autocreate:
  assumes "is_section_key k" and "map_of (config_items c) k = None"
  shows "config_getattr c k = Inr (Sub (Config []), Config (config_items c @ [(k, Sub (Config []))]))"
proof -
  from assms(2) have "k \<notin> set (map fst (config_items c))"
    by (simp add: map_of_eq_None_iff)
  with assms show ?thesis
    by (cases c) (simp add: config_getattr_def section_key_not_dunder update_key_absent)
qed

text \<open>A read is stable: reading the same key again from the Config a read
  returned gives the same entry and changes nothing.\<close>

lemma config_getitem_stable:
  assumes "config_getitem c k = Inr (e, c')"
  shows "config_getitem c' k = Inr (e, c')"
  using config_getitem_Inr_cases [OF assms]
  by (auto simp: config_getitem_present config_items_put)

subsection \<open>Witnesses\<close>

lemma config_setattr_wf_witness:
  "wf_config (Config [(''ServerApp'', Sub (Config []))]) \<and> wf_entry (Val (PyInt 8888)) \<and>
   config_setattr (Config [(''ServerApp'', Sub (Config []))]) ''port'' (Val (PyInt 8888)) =
     Inr (Config [(''ServerApp'', Sub (Config [])), (''port'', Val (PyInt 8888))]) \<and>
   wf_config (Config [(''ServerApp'', Sub (Config [])), (''port'', Val (PyInt 8888))])"
proof -
  have wf: "wf_config (Config [(''ServerApp'', Sub (Config []))])" by (simp add: wf_config_iff)
  have set: "config_setattr (Config [(''ServerApp'', Sub (Config []))]) ''port'' (Val (PyInt 8888)) =
     Inr (Config [(''ServerApp'', Sub (Config [])), (''port'', Val (PyInt 8888))])"
    by (simp add: config_setattr_def py_str)
  show ?thesis using config_setattr_wf [OF wf _ set] wf set by simp
qed

lemma config_setattr_getattr_witness:
  "\<not> is_dunder ''ip'' \<and>
   config_setattr (Config []) ''ip'' (Val (PyStr ''0.0.0.0'')) = Inr (Config [(''ip'', Val (PyStr ''0.0.0.0''))]) \<and>
   config_getattr (Config [(''ip'', Val (PyStr ''0.0.0.0''))]) ''ip'' =
     Inr (Val (PyStr ''0.0.0.0''), Config [(''ip'', Val (PyStr ''0.0.0.0''))])"
proof -
  have nd: "\<not> is_dunder ''ip''" by (simp add: py_str)
  have set: "config_setattr (Config []) ''ip'' (Val (PyStr ''0.0.0.0'')) = Inr (Config [(''ip'', Val (PyStr ''0.0.0.0''))])"
    by (simp add: config_setattr_def py_str)
  show ?thesis using config_setattr_getattr [OF nd set] nd set by simp
qed

lemma config_setattr_section_value_error_witness:
  "is_section_key ''ServerApp'' \<and> \<not> is_config_instance (Val (PyInt 5)) \<and>
   config_setattr (Config []) ''ServerApp'' (Val (PyInt 5)) = Inl (ValueError ''ServerApp'')"
proof -
  have sec: "is_section_key ''ServerApp''" by (simp add: py_str)
  have val: "\<not> is_config_instance (Val (PyInt 5))" by simp
  show ?thesis using config_setattr_section_value_error [OF sec val, of "Config []"] sec val by simp
qed

lemma config_getattr_section_autocreate_witness:
  "is_section_key ''ServerApp'' \<and> map_of (config_items (Config [(''x'', Lazy)])) ''ServerApp'' = None \<and>
   config_getattr (Config [(''x'', Lazy)]) ''ServerApp'' =
     Inr (Sub (Config []), Config [(''x'', Lazy), (''ServerApp'', Sub (Config []))])"
proof -
  have sec: "is_section_key ''ServerApp''" by (simp add: py_str)
  have absent: "map_of (config_items (Config [(''x'', Lazy)])) ''ServerApp'' = None" by simp
  show ?thesis using config_getattr_section_autocreate [OF sec absent] sec absent by simp
qed

lemma config_getitem_stable_witness:
  "config_getitem (Config []) ''FileContentsManager'' =
     Inr (Sub (Config []), Config [(''FileContentsManager'', Sub (Config []))]) \<and>
   config_getitem (Config [(''FileContentsManager'', Sub (Config []))]) ''FileContentsManager'' =
     Inr (Sub (Config []), Config [(''FileContentsManager'', Sub (Config []))])"
proof -
  have get: "config_getitem (Config []) ''FileContentsManager'' =
     Inr (Sub (Config []), Config [(''FileContentsManager'', Sub (Config []))])"
    by (simp add: py_str)
  show ?thesis using config_getitem_stable [OF get] get by simp
qed

end
