(* ===== verification/ConfigAssign.thy ===== *)
theory ConfigAssign
  imports TraitletsConfig "HOL-Library.Sublist"
begin

text \<open>
  The meaning of one statement of a config file, \<open>c.S1.S2 ... Sn.k = v\<close>: Python
  evaluates the target's primary \<open>c.S1 ... Sn\<close> by successive
  \<open>Config.__getattr__\<close> calls (each of which may create the section it reads) and
  then calls \<open>__setattr__(k, v)\<close> on the object reached. The nested objects are
  mutated in place; in this value model the updated child is written back into its
  parent with \<open>dict.__setitem__\<close>, which keeps its position. This theory defines
  that statement (\<open>assign_path\<close>), the abstraction of a config to the option
  values at its leaves (\<open>leaf_value\<close>) and the abstract effect of an assignment on
  that abstraction (\<open>set_leaf\<close>), and proves the refinement between them together
  with totality, preservation of the invariant and idempotence.
\<close>

section \<open>Definitions\<close>

text \<open>
  \<open>assign_path c [S1, ..., Sn] k v\<close> is \<open>c.S1. ... .Sn.k = v\<close>. Reading an
  attribute of a plain value raises \<open>AttributeError\<close>; setting an attribute on a
  \<open>LazyConfigValue\<close> succeeds without touching the dict, reading one of its
  attributes raises \<open>AttributeError\<close>.
\<close>

fun assign_path :: "config \<Rightarrow> attr_path \<Rightarrow> key \<Rightarrow> entry \<Rightarrow> pyerror + config" where
  "assign_path c [] k v = config_setattr c k v"
| "assign_path c (s # ss) k v =
     (case config_getattr c s of
        Inl e \<Rightarrow> Inl e
      | Inr (Sub sc, c1) \<Rightarrow>
          (case assign_path sc ss k v of
             Inl e \<Rightarrow> Inl e
           | Inr sc' \<Rightarrow> Inr (config_put c1 s (Sub sc')))
      | Inr (Val _, _) \<Rightarrow> Inl (AttributeError (hd (ss @ [k])))
      | Inr (Lazy, c1) \<Rightarrow> (if ss = [] then Inr c1 else Inl (AttributeError (hd ss))))"

text \<open>
  The option value stored at a path of keys, if the path ends at a plain value.
  This is what a configurable class reads: \<open>ServerApp.ip\<close> is the leaf at
  \<open>[ServerApp, ip]\<close>.
\<close>

fun leaf_value :: "config \<Rightarrow> attr_path \<Rightarrow> pyval option" where
  "leaf_value c [] = None"
| "leaf_value (Config d) [s] = (case map_of d s of Some (Val v) \<Rightarrow> Some v | _ \<Rightarrow> None)"
| "leaf_value (Config d) (s # s' # r) =
     (case map_of d s of Some (Sub c) \<Rightarrow> leaf_value c (s' # r) | _ \<Rightarrow> None)"

text \<open>
  The abstract effect of assigning \<open>v\<close> at path \<open>p\<close>: the leaf at \<open>p\<close> is \<open>v\<close>,
  leaves strictly below \<open>p\<close> are gone (a nested \<open>Config\<close> there is replaced by the
  value) and all other leaves are unchanged.
\<close>

definition set_leaf :: "(attr_path \<Rightarrow> pyval option) \<Rightarrow> attr_path \<Rightarrow> pyval \<Rightarrow> attr_path \<Rightarrow> pyval option" where
  "set_leaf m p v = (\<lambda>q. if q = p then Some v else if strict_prefix p q then None else m q)"

text \<open>
  The Config that \<open>c.S1. ... .Sn.k = v\<close> builds from an empty one: one nested section
  per step of the path, holding the single option at the end.
\<close>

fun nested_config :: "attr_path \<Rightarrow> key \<Rightarrow> pyval \<Rightarrow> config" where
  "nested_config [] k v = Config [(k, Val v)]"
| "nested_config (s # ss) k v = Config [(s, Sub (nested_config ss k v))]"

section \<open>Lemmas\<close>

subsection \<open>Section access\<close>

text \<open>Through a section key, attribute access always yields a nested Config.\<close>

lemma config_getattr_section:
  assumes "wf_config c" and "is_section_key s"
  obtains sc c1 where "config_getattr c s = Inr (Sub sc, c1)" and "wf_config c1" and "wf_config sc"
    and "c1 = c \<or> (map_of (config_items c) s = None \<and> sc = Config [] \<and> c1 = config_put c s (Sub sc))"
proof -
  obtain d where c: "c = Config d" by (cases c)
  show ?thesis
  proof (cases "map_of d s")
    case None
    have "wf_config (config_put c s (Sub (Config [])))"
      using assms(1) by (rule wf_config_put) simp
    with None assms c show ?thesis
      by (intro that [of "Config []" "config_put c s (Sub (Config []))"])
         (simp_all add: config_getattr_def section_key_not_dunder)
  next
    case (Some e)
    with assms c wf_item_found [of d s e] obtain sc where e: "e = Sub sc" and "wf_config sc"
      by (cases e) (auto simp: wf_item.simps)
    with Some assms c show ?thesis
      by (intro that [of sc c]) (auto simp: config_getattr_def section_key_not_dunder)
  qed
qed

subsection \<open>Leaves under a store\<close>

lemma leaf_value_Nil [simp]: "leaf_value c [] = None"
  by (cases c) simp

lemma leaf_value_put_Sub:
  "leaf_value (config_put c s (Sub sc)) q =
     (case q of [] \<Rightarrow> None
      | s' # r \<Rightarrow> if s' = s then (if r = [] then None else leaf_value sc r) else leaf_value c q)"
proof (cases q)
  case (Cons x r)
  then show ?thesis by (cases c; cases r) auto
qed simp

lemma leaf_value_Cons_Sub:
  "map_of (config_items c) s = Some (Sub sc) \<Longrightarrow>
   leaf_value c (s # r) = (if r = [] then None else leaf_value sc r)"
  by (cases c; cases r) auto

lemma leaf_value_Cons_absent:
  "map_of (config_items c) s = None \<Longrightarrow> leaf_value c (s # r) = None"
  by (cases c; cases r) auto

lemma leaf_value_put_Val:
  "leaf_value (config_put c k (Val v)) = set_leaf (leaf_value c) [k] v"
proof
  fix q
  obtain d where c: "c = Config d" by (cases c)
  show "leaf_value (config_put c k (Val v)) q = set_leaf (leaf_value c) [k] v q"
  proof (cases q)
    case (Cons x r)
    with c show ?thesis by (cases r) (auto simp: set_leaf_def)
  qed (simp add: set_leaf_def)
qed

lemma set_leaf_Cons:
  "set_leaf m (s # p) v q =
     (case q of [] \<Rightarrow> m []
      | s' # r \<Rightarrow> if s' = s then set_leaf (\<lambda>r. m (s # r)) p v r else m q)"
  by (cases q) (auto simp: set_leaf_def)

lemma set_leaf_same [simp]: "set_leaf m p v p = Some v"
  by (simp add: set_leaf_def)

lemma set_leaf_Nil_arg: "p \<noteq> [] \<Longrightarrow> set_leaf m p v [] = m []"
  by (simp add: set_leaf_def)

lemma set_leaf_cong_nonempty:
  "(\<And>r. r \<noteq> [] \<Longrightarrow> m r = m' r) \<Longrightarrow> r \<noteq> [] \<Longrightarrow> set_leaf m p v r = set_leaf m' p v r"
  by (simp add: set_leaf_def)

lemma leaf_value_empty [simp]: "leaf_value (Config []) r = None"
  by (cases r rule: remdups_adj.cases) auto

lemma leaf_value_new_section:
  "map_of (config_items c) s = None \<Longrightarrow> leaf_value (config_put c s (Sub (Config []))) = leaf_value c"
proof
  fix q
  assume "map_of (config_items c) s = None"
  then show "leaf_value (config_put c s (Sub (Config []))) q = leaf_value c q"
    by (auto simp: leaf_value_put_Sub leaf_value_Cons_absent split: list.splits)
qed

subsection \<open>Assignment\<close>

lemma assign_path_Cons_section:
  assumes "config_getattr c s = Inr (Sub sc, c1)"
  shows "assign_path c (s # ss) k v =
           (case assign_path sc ss k v of Inl e \<Rightarrow> Inl e | Inr sc' \<Rightarrow> Inr (config_put c1 s (Sub sc')))"
  using assms by simp

lemma config_setattr_plain:
  "\<not> is_dunder k \<Longrightarrow> \<not> is_section_key k \<Longrightarrow> config_setattr c k (Val v) = Inr (config_put c k (Val v))"
  by (simp add: config_setattr_def)

lemma assign_path_Inr:
  assumes "wf_config c" and "list_all is_section_key path"
    and "\<not> is_section_key k" and "\<not> is_dunder k"
  shows "\<exists>c'. assign_path c path k (Val v) = Inr c'"
  using assms(1,2)
proof (induction path arbitrary: c)
  case Nil
  with assms(3,4) show ?case by (simp add: config_setattr_plain)
next
  case (Cons s ss)
  then have "is_section_key s" and "list_all is_section_key ss" by simp_all
  with Cons.prems(1) obtain sc c1 where get: "config_getattr c s = Inr (Sub sc, c1)"
    and "wf_config sc"
    by (auto elim: config_getattr_section)
  with Cons.IH \<open>list_all is_section_key ss\<close> obtain sc' where "assign_path sc ss k (Val v) = Inr sc'"
    by blast
  with get show ?case by (simp add: assign_path_Cons_section)
qed

lemma assign_path_wf:
  assumes "wf_config c" and "wf_entry v" and "assign_path c path k v = Inr c'"
  shows "wf_config c'"
  using assms(1,3)
proof (induction path arbitrary: c c')
  case Nil
  with assms(2) show ?case
    by (auto simp: config_setattr_def split: if_splits sum.splits intro: config_setitem_wf)
next
  case (Cons s ss)
  from Cons.prems(2) obtain e c1 where get: "config_getattr c s = Inr (e, c1)"
    by (auto split: sum.splits)
  with Cons.prems(1) have wf1: "wf_config c1" and item: "wf_item (s, e)"
    by (auto dest: config_getattr_wf)
  show ?case
  proof (cases e)
    case (Sub sc)
    with Cons.prems(2) get obtain sc' where sub: "assign_path sc ss k v = Inr sc'"
      and c': "c' = config_put c1 s (Sub sc')"
      by (auto split: sum.splits)
    from item Sub have "wf_config sc" by simp
    then have "wf_config sc'" using sub by (rule Cons.IH)
    with wf1 c' show ?thesis by (simp add: wf_config_put)
  next
    case (Val x)
    with Cons.prems(2) get show ?thesis by simp
  next
    case Lazy
    with Cons.prems(2) get wf1 show ?thesis by (auto split: if_splits)
  qed
qed

lemma config_getattr_stored:
  "config_getattr c s = Inr (e, c1) \<Longrightarrow> map_of (config_items c1) s = Some e"
  by (auto simp: config_getattr_def config_items_put split: if_splits sum.splits
           dest!: config_getitem_Inr_cases)

lemma config_put_triv: "map_of (config_items c) k = Some e \<Longrightarrow> config_put c k e = c"
  by (cases c) (simp add: AList.update_triv)

lemma leaf_value_Cons_Some:
  assumes "leaf_value c (s # r) = Some v" and "r \<noteq> []"
  obtains sc where "map_of (config_items c) s = Some (Sub sc)" and "leaf_value sc r = Some v"
proof -
  obtain d where c: "c = Config d" by (cases c)
  from assms(2) obtain x r' where r: "r = x # r'" by (cases r) auto
  from assms(1) c r show ?thesis
    by (auto intro: that split: option.splits entry.splits)
qed

text \<open>
  Writing an updated section back: if the section under \<open>s\<close> now has the
  leaves of one \<open>set_leaf\<close> at a non-empty path \<open>p\<close>, the parent has the
  leaves of \<open>set_leaf\<close> at \<open>s # p\<close>.
\<close>

lemma leaf_value_write_back:
  assumes at_s: "map_of (config_items c1) s = Some (Sub sc)" and same: "leaf_value c1 = leaf_value c"
    and IH: "leaf_value sc' = set_leaf (leaf_value sc) p v" and p: "p \<noteq> []"
  shows "leaf_value (config_put c1 s (Sub sc')) = set_leaf (leaf_value c) (s # p) v"
proof
  fix q
  have below: "leaf_value c (s # r') = (if r' = [] then None else leaf_value sc r')" for r'
    using at_s same leaf_value_Cons_Sub [of c1 s sc r'] by simp
  show "leaf_value (config_put c1 s (Sub sc')) q = set_leaf (leaf_value c) (s # p) v q"
  proof (cases q)
    case Nil
    then show ?thesis by (simp add: set_leaf_Nil_arg)
  next
    case (Cons x r)
    show ?thesis
    proof (cases "x = s")
      case False
      with Cons same show ?thesis by (simp add: leaf_value_put_Sub set_leaf_Cons)
    next
      case True
      show ?thesis
      proof (cases "r = []")
        case True
        with \<open>x = s\<close> Cons below p show ?thesis
          by (simp add: leaf_value_put_Sub set_leaf_Cons set_leaf_Nil_arg)
      next
        case False
        with \<open>x = s\<close> Cons have "leaf_value (config_put c1 s (Sub sc')) q = leaf_value sc' r"
          by (simp add: leaf_value_put_Sub)
        also have "\<dots> = set_leaf (leaf_value sc) p v r"
          by (simp add: IH)
        also have "\<dots> = set_leaf (\<lambda>r'. leaf_value c (s # r')) p v r"
          by (rule set_leaf_cong_nonempty) (simp_all add: below False)
        also have "\<dots> = set_leaf (leaf_value c) (s # p) v q"
          using \<open>x = s\<close> Cons by (simp add: set_leaf_Cons)
        finally show ?thesis .
      qed
    qed
  qed
qed

lemma assign_path_leaf:
  assumes "wf_config c" and "list_all is_section_key path" and "\<not> is_dunder k"
    and "assign_path c path k (Val v) = Inr c'"
  shows "leaf_value c' = set_leaf (leaf_value c) (path @ [k]) v"
  using assms(1,2,4)
proof (induction path arbitrary: c c')
  case Nil
  with assms(3) have "c' = config_put c k (Val v)"
    by (simp add: config_setattr_def split: if_splits)
  then show ?case by (simp add: leaf_value_put_Val)
next
  case (Cons s ss)
  from Cons.prems(2) have sec: "is_section_key s" and secs: "list_all is_section_key ss" by simp_all
  obtain sc c1 where get: "config_getattr c s = Inr (Sub sc, c1)" and "wf_config c1"
    and "wf_config sc"
    and c1: "c1 = c \<or> (map_of (config_items c) s = None \<and> sc = Config [] \<and> c1 = config_put c s (Sub sc))"
    by (rule config_getattr_section [OF Cons.prems(1) sec])
  from get have at_s: "map_of (config_items c1) s = Some (Sub sc)" by (rule config_getattr_stored)
  from c1 have same: "leaf_value c1 = leaf_value c" by (auto simp: leaf_value_new_section)
  from Cons.prems(3) get obtain sc' where sub: "assign_path sc ss k (Val v) = Inr sc'"
    and c': "c' = config_put c1 s (Sub sc')"
    by (auto split: sum.splits)
  from \<open>wf_config sc\<close> secs sub have IH: "leaf_value sc' = set_leaf (leaf_value sc) (ss @ [k]) v"
    by (rule Cons.IH)
  have "ss @ [k] \<noteq> []" by simp
  from leaf_value_write_back [OF at_s same IH this] show ?case by (simp add: c')
qed

lemma assign_path_noop:
  assumes "wf_config c" and "list_all is_section_key path" and "\<not> is_dunder k"
    and "leaf_value c (path @ [k]) = Some v"
  shows "assign_path c path k (Val v) = Inr c"
  using assms(1,2,4)
proof (induction path arbitrary: c)
  case Nil
  obtain d where c: "c = Config d" by (cases c)
  with Nil.prems(3) have at_k: "map_of d k = Some (Val v)"
    by (auto split: option.splits entry.splits)
  with Nil.prems(1) c have "\<not> is_section_key k"
    using wf_item_found [of d k "Val v"] by simp
  with assms(3) at_k c show ?case
    by (simp add: config_setattr_plain AList.update_triv)
next
  case (Cons s ss)
  from Cons.prems(2) have sec: "is_section_key s" and secs: "list_all is_section_key ss" by simp_all
  from Cons.prems(3) obtain sc where at_s: "map_of (config_items c) s = Some (Sub sc)"
    and below: "leaf_value sc (ss @ [k]) = Some v"
    by (auto elim: leaf_value_Cons_Some)
  obtain d where c: "c = Config d" by (cases c)
  with Cons.prems(1) at_s have "wf_config sc"
    using wf_item_found [of d s "Sub sc"] by simp
  then have "assign_path sc ss k (Val v) = Inr sc" using secs below by (rule Cons.IH)
  moreover from at_s sec have "config_getattr c s = Inr (Sub sc, c)"
    by (simp add: config_getattr_def section_key_not_dunder config_getitem_present)
  ultimately show ?case using at_s by (simp add: config_put_triv)
qed

lemma leaf_value_put_Lazy:
  "map_of (config_items c) s = None \<Longrightarrow> leaf_value (config_put c s Lazy) = leaf_value c"
proof
  fix q
  assume absent: "map_of (config_items c) s = None"
  obtain d where c: "c = Config d" by (cases c)
  show "leaf_value (config_put c s Lazy) q = leaf_value c q"
  proof (cases q)
    case (Cons x r)
    with absent c show ?thesis by (cases r) (auto simp: AList.update_conv')
  qed simp
qed

section \<open>Properties of assignment\<close>

text \<open>C8: A misspelled section name in lower case (c.serverApp.port = 8888) is
  silently ignored: the read of c.serverApp stores a LazyConfigValue, setting an
  attribute on it succeeds, and no option of the Config changes.\<close>

theorem assign_path_lowercase_section_silent:
  assumes "\<not> is_section_key s" and "\<not> starts_underscore s"
    and "map_of (config_items c) s = None"
  shows "assign_path c [s] k v = Inr (config_put c s Lazy) \<and>
         leaf_value (config_put c s Lazy) = leaf_value c"
proof -
  obtain d where c: "c = Config d" by (cases c)
  from assms(2) have "\<not> is_dunder s" by (auto dest: dunder_starts_underscore)
  with assms c have "config_getattr c s = Inr (Lazy, config_put c s Lazy)"
    by (simp add: config_getattr_def)
  with assms(3) show ?thesis by (simp add: leaf_value_put_Lazy)
qed

text \<open>C9: Assigning through section keys into an empty Config builds the nested
  sections on the way: the result is one section per step of the path holding the
  single option.\<close>

theorem assign_path_into_empty:
  assumes "list_all is_section_key path" and "\<not> is_section_key k" and "\<not> is_dunder k"
  shows "assign_path (Config []) path k (Val v) = Inr (nested_config path k v)"
  using assms(1)
proof (induction path)
  case Nil
  with assms(2,3) show ?case by (simp add: config_setattr_plain)
next
  case (Cons s ss)
  then have "is_section_key s" by simp
  then have "config_getattr (Config []) s = Inr (Sub (Config []), Config [(s, Sub (Config []))])"
    by (simp add: config_getattr_def section_key_not_dunder)
  with Cons show ?case by simp
qed

subsection \<open>Witnesses\<close>

theorem assign_path_lowercase_section_silent_witness:
  "\<not> is_section_key ''serverApp'' \<and> \<not> starts_underscore ''serverApp'' \<and>
   map_of (config_items (Config [])) ''serverApp'' = None \<and>
   assign_path (Config []) [''serverApp''] ''port'' (Val (PyInt 8888)) = Inr (Config [(''serverApp'', Lazy)]) \<and>
   leaf_value (Config [(''serverApp'', Lazy)]) = leaf_value (Config [])"
proof -
  have ns: "\<not> is_section_key ''serverApp''" by (simp add: py_str)
  have nu: "\<not> starts_underscore ''serverApp''" by (simp add: py_str)
  have absent: "map_of (config_items (Config [])) ''serverApp'' = None" by simp
  show ?thesis
    using assign_path_lowercase_section_silent [OF ns nu absent, of "''port''" "Val (PyInt 8888)"] ns nu absent
    by simp
qed

theorem assign_path_into_empty_witness:
  "list_all is_section_key [''ServerApp''] \<and> \<not> is_section_key ''ip'' \<and> \<not> is_dunder ''ip'' \<and>
   assign_path (Config []) [''ServerApp''] ''ip'' (Val (PyStr ''0.0.0.0'')) =
     Inr (Config [(''ServerApp'', Sub (Config [(''ip'', Val (PyStr ''0.0.0.0''))]))])"
proof -
  have secs: "list_all is_section_key [''ServerApp'']" by (simp add: py_str)
  have ns: "\<not> is_section_key ''ip''" by (simp add: py_str)
  have nd: "\<not> is_dunder ''ip''" by (simp add: py_str)
  show ?thesis using assign_path_into_empty [OF secs ns nd, of "PyStr ''0.0.0.0''"] secs ns nd by simp
qed

end
