(* ===== verification/ConfigScript.thy ===== *)
theory ConfigScript
  imports ConfigAssign "HOL-Library.Multiset"
begin

text \<open>
  The config file \<open>src/jupyter_lab_config.py\<close> as a list of assignment statements
  executed against the \<open>Config\<close> object that \<open>get_config()\<close> returns, and what
  running it does to any well-formed starting configuration: it always succeeds, it
  sets exactly the four options and leaves every other option alone, running it again
  changes nothing, and the order of its lines does not matter for the options it
  sets (only for the key order of the dict).
\<close>

section \<open>Definitions\<close>

text \<open>
  A statement of the config file: \<open>Assign [S1, ..., Sn] k v\<close> is the line
  \<open>c.S1. ... .Sn.k = v\<close> with a literal right-hand side.
\<close>

datatype stmt = Assign attr_path key pyval

text \<open>
  Executing a statement: the literal evaluates to itself, then the target is assigned.
  A sequence stops at the first exception, which the loader propagates.
\<close>

fun exec_stmt :: "config \<Rightarrow> stmt \<Rightarrow> pyerror + config" where
  "exec_stmt c (Assign p k v) = assign_path c p k (Val v)"

fun exec_stmts :: "config \<Rightarrow> stmt list \<Rightarrow> pyerror + config" where
  "exec_stmts c [] = Inr c"
| "exec_stmts c (st # sts) = (case exec_stmt c st of Inl e \<Rightarrow> Inl e | Inr c' \<Rightarrow> exec_stmts c' sts)"

text \<open>The four lines of \<open>src/jupyter_lab_config.py\<close> that assign options.\<close>

definition set_server_ip :: stmt where
  "set_server_ip = Assign [''ServerApp''] ''ip'' (PyStr ''0.0.0.0'')"

definition set_server_port :: stmt where
  "set_server_port = Assign [''ServerApp''] ''port'' (PyInt 8888)"

definition set_server_open_browser :: stmt where
  "set_server_open_browser = Assign [''ServerApp''] ''open_browser'' (PyBool False)"

definition set_delete_to_trash :: stmt where
  "set_delete_to_trash = Assign [''FileContentsManager''] ''delete_to_trash'' (PyBool False)"

text \<open>The statements of the file, lines 6 to 11, in their order.\<close>

definition jupyter_lab_config_stmts :: "stmt list" where
  "jupyter_lab_config_stmts =
     [set_server_ip, set_server_port, set_server_open_browser, set_delete_to_trash]"

text \<open>
  The config file as a whole: \<open>c = get_config()\<close> (line 5) binds the loader's
  \<open>Config\<close> object, which the statements then mutate.
\<close>

definition jupyter_lab_config :: "config \<Rightarrow> pyerror + config" where
  "jupyter_lab_config c = exec_stmts c jupyter_lab_config_stmts"

text \<open>
  \<open>PyFileConfigLoader.load_config\<close>: the loader clears its \<open>Config\<close>, executes the
  file with \<open>get_config\<close> returning that object, and returns it.
\<close>

definition load_config :: "(config \<Rightarrow> pyerror + config) \<Rightarrow> pyerror + config" where
  "load_config script = script (Config [])"

text \<open>
  A statement whose target is reached through section keys and names a plain option:
  the shape every line of the file has.
\<close>

fun stmt_ok :: "stmt \<Rightarrow> bool" where
  "stmt_ok (Assign p k v) = (list_all is_section_key p \<and> \<not> is_section_key k \<and> \<not> is_dunder k)"

text \<open>The abstract effect of a statement on the leaves, its target and its value.\<close>

fun stmt_effect :: "stmt \<Rightarrow> (attr_path \<Rightarrow> pyval option) \<Rightarrow> (attr_path \<Rightarrow> pyval option)" where
  "stmt_effect (Assign p k v) m = set_leaf m (p @ [k]) v"

fun stmt_target :: "stmt \<Rightarrow> attr_path" where
  "stmt_target (Assign p k v) = p @ [k]"

fun stmt_value :: "stmt \<Rightarrow> pyval" where
  "stmt_value (Assign p k v) = v"

section \<open>Lemmas\<close>

lemmas jupyter_lab_config_lines =
  jupyter_lab_config_stmts_def set_server_ip_def set_server_port_def
  set_server_open_browser_def set_delete_to_trash_def

text \<open>Everything needed to run the file on a concrete Config by \<open>simp\<close>.\<close>

lemmas file_eval = jupyter_lab_config_lines config_defs py_str

subsection \<open>Statement lists\<close>

lemma exec_stmts_wf:
  "wf_config c \<Longrightarrow> exec_stmts c sts = Inr c' \<Longrightarrow> wf_config c'"
proof (induction sts arbitrary: c)
  case (Cons st sts)
  obtain p k v where st: "st = Assign p k v" by (cases st)
  with Cons.prems obtain c1 where step: "assign_path c p k (Val v) = Inr c1"
    and rest: "exec_stmts c1 sts = Inr c'"
    by (auto split: sum.splits)
  have "wf_config c1" using assign_path_wf [OF Cons.prems(1) _ step] by simp
  then show ?case using rest by (rule Cons.IH)
qed simp

lemma exec_stmts_Inr:
  "wf_config c \<Longrightarrow> list_all stmt_ok sts \<Longrightarrow> \<exists>c'. exec_stmts c sts = Inr c'"
proof (induction sts arbitrary: c)
  case (Cons st sts)
  obtain p k v where st: "st = Assign p k v" by (cases st)
  with Cons.prems obtain c1 where step: "assign_path c p k (Val v) = Inr c1"
    using assign_path_Inr [of c p k v] by auto
  have "wf_config c1" using assign_path_wf [OF Cons.prems(1) _ step] by simp
  with Cons.IH Cons.prems obtain c' where "exec_stmts c1 sts = Inr c'" by auto
  with st step show ?case by simp
qed simp

lemma exec_stmts_leaf:
  "wf_config c \<Longrightarrow> list_all stmt_ok sts \<Longrightarrow> exec_stmts c sts = Inr c' \<Longrightarrow>
   leaf_value c' = fold stmt_effect sts (leaf_value c)"
proof (induction sts arbitrary: c)
  case (Cons st sts)
  obtain p k v where st: "st = Assign p k v" by (cases st)
  with Cons.prems obtain c1 where step: "assign_path c p k (Val v) = Inr c1"
    and rest: "exec_stmts c1 sts = Inr c'"
    by (auto split: sum.splits)
  from Cons.prems st step have "leaf_value c1 = set_leaf (leaf_value c) (p @ [k]) v"
    by (auto intro: assign_path_leaf)
  moreover have "wf_config c1" using assign_path_wf [OF Cons.prems(1) _ step] by simp
  ultimately show ?case using Cons.IH Cons.prems rest st by simp
qed simp

lemma jupyter_lab_config_stmts_ok: "list_all stmt_ok jupyter_lab_config_stmts"
  by (simp add: jupyter_lab_config_lines py_str)

subsection \<open>The statements of the file\<close>

lemma set_leaf_commute:
  "\<not> prefix p q \<Longrightarrow> \<not> prefix q p \<Longrightarrow>
   set_leaf (set_leaf m p v) q w = set_leaf (set_leaf m q w) p v"
  by (rule ext) (auto simp: set_leaf_def strict_prefix_def)

lemma jupyter_lab_config_effect:
  "fold stmt_effect jupyter_lab_config_stmts m =
     set_leaf (set_leaf (set_leaf (set_leaf m
       [''ServerApp'', ''ip''] (PyStr ''0.0.0.0''))
       [''ServerApp'', ''port''] (PyInt 8888))
       [''ServerApp'', ''open_browser''] (PyBool False))
       [''FileContentsManager'', ''delete_to_trash''] (PyBool False)"
  by (simp add: jupyter_lab_config_lines)

lemma jupyter_lab_config_effect_commute:
  "x \<in> set jupyter_lab_config_stmts \<Longrightarrow> y \<in> set jupyter_lab_config_stmts \<Longrightarrow>
   stmt_effect x \<circ> stmt_effect y = stmt_effect y \<circ> stmt_effect x"
  by (auto simp: jupyter_lab_config_lines set_leaf_commute)

text \<open>C1: Executing the config file on any well-formed Config object never raises: every statement reaches its section through section keys and names a plain option, so the run returns a Config, which is again well-formed.\<close>

theorem jupyter_lab_config_total:
  assumes "wf_config c"
  shows "\<exists>c'. jupyter_lab_config c = Inr c' \<and> wf_config c'"
proof -
  from assms jupyter_lab_config_stmts_ok obtain c' where run: "exec_stmts c jupyter_lab_config_stmts = Inr c'"
    using exec_stmts_Inr by blast
  with assms have "wf_config c'" by (rule exec_stmts_wf)
  with run show ?thesis by (simp add: jupyter_lab_config_def)
qed

text \<open>C2: Refinement: on any well-formed starting Config, the options after running the file are the starting options with ServerApp.ip, ServerApp.port, ServerApp.open_browser and FileContentsManager.delete_to_trash set to the file's literals, and every other option unchanged.\<close>

theorem jupyter_lab_config_leaves:
  assumes "wf_config c" and "jupyter_lab_config c = Inr c'"
  shows "leaf_value c' =
     set_leaf (set_leaf (set_leaf (set_leaf (leaf_value c)
       [''ServerApp'', ''ip''] (PyStr ''0.0.0.0''))
       [''ServerApp'', ''port''] (PyInt 8888))
       [''ServerApp'', ''open_browser''] (PyBool False))
       [''FileContentsManager'', ''delete_to_trash''] (PyBool False)"
  using exec_stmts_leaf [OF assms(1) jupyter_lab_config_stmts_ok] assms(2)
  by (simp add: jupyter_lab_config_def jupyter_lab_config_effect)

text \<open>C3: The order of the four assignments does not matter for the options: any permutation of the statements, run on the same well-formed Config, yields the same option values as the file.\<close>

theorem jupyter_lab_config_order_independent:
  assumes "wf_config c" and "mset sts = mset jupyter_lab_config_stmts"
    and "exec_stmts c sts = Inr c1" and "jupyter_lab_config c = Inr c2"
  shows "leaf_value c1 = leaf_value c2"
proof -
  from assms(2) have "set sts = set jupyter_lab_config_stmts" by (metis set_mset_mset)
  with jupyter_lab_config_stmts_ok have ok: "list_all stmt_ok sts"
    by (simp add: list_all_iff)
  have "fold stmt_effect sts = fold stmt_effect jupyter_lab_config_stmts"
    using jupyter_lab_config_effect_commute assms(2)
    by (intro fold_multiset_equiv) (auto simp: \<open>set sts = set jupyter_lab_config_stmts\<close>)
  with exec_stmts_leaf [OF assms(1) ok assms(3)]
    exec_stmts_leaf [OF assms(1) jupyter_lab_config_stmts_ok] assms(4)
  show ?thesis by (simp add: jupyter_lab_config_def)
qed

text \<open>C10: Error path: if the Config the file receives holds a plain value under
  ServerApp (possible for a Config built from a dict without __setitem__), line 6
  reads that value as c.ServerApp and setting ip on it raises AttributeError; the
  run stops there.\<close>

theorem jupyter_lab_config_plain_section_error:
  assumes "map_of (config_items c) ''ServerApp'' = Some (Val x)"
  shows "jupyter_lab_config c = Inl (AttributeError ''ip'')"
proof -
  from assms have "config_getattr c ''ServerApp'' = Inr (Val x, c)"
    by (simp add: config_getattr_def config_getitem_present)
  then show ?thesis by (simp add: jupyter_lab_config_def jupyter_lab_config_lines)
qed

text \<open>C11: The last assignment to an option wins: whatever statements ran before it,
  after a final well-targeted c.S.k = v the option S.k holds v (a line appended to the
  file, or a later file, overrides its values).\<close>

theorem exec_stmts_last_assignment_wins:
  assumes "wf_config c" and "list_all stmt_ok sts" and "stmt_ok (Assign p k v)"
    and "exec_stmts c (sts @ [Assign p k v]) = Inr c'"
  shows "leaf_value c' (p @ [k]) = Some v"
proof -
  from assms(2,3) have "list_all stmt_ok (sts @ [Assign p k v])" by simp
  from exec_stmts_leaf [OF assms(1) this assms(4)]
  show ?thesis by simp
qed

subsection \<open>Witnesses\<close>

theorem jupyter_lab_config_total_witness:
  "wf_config (Config [(''ServerApp'', Sub (Config [(''port'', Val (PyInt 9999))]))]) \<and>
   (\<exists>c'. jupyter_lab_config (Config [(''ServerApp'', Sub (Config [(''port'', Val (PyInt 9999))]))]) = Inr c'
         \<and> wf_config c')"
  using jupyter_lab_config_total [of "Config [(''ServerApp'', Sub (Config [(''port'', Val (PyInt 9999))]))]"]
  by (simp add: wf_config_iff py_str)

theorem jupyter_lab_config_leaves_witness:
  "wf_config (Config [(''ServerApp'', Sub (Config [(''port'', Val (PyInt 9999))]))]) \<and>
   jupyter_lab_config (Config [(''ServerApp'', Sub (Config [(''port'', Val (PyInt 9999))]))]) =
     Inr (Config [(''ServerApp'', Sub (Config [(''port'', Val (PyInt 8888)), (''ip'', Val (PyStr ''0.0.0.0'')),
                                                (''open_browser'', Val (PyBool False))])),
                  (''FileContentsManager'', Sub (Config [(''delete_to_trash'', Val (PyBool False))]))]) \<and>
   leaf_value (Config [(''ServerApp'', Sub (Config [(''port'', Val (PyInt 8888)), (''ip'', Val (PyStr ''0.0.0.0'')),
                                                (''open_browser'', Val (PyBool False))])),
                  (''FileContentsManager'', Sub (Config [(''delete_to_trash'', Val (PyBool False))]))])
              [''ServerApp'', ''port''] = Some (PyInt 8888)"
proof -
  let ?c = "Config [(''ServerApp'', Sub (Config [(''port'', Val (PyInt 9999))]))]"
  let ?c' = "Config [(''ServerApp'', Sub (Config [(''port'', Val (PyInt 8888)), (''ip'', Val (PyStr ''0.0.0.0'')),
                                                (''open_browser'', Val (PyBool False))])),
                  (''FileContentsManager'', Sub (Config [(''delete_to_trash'', Val (PyBool False))]))]"
  have wf: "wf_config ?c" by (simp add: wf_config_iff py_str)
  have run: "jupyter_lab_config ?c = Inr ?c'"
    by (simp add: jupyter_lab_config_def file_eval)
  from jupyter_lab_config_leaves [OF wf run]
  have "leaf_value ?c' [''ServerApp'', ''port''] = Some (PyInt 8888)"
    by (simp add: set_leaf_def)
  with wf run show ?thesis by simp
qed

theorem jupyter_lab_config_order_independent_witness:
  "wf_config (Config []) \<and> mset (rev jupyter_lab_config_stmts) = mset jupyter_lab_config_stmts \<and>
   exec_stmts (Config []) (rev jupyter_lab_config_stmts) =
     Inr (Config [(''FileContentsManager'', Sub (Config [(''delete_to_trash'', Val (PyBool False))])),
                  (''ServerApp'', Sub (Config [(''open_browser'', Val (PyBool False)), (''port'', Val (PyInt 8888)),
                                              (''ip'', Val (PyStr ''0.0.0.0''))]))]) \<and>
   leaf_value (Config [(''FileContentsManager'', Sub (Config [(''delete_to_trash'', Val (PyBool False))])),
                  (''ServerApp'', Sub (Config [(''open_browser'', Val (PyBool False)), (''port'', Val (PyInt 8888)),
                                              (''ip'', Val (PyStr ''0.0.0.0''))]))]) =
   leaf_value (Config [(''ServerApp'', Sub (Config [(''ip'', Val (PyStr ''0.0.0.0'')), (''port'', Val (PyInt 8888)),
                                         (''open_browser'', Val (PyBool False))])),
              (''FileContentsManager'', Sub (Config [(''delete_to_trash'', Val (PyBool False))]))])"
proof -
  have wf: "wf_config (Config [])" by simp
  have perm: "mset (rev jupyter_lab_config_stmts) = mset jupyter_lab_config_stmts" by simp
  have run1: "exec_stmts (Config []) (rev jupyter_lab_config_stmts) =
     Inr (Config [(''FileContentsManager'', Sub (Config [(''delete_to_trash'', Val (PyBool False))])),
                  (''ServerApp'', Sub (Config [(''open_browser'', Val (PyBool False)), (''port'', Val (PyInt 8888)),
                                              (''ip'', Val (PyStr ''0.0.0.0''))]))])"
    by (simp add: file_eval)
  have run2: "jupyter_lab_config (Config []) = Inr
     (Config [(''ServerApp'', Sub (Config [(''ip'', Val (PyStr ''0.0.0.0'')), (''port'', Val (PyInt 8888)),
                                         (''open_browser'', Val (PyBool False))])),
              (''FileContentsManager'', Sub (Config [(''delete_to_trash'', Val (PyBool False))]))])"
    by (simp add: jupyter_lab_config_def file_eval)
  show ?thesis using jupyter_lab_config_order_independent [OF wf perm run1 run2] wf perm run1 by simp
qed

theorem jupyter_lab_config_plain_section_error_witness:
  "map_of (config_items (Config [(''ServerApp'', Val (PyInt 5))])) ''ServerApp'' = Some (Val (PyInt 5)) \<and>
   jupyter_lab_config (Config [(''ServerApp'', Val (PyInt 5))]) = Inl (AttributeError ''ip'')"
proof -
  have at: "map_of (config_items (Config [(''ServerApp'', Val (PyInt 5))])) ''ServerApp'' = Some (Val (PyInt 5))"
    by simp
  show ?thesis using jupyter_lab_config_plain_section_error [OF at] at by simp
qed

theorem exec_stmts_last_assignment_wins_witness:
  "wf_config (Config []) \<and> list_all stmt_ok jupyter_lab_config_stmts \<and>
   stmt_ok (Assign [''ServerApp''] ''port'' (PyInt 9999)) \<and>
   exec_stmts (Config []) (jupyter_lab_config_stmts @ [Assign [''ServerApp''] ''port'' (PyInt 9999)]) =
     Inr (Config [(''ServerApp'', Sub (Config [(''ip'', Val (PyStr ''0.0.0.0'')), (''port'', Val (PyInt 9999)),
                                              (''open_browser'', Val (PyBool False))])),
                  (''FileContentsManager'', Sub (Config [(''delete_to_trash'', Val (PyBool False))]))]) \<and>
   leaf_value (Config [(''ServerApp'', Sub (Config [(''ip'', Val (PyStr ''0.0.0.0'')), (''port'', Val (PyInt 9999)),
                                              (''open_browser'', Val (PyBool False))])),
                  (''FileContentsManager'', Sub (Config [(''delete_to_trash'', Val (PyBool False))]))])
     [''ServerApp'', ''port''] = Some (PyInt 9999)"
proof -
  have wf: "wf_config (Config [])" by simp
  have ok: "list_all stmt_ok jupyter_lab_config_stmts" by (simp add: jupyter_lab_config_lines py_str)
  have ok1: "stmt_ok (Assign [''ServerApp''] ''port'' (PyInt 9999))" by (simp add: py_str)
  have run: "exec_stmts (Config []) (jupyter_lab_config_stmts @ [Assign [''ServerApp''] ''port'' (PyInt 9999)]) =
     Inr (Config [(''ServerApp'', Sub (Config [(''ip'', Val (PyStr ''0.0.0.0'')), (''port'', Val (PyInt 9999)),
                                              (''open_browser'', Val (PyBool False))])),
                  (''FileContentsManager'', Sub (Config [(''delete_to_trash'', Val (PyBool False))]))])"
    by (simp add: file_eval)
  show ?thesis using exec_stmts_last_assignment_wins [OF wf ok ok1 run] wf ok ok1 run by simp
qed

end
