(* ===== verification/Settings.thy ===== *)
theory Settings
  imports ConfigScript "HOL-Library.Monad_Syntax"
begin

text \<open>
  The abstract specification of what the config file provides (the settings record
  of the spec, section 3) and the contract of the external host that reads it
  (spec, sections 6 and 8): the host takes each option from the configuration
  when it is there with the right type and from its own default otherwise, binds
  its listener to the address and a 16-bit TCP port, launches a browser only when
  \<open>open_browser\<close> holds, and deletes a file either into a trash location or
  permanently. The host is not code of this repository: these definitions state the
  spec's contract, against which the config file is checked.
\<close>

section \<open>Definitions\<close>

text \<open>The settings record: one field per key path of the spec's table.\<close>


record settings =
  bind_address :: string
  port :: int
  open_browser :: bool
  delete_to_trash :: bool

text \<open>The literal values the spec requires, and its four key paths.\<close>

definition spec_settings :: settings where
  "spec_settings = \<lparr>bind_address = ''0.0.0.0'', port = 8888, open_browser = False, delete_to_trash = False\<rparr>"

definition spec_key_paths :: "attr_path list" where
  "spec_key_paths = [[''ServerApp'', ''ip''], [''ServerApp'', ''port''],
                     [''ServerApp'', ''open_browser''], [''FileContentsManager'', ''delete_to_trash'']]"

text \<open>Reading an option at the type the host expects.\<close>

fun as_str :: "pyval \<Rightarrow> string option" where
  "as_str (PyStr s) = Some s" | "as_str _ = None"
fun as_int :: "pyval \<Rightarrow> int option" where
  "as_int (PyInt i) = Some i" | "as_int _ = None"
fun as_bool :: "pyval \<Rightarrow> bool option" where
  "as_bool (PyBool b) = Some b" | "as_bool _ = None"

text \<open>
  Abstraction of a loaded configuration to the settings record: defined when all four
  options are present with their types.
\<close>

definition settings_of :: "config \<Rightarrow> settings option" where
  "settings_of c = do {
     a \<leftarrow> leaf_value c [''ServerApp'', ''ip''] \<bind> as_str;
     p \<leftarrow> leaf_value c [''ServerApp'', ''port''] \<bind> as_int;
     b \<leftarrow> leaf_value c [''ServerApp'', ''open_browser''] \<bind> as_bool;
     t \<leftarrow> leaf_value c [''FileContentsManager'', ''delete_to_trash''] \<bind> as_bool;
     Some \<lparr>bind_address = a, port = p, open_browser = b, delete_to_trash = t\<rparr>
   }"

text \<open>The key paths of all option values of a configuration, in dict order.\<close>

primrec leaf_paths :: "config \<Rightarrow> attr_path list"
  and items_leaf_paths :: "entry pydict \<Rightarrow> attr_path list"
  and item_leaf_paths :: "key \<times> entry \<Rightarrow> attr_path list"
  and entry_leaf_paths :: "entry \<Rightarrow> attr_path list" where
  "leaf_paths (Config d) = items_leaf_paths d"
| "items_leaf_paths [] = []"
| "items_leaf_paths (p # d) = item_leaf_paths p @ items_leaf_paths d"
| "item_leaf_paths (k, e) = map (Cons k) (entry_leaf_paths e)"
| "entry_leaf_paths (Sub c) = leaf_paths c"
| "entry_leaf_paths (Val v) = [[]]"
| "entry_leaf_paths Lazy = []"

text \<open>
  The host's view: each option from the configuration when it is present with the
  right type, from the host's default otherwise.
\<close>

definition read_option :: "config \<Rightarrow> attr_path \<Rightarrow> (pyval \<Rightarrow> 'a option) \<Rightarrow> 'a \<Rightarrow> 'a" where
  "read_option c p conv dflt = (case leaf_value c p \<bind> conv of Some x \<Rightarrow> x | None \<Rightarrow> dflt)"

definition effective_settings :: "settings \<Rightarrow> config \<Rightarrow> settings" where
  "effective_settings dflt c =
     \<lparr>bind_address = read_option c [''ServerApp'', ''ip''] as_str (bind_address dflt),
      port = read_option c [''ServerApp'', ''port''] as_int (port dflt),
      open_browser = read_option c [''ServerApp'', ''open_browser''] as_bool (open_browser dflt),
      delete_to_trash = read_option c [''FileContentsManager'', ''delete_to_trash''] as_bool (delete_to_trash dflt)\<rparr>"

text \<open>
  A TCP port is a 16-bit unsigned number; the Python \<open>int\<close> of the configuration is
  accepted only in range, so that no value wraps around.
\<close>

definition port_word :: "int \<Rightarrow> 16 word option" where
  "port_word p = (if 0 \<le> p \<and> p \<le> 65535 then Some (word_of_int p) else None)"

definition bind_endpoint :: "settings \<Rightarrow> (string \<times> 16 word) option" where
  "bind_endpoint s = map_option (\<lambda>w. (bind_address s, w)) (port_word (port s))"

text \<open>
  The file-management collaborator: a file system and a trash location, both maps
  from paths to contents, and the deletion the spec describes.
\<close>

record fs_state =
  files :: "string \<rightharpoonup> string"
  trash :: "string \<rightharpoonup> string"

datatype fs_error = NotFound string

definition delete_file :: "settings \<Rightarrow> string \<Rightarrow> fs_state \<Rightarrow> fs_error + fs_state" where
  "delete_file s path st =
     (case files st path of
        None \<Rightarrow> Inl (NotFound path)
      | Some content \<Rightarrow>
          if delete_to_trash s
          then Inr (st\<lparr>files := (files st)(path := None), trash := (trash st)(path \<mapsto> content)\<rparr>)
          else Inr (st\<lparr>files := (files st)(path := None)\<rparr>))"

text \<open>
  The settings record written out as a config file: one assignment per key path,
  in the order of the spec's table. The spec's record rendered this way is the
  statement list of \<open>src/jupyter_lab_config.py\<close>.
\<close>

definition settings_stmts :: "settings \<Rightarrow> stmt list" where
  "settings_stmts s =
     [Assign [''ServerApp''] ''ip'' (PyStr (bind_address s)),
      Assign [''ServerApp''] ''port'' (PyInt (port s)),
      Assign [''ServerApp''] ''open_browser'' (PyBool (open_browser s)),
      Assign [''FileContentsManager''] ''delete_to_trash'' (PyBool (delete_to_trash s))]"

text \<open>
  The host's trait types for the four options: \<open>ServerApp.ip\<close> is a
  \<open>Unicode\<close> trait, \<open>ServerApp.port\<close> an \<open>Integer\<close> (which, since a Python
  \<open>bool\<close> is an \<open>int\<close>, also accepts \<open>True\<close> and \<open>False\<close>), and
  \<open>open_browser\<close> and \<open>delete_to_trash\<close> are \<open>Bool\<close> traits (which also accept
  the integers 0 and 1). Options outside the contract are not constrained here.
\<close>

definition trait_accepts :: "attr_path \<Rightarrow> pyval \<Rightarrow> bool" where
  "trait_accepts p v =
     (if p = [''ServerApp'', ''ip''] then (case v of PyStr _ \<Rightarrow> True | _ \<Rightarrow> False)
      else if p = [''ServerApp'', ''port''] then (case v of PyInt _ \<Rightarrow> True | PyBool _ \<Rightarrow> True | _ \<Rightarrow> False)
      else if p = [''ServerApp'', ''open_browser''] \<or> p = [''FileContentsManager'', ''delete_to_trash'']
      then (case v of PyBool _ \<Rightarrow> True | PyInt i \<Rightarrow> i = 0 \<or> i = 1 | _ \<Rightarrow> False)
      else True)"

text \<open>Every option value present is accepted by its trait.\<close>

abbreviation typed_leaves :: "(attr_path \<Rightarrow> pyval option) \<Rightarrow> bool" where
  "typed_leaves m \<equiv> \<forall>p. pred_option (trait_accepts p) (m p)"

section \<open>Lemmas\<close>

lemma effective_settings_of:
  "settings_of c = Some s \<Longrightarrow> effective_settings dflt c = s"
  by (auto simp: settings_of_def effective_settings_def read_option_def split: Option.bind_splits)

lemma port_word_Some_iff:
  "port_word p = Some w \<longleftrightarrow> 0 \<le> p \<and> p \<le> 65535 \<and> w = word_of_int p"
  by (auto simp: port_word_def)

lemma typed_set_leaf:
  "typed_leaves m \<Longrightarrow> trait_accepts p v \<Longrightarrow> typed_leaves (set_leaf m p v)"
  by (simp add: set_leaf_def)

lemma typed_fold_effect:
  "typed_leaves m \<Longrightarrow> list_all (\<lambda>st. trait_accepts (stmt_target st) (stmt_value st)) sts \<Longrightarrow>
   typed_leaves (fold stmt_effect sts m)"
proof (induction sts arbitrary: m)
  case (Cons st sts)
  obtain p k v where st: "st = Assign p k v" by (cases st)
  have acc: "trait_accepts (p @ [k]) v" using Cons.prems(2) st by simp
  have "typed_leaves (stmt_effect st m)"
    unfolding st stmt_effect.simps by (rule typed_set_leaf [OF Cons.prems(1) acc])
  moreover have "list_all (\<lambda>st. trait_accepts (stmt_target st) (stmt_value st)) sts"
    using Cons.prems(2) by simp
  ultimately have "typed_leaves (fold stmt_effect sts (stmt_effect st m))" by (rule Cons.IH)
  then show ?case by (simp only: fold_Cons comp_apply simp_thms)
qed simp

lemma settings_stmts_ok: "list_all stmt_ok (settings_stmts s)"
  by (simp add: settings_stmts_def py_str)

lemma settings_stmts_effect:
  "fold stmt_effect (settings_stmts s) m = set_leaf (set_leaf (set_leaf (set_leaf m
       [''ServerApp'', ''ip''] (PyStr (bind_address s)))
       [''ServerApp'', ''port''] (PyInt (port s)))
       [''ServerApp'', ''open_browser''] (PyBool (open_browser s)))
       [''FileContentsManager'', ''delete_to_trash''] (PyBool (delete_to_trash s))"
  by (simp add: settings_stmts_def)

text \<open>A port accepted by the checked conversion reads back, as an unsigned 16-bit word, as the same integer, and lies in 0..65535.\<close>

theorem port_word_roundtrip:
  assumes "port_word p = Some w"
  shows "uint w = p \<and> 0 \<le> p \<and> p \<le> 65535"
proof -
  from assms have range: "0 \<le> p" "p \<le> 65535" and w: "w = word_of_int p"
    by (simp_all add: port_word_Some_iff)
  from range have "take_bit 16 p = p"
    by (simp add: take_bit_int_eq_self)
  with w range show ?thesis by (simp add: uint_word_of_int_eq)
qed

text \<open>The range check matters: a port 65536 above a valid one is rejected, although its unchecked 16-bit conversion wraps around to the same word.\<close>

theorem port_word_wraps:
  assumes "0 \<le> p"
  shows "port_word (p + 65536) = None \<and> (word_of_int (p + 65536) :: 16 word) = word_of_int p"
  using assms by (simp add: port_word_def wi_hom_syms)

subsection \<open>Settings written as a config file, and option types\<close>

text \<open>
  C14: round trip between the spec's record and config files: writing any
  settings record as assignments and running them on any well-formed Config
  succeeds and reads back, through \<open>settings_of\<close>, as the same record.
\<close>

theorem settings_roundtrip:
  assumes "wf_config c"
  shows "\<exists>c'. exec_stmts c (settings_stmts s) = Inr c' \<and> settings_of c' = Some s"
proof -
  obtain c' where run: "exec_stmts c (settings_stmts s) = Inr c'"
    using exec_stmts_Inr [OF assms settings_stmts_ok] by blast
  have "leaf_value c' = fold stmt_effect (settings_stmts s) (leaf_value c)"
    by (rule exec_stmts_leaf [OF assms settings_stmts_ok run])
  then have "settings_of c' = Some s"
    by (simp add: settings_of_def settings_stmts_effect set_leaf_def strict_prefix_def)
  with run show ?thesis by blast
qed

text \<open>
  C15: the file keeps a configuration well typed: if every option of the
  starting Config is accepted by the host's trait for it, so is every option
  after the file ran.
\<close>

theorem jupyter_lab_config_typed:
  assumes "wf_config c" and "typed_leaves (leaf_value c)" and "jupyter_lab_config c = Inr c'"
  shows "typed_leaves (leaf_value c')"
proof -
  have run: "exec_stmts c jupyter_lab_config_stmts = Inr c'"
    using assms(3) by (simp add: jupyter_lab_config_def)
  have "list_all (\<lambda>st. trait_accepts (stmt_target st) (stmt_value st)) jupyter_lab_config_stmts"
    by (simp add: jupyter_lab_config_lines trait_accepts_def)
  then have "typed_leaves (fold stmt_effect jupyter_lab_config_stmts (leaf_value c))"
    by (rule typed_fold_effect [OF assms(2)])
  moreover have "leaf_value c' = fold stmt_effect jupyter_lab_config_stmts (leaf_value c)"
    by (rule exec_stmts_leaf [OF assms(1) jupyter_lab_config_stmts_ok run])
  ultimately show ?thesis by (simp only: simp_thms)
qed

subsection \<open>Witnesses\<close>

theorem port_word_roundtrip_witness: "port_word 8888 = Some 8888 \<and> uint (8888 :: 16 word) = 8888 \<and> (0::int) \<le> 8888 \<and> (8888::int) \<le> 65535"
proof -
  have w: "port_word 8888 = Some 8888" by (simp add: port_word_def)
  show ?thesis using port_word_roundtrip [OF w] w by simp
qed

theorem port_word_wraps_witness:
  "(0::int) \<le> 8888 \<and> port_word 74424 = None \<and> (word_of_int 74424 :: 16 word) = word_of_int 8888"
  using port_word_wraps [of 8888] by simp

theorem settings_roundtrip_witness:
  "wf_config (Config []) \<and> settings_stmts spec_settings = jupyter_lab_config_stmts \<and>
   (\<exists>c'. exec_stmts (Config []) (settings_stmts spec_settings) = Inr c' \<and> settings_of c' = Some spec_settings)"
proof -
  have wf: "wf_config (Config [])" by (simp add: wf_config_iff)
  have "settings_stmts spec_settings = jupyter_lab_config_stmts"
    by (simp add: settings_stmts_def spec_settings_def jupyter_lab_config_lines)
  with wf settings_roundtrip [OF wf, of spec_settings] show ?thesis by blast
qed

theorem jupyter_lab_config_typed_witness:
  "wf_config (Config []) \<and> typed_leaves (leaf_value (Config [])) \<and>
   jupyter_lab_config (Config []) = Inr
     (Config [(''ServerApp'', Sub (Config [(''ip'', Val (PyStr ''0.0.0.0'')), (''port'', Val (PyInt 8888)),
                                         (''open_browser'', Val (PyBool False))])),
              (''FileContentsManager'', Sub (Config [(''delete_to_trash'', Val (PyBool False))]))]) \<and>
   typed_leaves (leaf_value
     (Config [(''ServerApp'', Sub (Config [(''ip'', Val (PyStr ''0.0.0.0'')), (''port'', Val (PyInt 8888)),
                                         (''open_browser'', Val (PyBool False))])),
              (''FileContentsManager'', Sub (Config [(''delete_to_trash'', Val (PyBool False))]))]))"
proof -
  have wf: "wf_config (Config [])" by (simp add: wf_config_iff)
  have t0: "typed_leaves (leaf_value (Config []))" by simp
  have run: "jupyter_lab_config (Config []) = Inr
     (Config [(''ServerApp'', Sub (Config [(''ip'', Val (PyStr ''0.0.0.0'')), (''port'', Val (PyInt 8888)),
                                         (''open_browser'', Val (PyBool False))])),
              (''FileContentsManager'', Sub (Config [(''delete_to_trash'', Val (PyBool False))]))])"
    by (simp add: jupyter_lab_config_def file_eval)
  show ?thesis using wf t0 run jupyter_lab_config_typed [OF wf t0 run] by (simp only: simp_thms)
qed

end
