(* ===== verification/ConfigMerge.thy ===== *)
theory ConfigMerge
  imports ConfigScript
begin

text \<open>
  Loading several config files, as \<open>Application.load_config_file\<close> of traitlets
  does it when the Jupyter server starts: each file (this repository's
  \<open>jupyter_lab_config.py\<close> among the system, user and project ones) is run on a
  fresh \<open>Config\<close>, and the results are combined with \<open>Config.merge\<close>, then
  the command-line config, then merged into the application's config. The
  theory models \<open>Config.merge\<close> and this loop, proves that merge refines
  overriding of option values (\<open>map_add\<close>), that a failing file is skipped or
  aborts loading depending on \<open>raise_config_file_errors\<close>, and that loading
  the file this way agrees with running it on the accumulated config.
\<close>

section \<open>Definitions\<close>

text \<open>
  \<open>dict.update(self, to_update)\<close>: the base-class update, key by key in the
  order of \<open>to_update\<close>, without \<open>Config.__setitem__\<close>'s check.
\<close>

fun dict_update :: "entry pydict \<Rightarrow> entry pydict \<Rightarrow> entry pydict" where
  "dict_update d [] = d"
| "dict_update d ((k, v) # kvs) = dict_update (AList.update k v d) kvs"

text \<open>
  \<open>Config.merge(self, other)\<close> (traitlets 5, \<open>config/loader.py\<close>): for each item
  \<open>k, v\<close> of \<open>other\<close> in order, a key \<open>self\<close> lacks goes to \<open>to_update\<close>; a key
  whose old and new values are both \<open>Config\<close> is merged recursively in place; a new
  \<open>LazyConfigValue\<close> is merged into the old value (\<open>v.merge_into(self[k])\<close>,
  which for a lazy value without recorded operations returns the old value) and
  stored with \<open>self[k] = ...\<close>, the checked \<open>__setitem__\<close>; any other value goes to
  \<open>to_update\<close>. Finally \<open>self.update(to_update)\<close>. \<open>merge_loop d ot tu\<close> is the
  loop with \<open>d\<close> the items of \<open>self\<close>, \<open>ot\<close> the items still to visit and
  \<open>tu\<close> the dict \<open>to_update\<close>.
\<close>

function config_merge :: "config \<Rightarrow> config \<Rightarrow> pyerror + config"
  and merge_loop :: "entry pydict \<Rightarrow> entry pydict \<Rightarrow> entry pydict \<Rightarrow> pyerror + (entry pydict \<times> entry pydict)" where
  "config_merge (Config d) (Config ot) =
     (case merge_loop d ot [] of Inl e \<Rightarrow> Inl e | Inr (d', tu) \<Rightarrow> Inr (Config (dict_update d' tu)))"
| "merge_loop d [] tu = Inr (d, tu)"
| "merge_loop d ((k, v) # ot) tu =
     (case map_of d k of
        None \<Rightarrow> merge_loop d ot (AList.update k v tu)
      | Some e \<Rightarrow>
          (case v of
             Sub c2 \<Rightarrow>
               (case e of
                  Sub c1 \<Rightarrow>
                    (case config_merge c1 c2 of
                       Inl err \<Rightarrow> Inl err
                     | Inr c1' \<Rightarrow> merge_loop (AList.update k (Sub c1') d) ot tu)
                | _ \<Rightarrow> merge_loop d ot (AList.update k v tu))
           | Lazy \<Rightarrow>
               (case config_setitem (Config d) k e of
                  Inl err \<Rightarrow> Inl err
                | Inr c' \<Rightarrow> merge_loop (config_items c') ot tu)
           | Val _ \<Rightarrow> merge_loop d ot (AList.update k v tu)))"
  by pat_completeness auto
termination
  by (relation "measure (case_sum (\<lambda>(c1, c2). size c2) (\<lambda>(d, ot, tu). size_list (size_prod (\<lambda>_. 0) size) ot))")
     auto


text \<open>
  \<open>Application._load_config_files\<close>: each config file is run by a fresh
  \<open>PyFileConfigLoader\<close> on a fresh \<open>Config\<close> (\<open>load_config\<close>), in load order
  (the path reversed, lowest priority first). A file that raises is skipped
  unless \<open>raise_config_file_errors\<close> is set; an empty result is not yielded
  (\<open>if config:\<close>). A file that is not there is not in the list.
\<close>

fun load_config_files :: "bool \<Rightarrow> (config \<Rightarrow> pyerror + config) list \<Rightarrow> pyerror + config list" where
  "load_config_files raise [] = Inr []"
| "load_config_files raise (s # ss) =
     (case load_config s of
        Inl e \<Rightarrow> (if raise then Inl e else load_config_files raise ss)
      | Inr c \<Rightarrow>
          (if c = Config [] then load_config_files raise ss
           else (case load_config_files raise ss of Inl e \<Rightarrow> Inl e | Inr cs \<Rightarrow> Inr (c # cs))))"

text \<open>
  The loop body of \<open>Application.load_config_file\<close>: \<open>new_config.merge(config)\<close>
  for each yielded config.
\<close>

fun merge_all :: "config \<Rightarrow> config list \<Rightarrow> pyerror + config" where
  "merge_all c [] = Inr c"
| "merge_all c (x # xs) = (case config_merge c x of Inl e \<Rightarrow> Inl e | Inr c' \<Rightarrow> merge_all c' xs)"

text \<open>
  \<open>Application.load_config_file\<close>: merge the files' configs into a new
  \<open>Config\<close>, then the command-line config \<open>cli\<close> (so that the command line
  wins), then \<open>update_config\<close> merges the result into the application's config
  \<open>app\<close>.
\<close>

definition load_config_file ::
  "bool \<Rightarrow> (config \<Rightarrow> pyerror + config) list \<Rightarrow> config \<Rightarrow> config \<Rightarrow> pyerror + config" where
  "load_config_file raise scripts cli app =
     (case load_config_files raise scripts of
        Inl e \<Rightarrow> Inl e
      | Inr cs \<Rightarrow>
          (case merge_all (Config []) cs of
             Inl e \<Rightarrow> Inl e
           | Inr new \<Rightarrow> (case config_merge new cli of Inl e \<Rightarrow> Inl e | Inr new' \<Rightarrow> config_merge app new')))"

text \<open>
  The options the loaded files provide, later files overriding earlier ones.
\<close>

fun file_leaves :: "(config \<Rightarrow> pyerror + config) list \<Rightarrow> attr_path \<Rightarrow> pyval option" where
  "file_leaves [] = Map.empty"
| "file_leaves (s # ss) = (case load_config s of Inl _ \<Rightarrow> Map.empty | Inr c \<Rightarrow> leaf_value c) ++ file_leaves ss"

text \<open>
  The shape of every config built by attribute assignment of literals: distinct
  keys, a \<open>Config\<close> under exactly the section keys, recursively. It is stronger
  than \<open>wf_config\<close>, which allows a \<open>Config\<close> under a lower-case key.
\<close>

primrec strict_config :: "config \<Rightarrow> bool"
  and strict_items :: "entry pydict \<Rightarrow> bool"
  and strict_item :: "key \<times> entry \<Rightarrow> bool"
  and strict_entry :: "entry \<Rightarrow> bool" where
  "strict_config (Config d) = (distinct (map fst d) \<and> strict_items d)"
| "strict_items [] = True"
| "strict_items (p # d) = (strict_item p \<and> strict_items d)"
| "strict_item (k, e) = ((is_section_key k \<longleftrightarrow> is_config_instance e) \<and> strict_entry e)"
| "strict_entry (Sub c) = strict_config c"
| "strict_entry (Val v) = True"
| "strict_entry Lazy = True"

text \<open>
  The option values below one entry, and below an optional entry.
\<close>

fun entry_leaf :: "entry \<Rightarrow> attr_path \<Rightarrow> pyval option" where
  "entry_leaf (Val v) r = (if r = [] then Some v else None)"
| "entry_leaf (Sub c) r = leaf_value c r"
| "entry_leaf Lazy r = None"

definition eleaf :: "entry option \<Rightarrow> attr_path \<Rightarrow> pyval option" where
  "eleaf eo = (case eo of None \<Rightarrow> Map.empty | Some e \<Rightarrow> entry_leaf e)"

section \<open>Lemmas\<close>

declare strict_item.simps [simp del]

lemma strict_item_Sub [simp]: "strict_item (k, Sub c) \<longleftrightarrow> is_section_key k \<and> strict_config c"
  by (simp add: strict_item.simps)
lemma strict_item_Val [simp]: "strict_item (k, Val v) \<longleftrightarrow> \<not> is_section_key k"
  by (simp add: strict_item.simps)
lemma strict_item_Lazy [simp]: "strict_item (k, Lazy) \<longleftrightarrow> \<not> is_section_key k"
  by (simp add: strict_item.simps)

lemma strict_items_iff: "strict_items d \<longleftrightarrow> (\<forall>p\<in>set d. strict_item p)"
  by (induction d) auto

lemma strict_config_iff:
  "strict_config (Config d) \<longleftrightarrow> distinct (map fst d) \<and> (\<forall>p\<in>set d. strict_item p)"
  by (simp add: strict_items_iff)

lemma strict_found:
  "strict_config (Config d) \<Longrightarrow> map_of d k = Some e \<Longrightarrow> strict_item (k, e)"
  by (simp only: strict_config_iff) (auto dest: map_of_SomeD)

lemma strict_update:
  "strict_config (Config d) \<Longrightarrow> strict_item (k, e) \<Longrightarrow> strict_config (Config (AList.update k e d))"
  by (simp only: strict_config_iff) (auto simp: AList.distinct_update dest: mem_update_dict)

lemma leaf_value_Cons_eleaf: "leaf_value (Config d) (s # r) = eleaf (map_of d s) r"
  by (cases r; cases "map_of d s") (auto simp: eleaf_def split: entry.split)

lemma map_of_dict_update:
  "distinct (map fst tu) \<Longrightarrow> map_of (dict_update d tu) = map_of d ++ map_of tu"
proof (induction tu arbitrary: d)
  case (Cons p tu)
  obtain k v where p: "p = (k, v)" by (cases p)
  with Cons.prems have "k \<notin> dom (map_of tu)" by (auto simp: dom_map_of_conv_image_fst)
  with Cons p show ?case by (auto simp: AList.update_conv' map_add_def fun_eq_iff split: option.split)
qed simp

lemma set_dict_update: "set (dict_update d tu) \<subseteq> set d \<union> set tu"
proof (induction tu arbitrary: d)
  case (Cons p tu)
  obtain k v where p: "p = (k, v)" by (cases p)
  with Cons.IH [of "AList.update k v d"] set_update_subset [of k v d] show ?case by auto
qed simp

lemma distinct_dict_update:
  "distinct (map fst d) \<Longrightarrow> distinct (map fst (dict_update d tu))"
  by (induction tu arbitrary: d) (auto simp: AList.distinct_update)

lemma update_found: "map_of d k = Some e \<Longrightarrow> AList.update k e d = d"
  by (induction d) auto

lemma dom_update_keys: "fst ` set (AList.update k v al) = insert k (fst ` set al)"
  by (simp add: AList.dom_update)

lemma map_add_update_right: "(m ++ (f(k \<mapsto> v))) = (m ++ f)(k \<mapsto> v)"
  by (rule map_add_upd)

lemma entry_leaf_Sub_eq: "entry_leaf (Sub c) = leaf_value c"
  by (rule ext) simp

lemma entry_leaf_Lazy_eq: "entry_leaf Lazy = Map.empty"
  by (rule ext) simp

lemma entry_leaf_plain:
  "\<not> is_config_instance e \<Longrightarrow> entry_leaf e ++ entry_leaf (Val x) = entry_leaf (Val x)"
  by (cases e) (auto simp: fun_eq_iff map_add_def)

lemma merge_strict:
  shows "strict_config c1 \<Longrightarrow> strict_config c2 \<Longrightarrow>
     \<exists>c. config_merge c1 c2 = Inr c \<and> strict_config c \<and> leaf_value c = leaf_value c1 ++ leaf_value c2"
  and "strict_config (Config d) \<Longrightarrow> strict_config (Config ot) \<Longrightarrow> strict_config (Config tu) \<Longrightarrow>
     fst ` set tu \<inter> fst ` set ot = {} \<Longrightarrow>
     \<exists>d' tu'. merge_loop d ot tu = Inr (d', tu') \<and> strict_config (Config d') \<and> strict_config (Config tu') \<and>
       (\<forall>s. eleaf ((map_of d' ++ map_of tu') s) = eleaf ((map_of d ++ map_of tu) s) ++ eleaf (map_of ot s))"
proof (induction c1 c2 and d ot tu rule: config_merge_merge_loop.induct)
  case (1 d ot)
  have "strict_config (Config [])" by simp
  from "1.IH" [OF "1.prems" this] obtain d' tu' where run: "merge_loop d ot [] = Inr (d', tu')"
    and sd': "strict_config (Config d')" and st': "strict_config (Config tu')"
    and rel: "\<And>s. eleaf ((map_of d' ++ map_of tu') s) = eleaf (map_of d s) ++ eleaf (map_of ot s)"
    by auto
  let ?m = "dict_update d' tu'"
  have mo: "map_of ?m = map_of d' ++ map_of tu'"
    using st' by (simp add: map_of_dict_update)
  have "strict_config (Config ?m)"
    using sd' st' set_dict_update [of d' tu'] distinct_dict_update [of d' tu']
    unfolding strict_config_iff by blast
  moreover have "leaf_value (Config ?m) = leaf_value (Config d) ++ leaf_value (Config ot)"
  proof
    fix p show "leaf_value (Config ?m) p = (leaf_value (Config d) ++ leaf_value (Config ot)) p"
    proof (cases p)
      case (Cons s r)
      have "leaf_value (Config ?m) p = (eleaf (map_of d s) ++ eleaf (map_of ot s)) r"
        by (simp only: Cons leaf_value_Cons_eleaf mo rel)
      also have "\<dots> = (leaf_value (Config d) ++ leaf_value (Config ot)) p"
        by (simp only: Cons leaf_value_Cons_eleaf map_add_def)
      finally show ?thesis .
    qed (simp add: map_add_def)
  qed
  ultimately show ?case using run by simp
next
  case (2 d tu)
  then show ?case by (simp add: eleaf_def)
next
  case (3 d k v ot tu)
  note sd = "3.prems"(1) and st = "3.prems"(3)
  from "3.prems"(2) have kv: "strict_item (k, v)" and so: "strict_config (Config ot)"
    and kot: "k \<notin> fst ` set ot" by (auto simp: strict_config_iff)
  from "3.prems"(4) have ktu: "k \<notin> fst ` set tu" and disj: "fst ` set tu \<inter> fst ` set ot = {}" by auto
  have otk: "map_of ot k = None" and tuk: "map_of tu k = None"
    using kot ktu by (simp_all add: map_of_eq_None_iff)
  have st1: "strict_config (Config (AList.update k v tu))" by (rule strict_update [OF st kv])
  have disj1: "fst ` set (AList.update k v tu) \<inter> fst ` set ot = {}"
    using disj kot by (auto simp: dom_update_keys)
  show ?case
  proof (cases "map_of d k")
    case None
    from "3.IH"(1) [OF None sd so st1 disj1] obtain d' tu' where
      "merge_loop d ot (AList.update k v tu) = Inr (d', tu')" "strict_config (Config d')" "strict_config (Config tu')"
      and rel: "\<And>s. eleaf ((map_of d' ++ map_of tu') s) = eleaf ((map_of d ++ map_of (AList.update k v tu)) s) ++ eleaf (map_of ot s)"
      by blast
    moreover have "eleaf ((map_of d' ++ map_of tu') s) = eleaf ((map_of d ++ map_of tu) s) ++ eleaf (map_of ((k, v) # ot) s)" for s
      using rel [of s] None otk tuk
      by (cases "s = k") (simp_all add: AList.update_conv' map_add_update_right map_add_def eleaf_def)
    ultimately show ?thesis using None by auto
  next
    case (Some e)
    have ke: "strict_item (k, e)" by (rule strict_found [OF sd Some])
    have lk: "(map_of d ++ map_of tu) k = Some e" using Some tuk by (simp add: map_add_def)
    show ?thesis
    proof (cases v)
      case (Sub c2)
      with kv ke obtain c1 where e: "e = Sub c1" and sc1: "strict_config c1" and sc2: "strict_config c2"
        by (cases e) auto
      from "3.IH"(2) [OF Some Sub e sc1 sc2] obtain c1' where m: "config_merge c1 c2 = Inr c1'"
        and sc1': "strict_config c1'" and leaf: "leaf_value c1' = leaf_value c1 ++ leaf_value c2" by blast
      have sd1: "strict_config (Config (AList.update k (Sub c1') d))"
        using strict_update [OF sd] kv Sub sc1' by simp
      from "3.IH"(3) [OF Some Sub e m sd1 so st disj] obtain d' tu' where
        "merge_loop (AList.update k (Sub c1') d) ot tu = Inr (d', tu')" "strict_config (Config d')" "strict_config (Config tu')"
        and rel: "\<And>s. eleaf ((map_of d' ++ map_of tu') s) = eleaf ((map_of (AList.update k (Sub c1') d) ++ map_of tu) s) ++ eleaf (map_of ot s)"
        by blast
      moreover have "eleaf ((map_of d' ++ map_of tu') s) = eleaf ((map_of d ++ map_of tu) s) ++ eleaf (map_of ((k, v) # ot) s)" for s
      proof -
        have lk1: "map_of (AList.update k (Sub c1') d) ++ map_of tu = (map_of d ++ map_of tu)(k \<mapsto> Sub c1')"
          unfolding AList.update_conv' using ktu by (intro map_add_upd_left) (simp add: dom_map_of_conv_image_fst)
        show ?thesis using rel [of s] lk otk Sub e leaf
          by (cases "s = k") (simp_all add: lk1 eleaf_def entry_leaf_Sub_eq)
      qed
      ultimately show ?thesis using Some Sub e m by auto
    next
      case (Val x)
      with kv ke have plain: "\<not> is_config_instance e" by (cases e) auto
      from "3.IH"(6) [OF Some Val sd so st1 disj1] obtain d' tu' where
        "merge_loop d ot (AList.update k v tu) = Inr (d', tu')" "strict_config (Config d')" "strict_config (Config tu')"
        and rel: "\<And>s. eleaf ((map_of d' ++ map_of tu') s) = eleaf ((map_of d ++ map_of (AList.update k v tu)) s) ++ eleaf (map_of ot s)"
        by blast
      moreover have "eleaf ((map_of d' ++ map_of tu') s) = eleaf ((map_of d ++ map_of tu) s) ++ eleaf (map_of ((k, v) # ot) s)" for s
        using rel [of s] lk otk Val entry_leaf_plain [OF plain, of x]
        by (cases "s = k") (simp_all add: AList.update_conv' map_add_update_right eleaf_def)
      ultimately show ?thesis using Some Val by auto
    next
      case Lazy
      with kv ke have plain: "\<not> is_section_key k" by simp
      have set: "config_setitem (Config d) k e = Inr (Config d)"
        using plain update_found [OF Some] by simp
      from "3.IH"(7) [OF Some Lazy set] sd so st disj obtain d' tu' where
        "merge_loop d ot tu = Inr (d', tu')" "strict_config (Config d')" "strict_config (Config tu')"
        and rel: "\<And>s. eleaf ((map_of d' ++ map_of tu') s) = eleaf ((map_of d ++ map_of tu) s) ++ eleaf (map_of ot s)"
        by auto
      moreover have "eleaf ((map_of d' ++ map_of tu') s) = eleaf ((map_of d ++ map_of tu) s) ++ eleaf (map_of ((k, v) # ot) s)" for s
        using rel [of s] otk Lazy by (cases "s = k") (simp_all add: eleaf_def entry_leaf_Lazy_eq)
      ultimately show ?thesis using Some Lazy set by auto
    qed
  qed
qed

lemma merge_all_strict:
  "strict_config c \<Longrightarrow> list_all strict_config cs \<Longrightarrow>
   \<exists>c'. merge_all c cs = Inr c' \<and> strict_config c' \<and> leaf_value c' = foldl (\<lambda>m x. m ++ leaf_value x) (leaf_value c) cs"
proof (induction cs arbitrary: c)
  case (Cons x cs)
  from merge_strict(1) [of c x] Cons.prems obtain c1 where "config_merge c x = Inr c1"
    "strict_config c1" "leaf_value c1 = leaf_value c ++ leaf_value x" by auto
  with Cons.IH [of c1] Cons.prems show ?case by auto
qed simp

lemma leaf_value_empty_fun: "leaf_value (Config []) = Map.empty"
  by (rule ext) simp

lemma load_config_files_strict:
  assumes "list_all (\<lambda>s. case load_config s of Inl _ \<Rightarrow> True | Inr c \<Rightarrow> strict_config c) ss"
  shows "\<exists>cs. load_config_files False ss = Inr cs \<and> list_all strict_config cs \<and>
           foldl (\<lambda>m x. m ++ leaf_value x) m0 cs = m0 ++ file_leaves ss"
  using assms
proof (induction ss arbitrary: m0)
  case (Cons s ss)
  show ?case
  proof (cases "load_config s")
    case (Inl e)
    with Cons show ?thesis by simp
  next
    case (Inr c)
    from Cons.prems Inr have sc: "strict_config c" by simp
    show ?thesis
    proof (cases "c = Config []")
      case True
      with Cons Inr show ?thesis by (simp add: leaf_value_empty_fun)
    next
      case False
      from Cons.IH [of "m0 ++ leaf_value c"] Cons.prems obtain cs where
        "load_config_files False ss = Inr cs" "list_all strict_config cs"
        "foldl (\<lambda>m x. m ++ leaf_value x) (m0 ++ leaf_value c) cs = m0 ++ leaf_value c ++ file_leaves ss"
        by auto
      with Inr False sc show ?thesis by (auto simp: map_add_assoc)
    qed
  qed
qed simp

lemma load_config_file_leaves:
  assumes "strict_config app" and "strict_config cli"
    and "list_all (\<lambda>s. case load_config s of Inl _ \<Rightarrow> True | Inr c \<Rightarrow> strict_config c) scripts"
  shows "\<exists>c'. load_config_file False scripts cli app = Inr c' \<and> strict_config c' \<and>
           leaf_value c' = leaf_value app ++ file_leaves scripts ++ leaf_value cli"
proof -
  from load_config_files_strict [OF assms(3), of Map.empty] obtain cs where
    files: "load_config_files False scripts = Inr cs" and scs: "list_all strict_config cs"
    and fl: "foldl (\<lambda>m x. m ++ leaf_value x) Map.empty cs = file_leaves scripts" by auto
  from merge_all_strict [OF _ scs, of "Config []"] fl obtain new where
    m1: "merge_all (Config []) cs = Inr new" and sn: "strict_config new" and ln: "leaf_value new = file_leaves scripts"
    by (auto simp: leaf_value_empty_fun)
  from merge_strict(1) [OF sn assms(2)] obtain new' where m2: "config_merge new cli = Inr new'"
    and sn': "strict_config new'" and ln': "leaf_value new' = leaf_value new ++ leaf_value cli" by blast
  from merge_strict(1) [OF assms(1) sn'] obtain c' where m3: "config_merge app new' = Inr c'"
    and "strict_config c'" and "leaf_value c' = leaf_value app ++ leaf_value new'" by blast
  with files m1 m2 ln ln' show ?thesis by (auto simp: load_config_file_def map_add_assoc)
qed

lemma file_leaves_append: "file_leaves (xs @ ys) = file_leaves xs ++ file_leaves ys"
  by (induction xs) (simp_all add: map_add_assoc)

lemma load_config_files_skip:
  "load_config s = Inl e \<Longrightarrow> load_config_files False (pre @ s # post) = load_config_files False (pre @ post)"
  by (induction pre) (auto split: sum.split)

text \<open>
  A config file that raises contributes nothing when \<open>raise_config_file_errors\<close>
  is off: loading is as if the file were absent. When it is on, the first file
  that raises aborts loading with its exception.
\<close>

lemma load_config_file_skips_failing:
  assumes "load_config s = Inl e"
  shows "load_config_file False (pre @ s # post) cli app = load_config_file False (pre @ post) cli app"
  using load_config_files_skip [OF assms] by (simp add: load_config_file_def)

lemma load_config_files_raise:
  "load_config s = Inl e \<Longrightarrow> list_all (\<lambda>s'. \<exists>c. load_config s' = Inr c) pre \<Longrightarrow>
   load_config_files True (pre @ s # post) = Inl e"
  by (induction pre) (auto split: sum.split)

lemma load_config_file_raises:
  assumes "load_config s = Inl e" and "list_all (\<lambda>s'. \<exists>c. load_config s' = Inr c) pre"
  shows "load_config_file True (pre @ s # post) cli app = Inl e"
  using load_config_files_raise [OF assms] by (simp add: load_config_file_def)

lemma size_sub_less: "(k, Sub c) \<in> set d \<Longrightarrow> size c < size (Config d)"
proof -
  assume "(k, Sub c) \<in> set d"
  then have "size_prod (\<lambda>_. 0) size (k, Sub c) \<le> size_list (size_prod (\<lambda>_. 0) size) d"
    by (rule size_list_estimation') simp
  then show ?thesis by simp
qed

lemma strict_wf: "strict_config c \<Longrightarrow> wf_config c"
proof (induction c rule: measure_induct_rule [of size])
  case (less c)
  obtain d where c: "c = Config d" by (cases c)
  have "wf_item p" if p: "p \<in> set d" for p
  proof -
    obtain k e where ke: "p = (k, e)" by (cases p)
    with p less.prems c have st: "strict_item (k, e)" by (simp add: strict_items_iff)
    show ?thesis
    proof (cases e)
      case (Sub c')
      with p ke have "(k, Sub c') \<in> set d" by simp
      then have "size c' < size c" using c size_sub_less [of k c' d] by simp
      with less.IH st Sub ke show ?thesis by simp
    qed (use st ke in simp_all)
  qed
  with less.prems c show ?case by (simp add: wf_items_iff)
qed

lemma strict_leaf_sections:
  "strict_config c \<Longrightarrow> leaf_value c q = Some v \<Longrightarrow> \<forall>x\<in>set (butlast q). is_section_key x"
proof (induction c q rule: leaf_value.induct)
  case (3 d s s' r)
  then obtain c where "map_of d s = Some (Sub c)" and "leaf_value c (s' # r) = Some v"
    by (auto split: option.splits entry.splits)
  moreover from this(1) "3.prems"(1) have "is_section_key s" and "strict_config c"
    using strict_found by fastforce+
  ultimately show ?case using "3.IH" by auto
qed auto

lemma strict_no_leaf_below:
  assumes "strict_config c" and "strict_prefix p q" and "p \<noteq> []" and "\<not> is_section_key (last p)"
  shows "leaf_value c q = None"
proof (rule ccontr)
  assume "leaf_value c q \<noteq> None"
  then obtain v where "leaf_value c q = Some v" by blast
  from strict_leaf_sections [OF assms(1) this] have secs: "\<forall>x\<in>set (butlast q). is_section_key x" .
  from assms(2) obtain r where q: "q = p @ r" and "r \<noteq> []" by (auto simp: strict_prefix_def prefix_def)
  then have "last p \<in> set (butlast q)" using assms(3) by (simp add: butlast_append)
  with secs assms(4) show False by blast
qed

lemma jupyter_lab_config_effect_upd:
  assumes "strict_config c"
  shows "fold stmt_effect jupyter_lab_config_stmts (leaf_value c) =
           (leaf_value c)([''ServerApp'', ''ip''] \<mapsto> PyStr ''0.0.0.0'', [''ServerApp'', ''port''] \<mapsto> PyInt 8888,
              [''ServerApp'', ''open_browser''] \<mapsto> PyBool False,
              [''FileContentsManager'', ''delete_to_trash''] \<mapsto> PyBool False)"
proof
  fix q
  have below: "leaf_value c q = None" if "strict_prefix p q"
    and "p \<in> {[''ServerApp'', ''ip''], [''ServerApp'', ''port''], [''ServerApp'', ''open_browser''],
               [''FileContentsManager'', ''delete_to_trash'']}" for p
    using strict_no_leaf_below [OF assms that(1)] that(2) by (auto simp: py_str)
  show "fold stmt_effect jupyter_lab_config_stmts (leaf_value c) q = ((leaf_value c)([''ServerApp'', ''ip''] \<mapsto> PyStr ''0.0.0.0'', [''ServerApp'', ''port''] \<mapsto> PyInt 8888,
              [''ServerApp'', ''open_browser''] \<mapsto> PyBool False,
              [''FileContentsManager'', ''delete_to_trash''] \<mapsto> PyBool False)) q"
    unfolding jupyter_lab_config_effect set_leaf_def using below by auto
qed

lemma merge_loop_fresh:
  "distinct (map fst ot) \<Longrightarrow> fst ` set tu \<inter> fst ` set ot = {} \<Longrightarrow> merge_loop [] ot tu = Inr ([], tu @ ot)"
proof (induction ot arbitrary: tu)
  case (Cons p ot)
  obtain k v where p: "p = (k, v)" by (cases p)
  with Cons.prems have "k \<notin> set (map fst tu)" by auto
  then have "AList.update k v tu = tu @ [(k, v)]" by (rule update_key_absent)
  moreover have "fst ` set (tu @ [(k, v)]) \<inter> fst ` set ot = {}" using Cons.prems p by auto
  ultimately show ?case using Cons.IH [of "tu @ [(k, v)]"] Cons.prems p by simp
qed simp

lemma dict_update_fresh: "distinct (map fst (d @ kvs)) \<Longrightarrow> dict_update d kvs = d @ kvs"
proof (induction kvs arbitrary: d)
  case (Cons p kvs)
  obtain k v where p: "p = (k, v)" by (cases p)
  with Cons.prems have "k \<notin> set (map fst d)" by auto
  then have "AList.update k v d = d @ [(k, v)]" by (rule update_key_absent)
  with Cons.IH [of "d @ [(k, v)]"] Cons.prems p show ?case by simp
qed simp

lemma jupyter_lab_config_loaded_strict:
  "load_config jupyter_lab_config = Inr
     (Config [(''ServerApp'', Sub (Config [(''ip'', Val (PyStr ''0.0.0.0'')), (''port'', Val (PyInt 8888)),
                                         (''open_browser'', Val (PyBool False))])),
              (''FileContentsManager'', Sub (Config [(''delete_to_trash'', Val (PyBool False))]))]) \<and>
   strict_config
     (Config [(''ServerApp'', Sub (Config [(''ip'', Val (PyStr ''0.0.0.0'')), (''port'', Val (PyInt 8888)),
                                         (''open_browser'', Val (PyBool False))])),
              (''FileContentsManager'', Sub (Config [(''delete_to_trash'', Val (PyBool False))]))])"
  by (simp add: load_config_def jupyter_lab_config_def file_eval)

lemma jupyter_lab_config_loaded_leaves:
  "\<exists>f. load_config jupyter_lab_config = Inr f \<and> strict_config f \<and>
       leaf_value f = Map.empty([''ServerApp'', ''ip''] \<mapsto> PyStr ''0.0.0.0'', [''ServerApp'', ''port''] \<mapsto> PyInt 8888,
              [''ServerApp'', ''open_browser''] \<mapsto> PyBool False,
              [''FileContentsManager'', ''delete_to_trash''] \<mapsto> PyBool False)"
proof -
  from jupyter_lab_config_loaded_strict obtain f where lf: "load_config jupyter_lab_config = Inr f"
    and sf: "strict_config f" by blast
  have wf0: "wf_config (Config [])" by simp
  have "exec_stmts (Config []) jupyter_lab_config_stmts = Inr f"
    using lf by (simp add: load_config_def jupyter_lab_config_def)
  from exec_stmts_leaf [OF wf0 jupyter_lab_config_stmts_ok this] jupyter_lab_config_effect_upd [of "Config []"]
  have leaf_f: "leaf_value f = Map.empty([''ServerApp'', ''ip''] \<mapsto> PyStr ''0.0.0.0'', [''ServerApp'', ''port''] \<mapsto> PyInt 8888,
              [''ServerApp'', ''open_browser''] \<mapsto> PyBool False,
              [''FileContentsManager'', ''delete_to_trash''] \<mapsto> PyBool False)"
    by (simp add: leaf_value_empty_fun)
  with lf sf show ?thesis by blast
qed

text \<open>
  Merging into a fresh \<open>Config\<close> copies the other config, and merging an
  empty config changes nothing.
\<close>

lemma config_merge_identity:
  assumes "wf_config c"
  shows "config_merge (Config []) c = Inr c \<and> config_merge c (Config []) = Inr c"
proof (cases c)
  case (Config d)
  with assms have "distinct (map fst d)" by simp
  then have "merge_loop [] d [] = Inr ([], d)" and "dict_update [] d = d"
    using merge_loop_fresh [of d "[]"] dict_update_fresh [of "[]" d] by simp_all
  with Config show ?thesis by simp
qed

text \<open>
  An empty \<open>LazyConfigValue\<close> merged over a present key leaves the config as
  it is (\<open>merge_into\<close> returns the old value, which \<open>__setitem__\<close> stores back
  in place), also one level down in a section.
\<close>

lemma config_merge_lazy_found:
  assumes "wf_config (Config d)" and "map_of d k = Some e"
  shows "config_merge (Config d) (Config [(k, Lazy)]) = Inr (Config d)"
proof -
  from wf_item_found [OF assms] have "\<not> (is_section_key k \<and> \<not> is_config_instance e)"
    by (cases e) auto
  with assms(2) show ?thesis by (simp add: update_found)
qed

lemma config_merge_lazy_section:
  assumes "wf_config (Config d)" and "map_of d s = Some (Sub (Config d1))" and "map_of d1 k = Some e"
  shows "config_merge (Config d) (Config [(s, Sub (Config [(k, Lazy)]))]) = Inr (Config d)"
proof -
  from wf_item_found [OF assms(1,2)] have "wf_config (Config d1)" by simp
  from config_merge_lazy_found [OF this assms(3)] assms(2) show ?thesis by (simp add: update_found)
qed

text \<open>
  C16: traitlets runs \<open>jupyter_lab_config.py\<close> on a fresh Config and merges the
  result over the configs loaded before; the properties C1 to C7 run the file on
  the accumulated Config instead. On strict configs the two give the same options.
\<close>

theorem traitlets_loading_agrees:
  assumes "strict_config c0"
  shows "\<exists>f c1 c2. load_config jupyter_lab_config = Inr f \<and> config_merge c0 f = Inr c1 \<and>
           jupyter_lab_config c0 = Inr c2 \<and> leaf_value c1 = leaf_value c2"
proof -
  from jupyter_lab_config_loaded_leaves obtain f where lf: "load_config jupyter_lab_config = Inr f"
    and sf: "strict_config f"
    and leaf_f: "leaf_value f = Map.empty([''ServerApp'', ''ip''] \<mapsto> PyStr ''0.0.0.0'', [''ServerApp'', ''port''] \<mapsto> PyInt 8888,
              [''ServerApp'', ''open_browser''] \<mapsto> PyBool False,
              [''FileContentsManager'', ''delete_to_trash''] \<mapsto> PyBool False)" by blast
  from merge_strict(1) [OF assms sf] obtain c1 where m: "config_merge c0 f = Inr c1"
    and l1: "leaf_value c1 = leaf_value c0 ++ leaf_value f" by blast
  have wf: "wf_config c0" by (rule strict_wf [OF assms])
  obtain c2 where run: "exec_stmts c0 jupyter_lab_config_stmts = Inr c2"
    using exec_stmts_Inr [OF wf jupyter_lab_config_stmts_ok] by blast
  from exec_stmts_leaf [OF wf jupyter_lab_config_stmts_ok run] jupyter_lab_config_effect_upd [OF assms]
  have "leaf_value c2 = leaf_value c1" using l1 leaf_f by simp
  with lf m run show ?thesis by (auto simp: jupyter_lab_config_def)
qed

subsection \<open>Witnesses\<close>

theorem traitlets_loading_agrees_witness:
  "strict_config (Config [(''ServerApp'', Sub (Config [(''port'', Val (PyInt 9999))]))]) \<and>
   (\<exists>f c1 c2. load_config jupyter_lab_config = Inr f \<and>
      config_merge (Config [(''ServerApp'', Sub (Config [(''port'', Val (PyInt 9999))]))]) f = Inr c1 \<and>
      jupyter_lab_config (Config [(''ServerApp'', Sub (Config [(''port'', Val (PyInt 9999))]))]) = Inr c2 \<and>
      leaf_value c1 = leaf_value c2)"
proof -
  have s: "strict_config (Config [(''ServerApp'', Sub (Config [(''port'', Val (PyInt 9999))]))])" by (simp add: py_str)
  show ?thesis using traitlets_loading_agrees [OF s] s by blast
qed

end
