(* ===== verification/Host.thy ===== *)
theory Host
  imports Settings ConfigMerge
begin

text \<open>
  The lifecycle of the external host that reads the config file, as the spec
  describes it (sections 3, 6 and 8): at its startup the host loads the
  configuration once, reads each option with its own default where the option
  is missing, binds its listener to the address and port, launches a browser only
  when \<open>open_browser\<close> holds, and then serves requests, among them file deletions
  through its file manager; the configuration is never read again. A failure to
  load the configuration or a port the host rejects stops it. The host is not
  code of this repository: the step relation \<open>host_step\<close> states the spec's
  contract, and its parameter is the result of the real loading sequence of
  \<open>ConfigMerge\<close>. The properties are invariants of the reachable states,
  the reaching of the serving state and the progress of the startup; that
  startup ends, whatever is loaded, is the well-foundedness of its steps
  (\<open>host_startup_wf\<close>), a property of the host rather than of the file.
\<close>

section \<open>The host's states and steps\<close>

datatype host_error = ConfigError pyerror | BadPort int

text \<open>
  \<open>Booting\<close>: the process has started, holding its file system. \<open>Loaded\<close>: the
  configuration is loaded. \<open>Configured\<close>: the options are read. \<open>Listening\<close>:
  the listener is bound to the endpoint. \<open>Serving\<close>: startup is complete; the flag
  records whether a browser was launched. \<open>Halted\<close>: startup failed.
\<close>

datatype host_state =
    Booting fs_state
  | Loaded config fs_state
  | Configured settings fs_state
  | Listening settings "string \<times> 16 word" fs_state
  | Serving settings "string \<times> 16 word" bool fs_state
  | Halted host_error

text \<open>
  One step of the host, for the result \<open>ld\<close> of loading the configuration and
  the host's defaults \<open>dflt\<close>. Every step but the last is a step of the startup
  sequence; in \<open>Serving\<close> a request deletes a file with the settings read at
  startup.
\<close>

inductive host_step :: "pyerror + config \<Rightarrow> settings \<Rightarrow> host_state \<Rightarrow> host_state \<Rightarrow> bool"
  for ld :: "pyerror + config" and dflt :: settings where
  load: "ld = Inr c \<Longrightarrow> host_step ld dflt (Booting fs) (Loaded c fs)"
| load_error: "ld = Inl e \<Longrightarrow> host_step ld dflt (Booting fs) (Halted (ConfigError e))"
| read: "host_step ld dflt (Loaded c fs) (Configured (effective_settings dflt c) fs)"
| bind: "bind_endpoint s = Some ep \<Longrightarrow> host_step ld dflt (Configured s fs) (Listening s ep fs)"
| bind_error: "bind_endpoint s = None \<Longrightarrow> host_step ld dflt (Configured s fs) (Halted (BadPort (port s)))"
| start: "host_step ld dflt (Listening s ep fs) (Serving s ep (open_browser s) fs)"
| delete: "delete_file s p fs = Inr fs' \<Longrightarrow> host_step ld dflt (Serving s ep b fs) (Serving s ep b fs')"

inductive_cases host_step_HaltedE: "host_step ld dflt (Halted e) t"

fun is_serving :: "host_state \<Rightarrow> bool" where
  "is_serving (Serving _ _ _ _) = True"
| "is_serving _ = False"

text \<open>The file system a state holds.\<close>

fun host_fs :: "host_state \<Rightarrow> fs_state option" where
  "host_fs (Booting fs) = Some fs"
| "host_fs (Loaded _ fs) = Some fs"
| "host_fs (Configured _ fs) = Some fs"
| "host_fs (Listening _ _ fs) = Some fs"
| "host_fs (Serving _ _ _ fs) = Some fs"
| "host_fs (Halted _) = None"

text \<open>The number of startup steps still to go.\<close>

fun startup_rank :: "host_state \<Rightarrow> nat" where
  "startup_rank (Booting _) = 4"
| "startup_rank (Loaded _ _) = 3"
| "startup_rank (Configured _ _) = 2"
| "startup_rank (Listening _ _ _) = 1"
| "startup_rank (Serving _ _ _ _) = 0"
| "startup_rank (Halted _) = 0"

text \<open>
  What the file promises in each state: the options read are the spec's
  settings, the endpoint is \<open>0.0.0.0:8888\<close>, no browser was launched, and
  startup does not fail.
\<close>

fun file_host_inv :: "host_state \<Rightarrow> bool" where
  "file_host_inv (Booting _) = True"
| "file_host_inv (Loaded c _) = (settings_of c = Some spec_settings)"
| "file_host_inv (Configured s _) = (s = spec_settings)"
| "file_host_inv (Listening s ep _) = (s = spec_settings \<and> ep = (''0.0.0.0'', 8888))"
| "file_host_inv (Serving s ep b _) = (s = spec_settings \<and> ep = (''0.0.0.0'', 8888) \<and> \<not> b)"
| "file_host_inv (Halted _) = False"

text \<open>
  The configuration the host loads when this file is the last config file, after
  \<open>scripts\<close>, with the command-line config \<open>cli\<close> and the application's config
  \<open>app\<close>, and the conditions under which its options reach the host unchanged.
\<close>

abbreviation file_load :: "(config \<Rightarrow> pyerror + config) list \<Rightarrow> config \<Rightarrow> config \<Rightarrow> pyerror + config" where
  "file_load scripts cli app \<equiv> load_config_file False (scripts @ [jupyter_lab_config]) cli app"

abbreviation loads_file_last :: "(config \<Rightarrow> pyerror + config) list \<Rightarrow> config \<Rightarrow> config \<Rightarrow> bool" where
  "loads_file_last scripts cli app \<equiv>
     strict_config app \<and> strict_config cli \<and>
     list_all (\<lambda>s. case load_config s of Inl _ \<Rightarrow> True | Inr c \<Rightarrow> strict_config c) scripts \<and>
     list_all (\<lambda>p. leaf_value cli p = None) spec_key_paths"

section \<open>Lemmas\<close>

text \<open>
  The file loaded last gives the spec's settings record: the file's config is
  strict, and with the command line not setting its options, the file's values
  are the ones the loaded config holds.
\<close>

lemma file_scripts_strict:
  "list_all (\<lambda>s. case load_config s of Inl _ \<Rightarrow> True | Inr c \<Rightarrow> strict_config c) scripts \<Longrightarrow>
   list_all (\<lambda>s. case load_config s of Inl _ \<Rightarrow> True | Inr c \<Rightarrow> strict_config c) (scripts @ [jupyter_lab_config])"
  using jupyter_lab_config_loaded_strict by simp

lemma file_leaves_settings:
  assumes "leaf_value c' = leaf_value app ++ file_leaves (scripts @ [jupyter_lab_config]) ++ leaf_value cli"
    and "list_all (\<lambda>p. leaf_value cli p = None) spec_key_paths"
  shows "settings_of c' = Some spec_settings"
proof -
  from jupyter_lab_config_loaded_leaves obtain f where lf: "load_config jupyter_lab_config = Inr f"
    and leaf_f: "leaf_value f = Map.empty([''ServerApp'', ''ip''] \<mapsto> PyStr ''0.0.0.0'', [''ServerApp'', ''port''] \<mapsto> PyInt 8888,
              [''ServerApp'', ''open_browser''] \<mapsto> PyBool False,
              [''FileContentsManager'', ''delete_to_trash''] \<mapsto> PyBool False)" by blast
  have "leaf_value c' p = leaf_value f p" if "p \<in> set spec_key_paths" for p
    using that assms leaf_f lf
    by (auto simp: file_leaves_append map_add_def list_all_iff spec_key_paths_def split: option.split)
  then show ?thesis
    using leaf_f by (simp add: settings_of_def spec_key_paths_def spec_settings_def)
qed

lemma file_loading_settings:
  assumes "strict_config app" and "strict_config cli"
    and "list_all (\<lambda>s. case load_config s of Inl _ \<Rightarrow> True | Inr c \<Rightarrow> strict_config c) scripts"
    and "list_all (\<lambda>p. leaf_value cli p = None) spec_key_paths"
  shows "\<exists>c'. load_config_file False (scripts @ [jupyter_lab_config]) cli app = Inr c' \<and>
           settings_of c' = Some spec_settings"
  using load_config_file_leaves [OF assms(1,2) file_scripts_strict [OF assms(3)]] file_leaves_settings assms(4)
  by blast

lemma host_settings_loading:
  assumes "strict_config app" and "strict_config cli"
    and "list_all (\<lambda>s. case load_config s of Inl _ \<Rightarrow> True | Inr c \<Rightarrow> strict_config c) scripts"
    and "list_all (\<lambda>p. leaf_value cli p = None) spec_key_paths"
  shows "\<exists>c'. load_config_file False (scripts @ [jupyter_lab_config]) cli app = Inr c' \<and>
           effective_settings dflt c' = spec_settings"
  using file_loading_settings [OF assms] by (blast intro: effective_settings_of)

lemma spec_endpoint: "bind_endpoint spec_settings = Some (''0.0.0.0'', 8888)"
  by (simp add: bind_endpoint_def port_word_def spec_settings_def)

lemma spec_flags: "\<not> open_browser spec_settings" "\<not> delete_to_trash spec_settings"
  by (simp_all add: spec_settings_def)

text \<open>
  The invariant of the host started with a configuration that has the spec's
  settings, with the trash of its file system as it was at boot.
\<close>

lemma file_host_inv_reach:
  assumes "ld = Inr c" and "settings_of c = Some spec_settings"
    and "(host_step ld dflt)\<^sup>*\<^sup>* (Booting fs0) t"
  shows "file_host_inv t \<and> pred_option (\<lambda>fs. trash fs = trash fs0) (host_fs t)"
  using assms(3)
proof (induction rule: rtranclp_induct)
  case (step u v)
  from step.hyps(2) step.IH assms(1,2) show ?case
    by (cases rule: host_step.cases)
       (auto simp: effective_settings_of spec_endpoint spec_flags delete_file_def split: option.splits)
qed simp

text \<open>Startup steps lower the rank; serving steps stay in the serving phase.\<close>

lemma host_step_rank:
  "host_step ld dflt s t \<Longrightarrow> \<not> is_serving s \<Longrightarrow> startup_rank t < startup_rank s"
  by (induction rule: host_step.induct) simp_all

lemma host_step_serving:
  "host_step ld dflt s t \<Longrightarrow> is_serving s \<Longrightarrow> is_serving t"
  by (induction rule: host_step.induct) simp_all

text \<open>A failed startup is final.\<close>

lemma host_halted_final: "\<not> host_step ld dflt (Halted e) t"
  by (blast elim: host_step_HaltedE)

text \<open>Termination of the startup sequence: no infinite run stays outside \<open>Serving\<close>.\<close>

lemma host_startup_wf: "wf {(t, s). host_step ld dflt s t \<and> \<not> is_serving s}"
  by (rule wf_subset [OF wf_measure [of startup_rank]]) (auto dest: host_step_rank)

text \<open>The configuration this file gives when it is the only config file.\<close>

lemma file_load_alone:
  "file_load [] (Config []) (Config []) = Inr
     (Config [(''ServerApp'', Sub (Config [(''ip'', Val (PyStr ''0.0.0.0'')), (''port'', Val (PyInt 8888)),
                                         (''open_browser'', Val (PyBool False))])),
              (''FileContentsManager'', Sub (Config [(''delete_to_trash'', Val (PyBool False))]))])"
  by (simp add: load_config_file_def load_config_def jupyter_lab_config_def file_eval)

lemma loads_file_alone: "loads_file_last [] (Config []) (Config [])"
  by (simp add: spec_key_paths_def)

lemma file_load_alone_serving:
  "(host_step (file_load [] (Config []) (Config [])) dflt)\<^sup>*\<^sup>* (Booting fs)
     (Serving spec_settings (''0.0.0.0'', 8888) False fs)"
proof -
  let ?c = "Config [(''ServerApp'', Sub (Config [(''ip'', Val (PyStr ''0.0.0.0'')), (''port'', Val (PyInt 8888)),
                                         (''open_browser'', Val (PyBool False))])),
              (''FileContentsManager'', Sub (Config [(''delete_to_trash'', Val (PyBool False))]))]"
  let ?R = "host_step (file_load [] (Config []) (Config [])) dflt"
  have "settings_of ?c = Some spec_settings" by (simp add: settings_of_def spec_settings_def)
  then have eff: "effective_settings dflt ?c = spec_settings" by (rule effective_settings_of)
  have s1: "?R (Booting fs) (Loaded ?c fs)" by (rule host_step.load [OF file_load_alone])
  have s2: "?R (Loaded ?c fs) (Configured spec_settings fs)"
    using host_step.read [of _ dflt ?c fs] eff by simp
  have s3: "?R (Configured spec_settings fs) (Listening spec_settings (''0.0.0.0'', 8888) fs)"
    by (rule host_step.bind [OF spec_endpoint])
  have s4: "?R (Listening spec_settings (''0.0.0.0'', 8888) fs) (Serving spec_settings (''0.0.0.0'', 8888) False fs)"
    using host_step.start [of _ dflt spec_settings] spec_flags by simp
  from s4 have "?R\<^sup>*\<^sup>* (Listening spec_settings (''0.0.0.0'', 8888) fs) (Serving spec_settings (''0.0.0.0'', 8888) False fs)"
    by (rule r_into_rtranclp)
  with s3 have "?R\<^sup>*\<^sup>* (Configured spec_settings fs) (Serving spec_settings (''0.0.0.0'', 8888) False fs)"
    by (rule converse_rtranclp_into_rtranclp)
  with s2 have "?R\<^sup>*\<^sup>* (Loaded ?c fs) (Serving spec_settings (''0.0.0.0'', 8888) False fs)"
    by (rule converse_rtranclp_into_rtranclp)
  with s1 show ?thesis by (rule converse_rtranclp_into_rtranclp)
qed

section \<open>Properties of the host started with this file\<close>

text \<open>
  C21: invariant of every reachable state of a host that loads this file last
  (after any config files with strict configs, over a strict application config,
  with a command line that does not set the file's options): the options read are
  the spec's settings, the listener is bound to \<open>0.0.0.0:8888\<close>, no browser is
  ever launched, and startup never fails.
\<close>

theorem host_file_invariant:
  assumes "loads_file_last scripts cli app"
    and "(host_step (file_load scripts cli app) dflt)\<^sup>*\<^sup>* (Booting fs0) t"
  shows "file_host_inv t"
proof -
  from assms(1) obtain c where ld: "file_load scripts cli app = Inr c"
    and lc: "leaf_value c = leaf_value app ++ file_leaves (scripts @ [jupyter_lab_config]) ++ leaf_value cli"
    using load_config_file_leaves file_scripts_strict by blast
  from assms(1) lc have "settings_of c = Some spec_settings" by (simp add: file_leaves_settings)
  from file_host_inv_reach [OF ld this assms(2)] show ?thesis by blast
qed

text \<open>
  C22: liveness of startup: the host that loads this file last serves on
  \<open>0.0.0.0:8888\<close> without a browser after exactly four steps (load, read, bind,
  start), with the settings record of the spec, whatever its defaults.
\<close>

theorem host_serves_after_startup:
  assumes "loads_file_last scripts cli app"
  shows "(host_step (file_load scripts cli app) dflt ^^ 4) (Booting fs)
           (Serving spec_settings (''0.0.0.0'', 8888) False fs)"
proof -
  from assms obtain c where ld: "file_load scripts cli app = Inr c" and sc: "settings_of c = Some spec_settings"
    using file_loading_settings by blast
  let ?R = "host_step (file_load scripts cli app) dflt"
  have "?R (Listening spec_settings (''0.0.0.0'', 8888) fs) (Serving spec_settings (''0.0.0.0'', 8888) False fs)"
    using host_step.start [of _ dflt spec_settings] spec_flags by simp
  moreover have "?R (Configured spec_settings fs) (Listening spec_settings (''0.0.0.0'', 8888) fs)"
    by (rule host_step.bind [OF spec_endpoint])
  moreover have "?R (Loaded c fs) (Configured spec_settings fs)"
    using host_step.read [of _ dflt c fs] effective_settings_of [OF sc] by simp
  moreover have "?R (Booting fs) (Loaded c fs)" by (rule host_step.load [OF ld])
  ultimately show ?thesis
    by (simp add: numeral_eq_Suc relpowp_Suc_I2 del: relpowp.simps)
qed

text \<open>
  C23: progress: a reachable state of the host that loads this file last is
  serving or can take a step; startup never gets stuck.
\<close>

theorem host_startup_progress:
  assumes "loads_file_last scripts cli app"
    and "(host_step (file_load scripts cli app) dflt)\<^sup>*\<^sup>* (Booting fs0) t"
  shows "is_serving t \<or> (\<exists>u. host_step (file_load scripts cli app) dflt t u)"
proof -
  from assms(1) obtain c where ld: "file_load scripts cli app = Inr c" and sc: "settings_of c = Some spec_settings"
    using file_loading_settings by blast
  from file_host_inv_reach [OF ld sc assms(2)] have inv: "file_host_inv t" by blast
  show ?thesis
  proof (cases t)
    case (Booting fs)
    with host_step.load [OF ld] show ?thesis by blast
  next
    case (Loaded c' fs)
    with host_step.read show ?thesis by blast
  next
    case (Configured s fs)
    with inv host_step.bind [OF spec_endpoint] show ?thesis by auto
  next
    case (Listening s ep fs)
    with host_step.start show ?thesis by blast
  qed (use inv in simp_all)
qed

text \<open>
  C24: the host that loads this file last never moves a file to the trash: in
  every reachable state the trash is the one it booted with, whatever files are
  deleted.
\<close>

theorem host_never_trashes:
  assumes "loads_file_last scripts cli app"
    and "(host_step (file_load scripts cli app) dflt)\<^sup>*\<^sup>* (Booting fs0) t" and "host_fs t = Some fs"
  shows "trash fs = trash fs0"
proof -
  from assms(1) obtain c where "file_load scripts cli app = Inr c" and "settings_of c = Some spec_settings"
    using file_loading_settings by blast
  from file_host_inv_reach [OF this assms(2)] assms(3) show ?thesis by simp
qed

subsection \<open>Witnesses\<close>

theorem host_file_invariant_witness:
  "loads_file_last [] (Config []) (Config []) \<and>
   (host_step (file_load [] (Config []) (Config [])) spec_settings)\<^sup>*\<^sup>*
     (Booting \<lparr>files = [''a.ipynb'' \<mapsto> ''{}''], trash = Map.empty\<rparr>)
     (Serving spec_settings (''0.0.0.0'', 8888) False \<lparr>files = [''a.ipynb'' \<mapsto> ''{}''], trash = Map.empty\<rparr>) \<and>
   file_host_inv (Serving spec_settings (''0.0.0.0'', 8888) False \<lparr>files = [''a.ipynb'' \<mapsto> ''{}''], trash = Map.empty\<rparr>)"
  using host_file_invariant [OF loads_file_alone file_load_alone_serving] loads_file_alone file_load_alone_serving
  by blast

theorem host_serves_after_startup_witness:
  "loads_file_last [] (Config []) (Config []) \<and>
   (host_step (file_load [] (Config []) (Config [])) spec_settings ^^ 4)
     (Booting \<lparr>files = Map.empty, trash = Map.empty\<rparr>)
     (Serving spec_settings (''0.0.0.0'', 8888) False \<lparr>files = Map.empty, trash = Map.empty\<rparr>)"
  using host_serves_after_startup [OF loads_file_alone] loads_file_alone by blast

theorem host_startup_progress_witness:
  "loads_file_last [] (Config []) (Config []) \<and>
   (host_step (file_load [] (Config []) (Config [])) spec_settings)\<^sup>*\<^sup>*
     (Booting \<lparr>files = [''a.ipynb'' \<mapsto> ''{}''], trash = Map.empty\<rparr>)
     (Serving spec_settings (''0.0.0.0'', 8888) False \<lparr>files = [''a.ipynb'' \<mapsto> ''{}''], trash = Map.empty\<rparr>) \<and>
   (is_serving (Serving spec_settings (''0.0.0.0'', 8888) False \<lparr>files = [''a.ipynb'' \<mapsto> ''{}''], trash = Map.empty\<rparr>) \<or>
    (\<exists>u. host_step (file_load [] (Config []) (Config [])) spec_settings
           (Serving spec_settings (''0.0.0.0'', 8888) False \<lparr>files = [''a.ipynb'' \<mapsto> ''{}''], trash = Map.empty\<rparr>) u))"
  using host_startup_progress [OF loads_file_alone file_load_alone_serving] loads_file_alone file_load_alone_serving
  by blast

theorem host_never_trashes_witness:
  "loads_file_last [] (Config []) (Config []) \<and>
   (host_step (file_load [] (Config []) (Config [])) spec_settings)\<^sup>*\<^sup>*
     (Booting \<lparr>files = [''a.ipynb'' \<mapsto> ''{}''], trash = Map.empty\<rparr>)
     (Serving spec_settings (''0.0.0.0'', 8888) False \<lparr>files = Map.empty, trash = Map.empty\<rparr>) \<and>
   host_fs (Serving spec_settings (''0.0.0.0'', 8888) False \<lparr>files = Map.empty, trash = Map.empty\<rparr>)
     = Some \<lparr>files = Map.empty, trash = Map.empty\<rparr> \<and>
   trash \<lparr>files = Map.empty, trash = Map.empty\<rparr> = trash \<lparr>files = [''a.ipynb'' \<mapsto> ''{}''], trash = Map.empty\<rparr>"
proof -
  have del: "host_step (file_load [] (Config []) (Config [])) spec_settings
     (Serving spec_settings (''0.0.0.0'', 8888) False \<lparr>files = [''a.ipynb'' \<mapsto> ''{}''], trash = Map.empty\<rparr>)
     (Serving spec_settings (''0.0.0.0'', 8888) False \<lparr>files = Map.empty, trash = Map.empty\<rparr>)"
    by (rule host_step.delete [of _ "''a.ipynb''"])
       (simp add: delete_file_def spec_flags fun_upd_idem_iff)
  have reach: "(host_step (file_load [] (Config []) (Config [])) spec_settings)\<^sup>*\<^sup>*
     (Booting \<lparr>files = [''a.ipynb'' \<mapsto> ''{}''], trash = Map.empty\<rparr>)
     (Serving spec_settings (''0.0.0.0'', 8888) False \<lparr>files = Map.empty, trash = Map.empty\<rparr>)"
    using file_load_alone_serving del by (rule rtranclp.rtrancl_into_rtrancl)
  have fs: "host_fs (Serving spec_settings (''0.0.0.0'', 8888) False \<lparr>files = Map.empty, trash = Map.empty\<rparr>)
     = Some \<lparr>files = Map.empty, trash = Map.empty\<rparr>" by simp
  show ?thesis using host_never_trashes [OF loads_file_alone reach fs] loads_file_alone reach fs by blast
qed

end
