(* ===== verification/ConfigHeap.thy ===== *)
theory ConfigHeap
  imports ConfigScript
begin

text \<open>
  Reference semantics of the configuration file. In CPython, \<open>c\<close> and every
  section are objects on the heap: \<open>c.ServerApp.ip = "0.0.0.0"\<close> loads the
  attribute \<open>ServerApp\<close> of \<open>c\<close> (\<open>Config.__getattr__\<close>, which may create and
  store the section object) and then stores \<open>ip\<close> into that object
  (\<open>Config.__setattr__\<close>). Nothing is written back into \<open>c\<close>. The value model
  of \<open>ConfigAssign\<close> instead rebuilds the section and writes it back. This
  theory models the object graph, runs the file on it, reads the graph back as
  a value (\<open>reify\<close>), and proves that on heaps where every section object has a
  single parent the two semantics compute the same config and raise the same
  errors.
\<close>

section \<open>The object graph\<close>

type_synonym ref = nat

text \<open>
  A value stored in a \<open>Config\<close>: a reference to another \<open>Config\<close> object, a
  literal, or a \<open>LazyConfigValue\<close> (whose own contents are not modelled).
\<close>

datatype hval = HRef ref | HVal pyval | HLazy

text \<open>
  The heap maps the address of each live \<open>Config\<close> object to its items;
  \<open>next_ref\<close> is the next free address.
\<close>

record heap =
  objs :: "ref \<rightharpoonup> hval pydict"
  next_ref :: ref

text \<open>\<open>dict.__setitem__(obj, k, v)\<close> on the object at address \<open>r\<close>.\<close>

definition h_put :: "heap \<Rightarrow> ref \<Rightarrow> key \<Rightarrow> hval \<Rightarrow> heap" where
  "h_put h r k v = (case objs h r of None \<Rightarrow> h | Some d \<Rightarrow> h\<lparr>objs := (objs h)(r \<mapsto> AList.update k v d)\<rparr>)"

text \<open>\<open>Config()\<close>: a new empty object at the next free address.\<close>

definition h_alloc :: "heap \<Rightarrow> ref \<times> heap" where
  "h_alloc h = (next_ref h, h\<lparr>objs := (objs h)(next_ref h \<mapsto> []), next_ref := Suc (next_ref h)\<rparr>)"

section \<open>The Config methods on objects\<close>

text \<open>
  \<open>Config.__getattr__\<close> with \<open>__getitem__\<close> inlined, on the object at \<open>r\<close>:
  a missing section key allocates a new \<open>Config\<close> and stores a reference to it
  in \<open>r\<close>, a missing key not starting with \<open>_\<close> stores a \<open>LazyConfigValue\<close>.
  A dangling address (which CPython never produces) is an \<open>AttributeError\<close>.
\<close>

definition h_getattr :: "heap \<Rightarrow> ref \<Rightarrow> key \<Rightarrow> pyerror + (hval \<times> heap)" where
  "h_getattr h r k =
     (if is_dunder k then Inl (AttributeError k)
      else case objs h r of
        None \<Rightarrow> Inl (AttributeError k)
      | Some d \<Rightarrow>
          (case map_of d k of
             Some v \<Rightarrow> Inr (v, h)
           | None \<Rightarrow>
               if is_section_key k then (let (r', h1) = h_alloc h in Inr (HRef r', h_put h1 r k (HRef r')))
               else if \<not> starts_underscore k then Inr (HLazy, h_put h r k HLazy)
               else Inl (AttributeError k)))"

text \<open>
  \<open>Config.__setattr__\<close> with \<open>__setitem__\<close> inlined: a dunder name becomes an
  instance attribute (the items are unchanged), a section key takes only a
  reference to a \<open>Config\<close>.
\<close>

definition h_setattr :: "heap \<Rightarrow> ref \<Rightarrow> key \<Rightarrow> hval \<Rightarrow> pyerror + heap" where
  "h_setattr h r k v =
     (if is_dunder k then Inr h
      else if is_section_key k \<and> \<not> (case v of HRef _ \<Rightarrow> True | _ \<Rightarrow> False) then Inl (ValueError k)
      else Inr (h_put h r k v))"

section \<open>Running the file on the heap\<close>

text \<open>
  \<open>c.S1.\<dots>.Sn.k = v\<close> as CPython evaluates it: load \<open>S1\<close>, \<open>\<dots>\<close>, \<open>Sn\<close>
  one after the other, then store \<open>k\<close> into the last object loaded. A literal
  has no attribute to load or store (\<open>AttributeError\<close>); storing into a
  \<open>LazyConfigValue\<close> sets an attribute of that object and leaves the config
  as it is.
\<close>

fun h_assign_path :: "heap \<Rightarrow> ref \<Rightarrow> attr_path \<Rightarrow> key \<Rightarrow> hval \<Rightarrow> pyerror + heap" where
  "h_assign_path h r [] k v = h_setattr h r k v"
| "h_assign_path h r (s # ss) k v =
     (case h_getattr h r s of
        Inl e \<Rightarrow> Inl e
      | Inr (HRef r', h1) \<Rightarrow> h_assign_path h1 r' ss k v
      | Inr (HVal _, _) \<Rightarrow> Inl (AttributeError (hd (ss @ [k])))
      | Inr (HLazy, h1) \<Rightarrow> (if ss = [] then Inr h1 else Inl (AttributeError (hd ss))))"

fun h_exec_stmt :: "heap \<Rightarrow> ref \<Rightarrow> stmt \<Rightarrow> pyerror + heap" where
  "h_exec_stmt h r (Assign p k v) = h_assign_path h r p k (HVal v)"

fun h_exec_stmts :: "heap \<Rightarrow> ref \<Rightarrow> stmt list \<Rightarrow> pyerror + heap" where
  "h_exec_stmts h r [] = Inr h"
| "h_exec_stmts h r (st # sts) = (case h_exec_stmt h r st of Inl e \<Rightarrow> Inl e | Inr h' \<Rightarrow> h_exec_stmts h' r sts)"

text \<open>The module body with \<open>c = get_config()\<close> the object at address \<open>r\<close>.\<close>

definition h_jupyter_lab_config :: "heap \<Rightarrow> ref \<Rightarrow> pyerror + heap" where
  "h_jupyter_lab_config h r = h_exec_stmts h r jupyter_lab_config_stmts"

section \<open>Reading the heap back as a value\<close>

text \<open>
  The config the object at \<open>r\<close> stands for. A reference is followed only to a
  younger object (\<open>r < r'\<close>) below the allocation bound, which makes the
  read-back terminate on every heap; on the heaps of \<open>heap_inv\<close> every
  reference satisfies the guard.
\<close>

function reify :: "heap \<Rightarrow> ref \<Rightarrow> config" where
  "reify h r =
     (case objs h r of
        None \<Rightarrow> Config []
      | Some d \<Rightarrow> Config (map (\<lambda>(k, v). (k, case v of
            HRef r' \<Rightarrow> if r < r' \<and> r' < next_ref h then Sub (reify h r') else Lazy
          | HVal x \<Rightarrow> Val x
          | HLazy \<Rightarrow> Lazy)) d))"
  by pat_completeness auto
termination
  by (relation "measure (\<lambda>(h, r). next_ref h - r)") auto

definition hentry :: "heap \<Rightarrow> ref \<Rightarrow> hval \<Rightarrow> entry" where
  "hentry h r v = (case v of
            HRef r' \<Rightarrow> if r < r' \<and> r' < next_ref h then Sub (reify h r') else Lazy
          | HVal x \<Rightarrow> Val x
          | HLazy \<Rightarrow> Lazy)"

text \<open>
  The heaps the loader produces: addresses below the bound, dicts with distinct
  keys, references only to allocated younger objects, and no object referenced
  twice (the config is a forest, there is no aliasing).
\<close>

definition heap_inv :: "heap \<Rightarrow> bool" where
  "heap_inv h \<longleftrightarrow>
     (\<forall>r d. objs h r = Some d \<longrightarrow> r < next_ref h \<and> distinct (map fst d) \<and>
        (\<forall>k r'. (k, HRef r') \<in> set d \<longrightarrow> r < r' \<and> r' \<in> dom (objs h))) \<and>
     (\<forall>r1 d1 k1 r2 d2 k2 x. objs h r1 = Some d1 \<longrightarrow> (k1, HRef x) \<in> set d1 \<longrightarrow>
        objs h r2 = Some d2 \<longrightarrow> (k2, HRef x) \<in> set d2 \<longrightarrow> r1 = r2 \<and> k1 = k2)"

text \<open>The objects \<open>reify h r\<close> reads.\<close>

inductive reaches :: "heap \<Rightarrow> ref \<Rightarrow> ref \<Rightarrow> bool" for h :: heap where
  refl: "reaches h r r"
| step: "objs h r = Some d \<Longrightarrow> (k, HRef r') \<in> set d \<Longrightarrow> r < r' \<Longrightarrow> r' < next_ref h \<Longrightarrow>
         reaches h r' y \<Longrightarrow> reaches h r y"

text \<open>
  What a successful attribute load guarantees: the invariant, the loaded value
  stored under the key, no change outside \<open>r\<close> below the old bound, and a
  loaded section whose old objects were already read from \<open>r\<close>.
\<close>

definition getattr_post :: "heap \<Rightarrow> ref \<Rightarrow> key \<Rightarrow> hval \<Rightarrow> heap \<Rightarrow> bool" where
  "getattr_post h r s v h1 \<longleftrightarrow>
     heap_inv h1 \<and> next_ref h \<le> next_ref h1 \<and> (\<exists>d1. objs h1 r = Some d1 \<and> map_of d1 s = Some v) \<and>
     (\<forall>y. y \<noteq> r \<longrightarrow> y < next_ref h \<longrightarrow> objs h1 y = objs h y) \<and>
     (\<forall>c y. v = HRef c \<longrightarrow> reaches h1 c y \<longrightarrow> y < next_ref h \<longrightarrow> reaches h r y)"

text \<open>What a successful assignment below \<open>r\<close> guarantees: objects not read from \<open>r\<close> are untouched.\<close>

definition assign_post :: "heap \<Rightarrow> ref \<Rightarrow> heap \<Rightarrow> bool" where
  "assign_post h r h' \<longleftrightarrow>
     heap_inv h' \<and> next_ref h \<le> next_ref h' \<and> r \<in> dom (objs h') \<and>
     (\<forall>y. \<not> reaches h r y \<longrightarrow> y < next_ref h \<longrightarrow> objs h' y = objs h y)"

section \<open>Read-back, reachability and the forest invariant\<close>

lemma reify_simp:
  "reify h r = (case objs h r of None \<Rightarrow> Config [] | Some d \<Rightarrow> Config (map (\<lambda>(k, v). (k, hentry h r v)) d))"
  unfolding hentry_def by (rule reify.simps)

declare reify.simps [simp del]

text \<open>The rules that evaluate the heap operations and the read-back on a concrete heap.\<close>

lemmas heap_eval = h_getattr_def h_setattr_def h_put_def h_alloc_def reify_simp hentry_def

lemma reaches_le: "reaches h r y \<Longrightarrow> r \<le> y"
  by (induction rule: reaches.induct) auto

lemma heap_invD:
  assumes "heap_inv h" and "objs h r = Some d"
  shows "r < next_ref h" and "distinct (map fst d)"
    and "\<And>k r'. (k, HRef r') \<in> set d \<Longrightarrow> r < r' \<and> r' \<in> dom (objs h)"
  using assms by (auto simp: heap_inv_def)

lemma heap_inv_unique:
  assumes "heap_inv h" and "objs h r1 = Some d1" and "(k1, HRef x) \<in> set d1"
    and "objs h r2 = Some d2" and "(k2, HRef x) \<in> set d2"
  shows "r1 = r2 \<and> k1 = k2"
  using assms unfolding heap_inv_def by blast

lemma heap_inv_edge:
  assumes "heap_inv h" and "objs h r = Some d" and "(k, HRef r') \<in> set d"
  shows "r < r'" and "r' < next_ref h" and "r' \<in> dom (objs h)"
proof -
  from heap_invD(3) [OF assms(1,2) assms(3)] have "r < r'" and dom: "r' \<in> dom (objs h)" by auto
  then show "r < r'" and "r' \<in> dom (objs h)" by auto
  from dom obtain d' where "objs h r' = Some d'" by auto
  with assms(1) show "r' < next_ref h" by (rule heap_invD(1))
qed

lemma hentry_HRef:
  "heap_inv h \<Longrightarrow> objs h r = Some d \<Longrightarrow> (k, HRef r') \<in> set d \<Longrightarrow> hentry h r (HRef r') = Sub (reify h r')"
  by (auto simp: hentry_def dest: heap_inv_edge)


subsection \<open>The forest structure\<close>

lemma reaches_last:
  assumes "reaches h a c" and "a \<noteq> c"
  shows "\<exists>p d k. reaches h a p \<and> objs h p = Some d \<and> (k, HRef c) \<in> set d"
  using assms
proof (induction rule: reaches.induct)
  case (refl r)
  then show ?case by simp
next
  case (step r d k r' y)
  show ?case
  proof (cases "r' = y")
    case True
    with step.hyps(1,2) show ?thesis by (blast intro: reaches.refl)
  next
    case False
    with step.IH obtain p d' k' where "reaches h r' p" "objs h p = Some d'" "(k', HRef y) \<in> set d'"
      by blast
    with step.hyps(1-4) show ?thesis by (blast intro: reaches.step)
  qed
qed

lemma reaches_comparable:
  assumes "heap_inv h" and "reaches h a y" and "reaches h b y"
  shows "reaches h a b \<or> reaches h b a"
  using assms(2,3)
proof (induction arbitrary: b rule: reaches.induct)
  case (refl r)
  then show ?case by simp
next
  case (step r d k r' y)
  from step.IH [OF step.prems] show ?case
  proof
    assume "reaches h r' b"
    with step.hyps(1-4) show ?thesis by (blast intro: reaches.step)
  next
    assume br': "reaches h b r'"
    show ?thesis
    proof (cases "b = r'")
      case True
      with step.hyps(1-4) show ?thesis by (blast intro: reaches.step reaches.refl)
    next
      case False
      with br' obtain p d' k' where "reaches h b p" "objs h p = Some d'" "(k', HRef r') \<in> set d'"
        using reaches_last by blast
      with heap_inv_unique [OF assms(1) step.hyps(1,2)] show ?thesis by blast
    qed
  qed
qed

lemma reaches_child_above:
  assumes "heap_inv h" and "objs h r = Some d" and "(k, HRef b) \<in> set d"
    and "reaches h a b" and "a \<noteq> b" and "r < a"
  shows False
proof -
  from reaches_last [OF assms(4,5)] obtain p d' k' where
    "reaches h a p" "objs h p = Some d'" "(k', HRef b) \<in> set d'" by blast
  with heap_inv_unique [OF assms(1,2,3)] have "reaches h a r" by blast
  then have "a \<le> r" by (rule reaches_le)
  with assms(6) show False by simp
qed

lemma siblings_disjoint:
  assumes "heap_inv h" and "objs h r = Some d"
    and "(k1, HRef a) \<in> set d" and "(k2, HRef b) \<in> set d" and "a \<noteq> b"
    and "reaches h a y" and "reaches h b y"
  shows False
proof -
  have "r < a" and "r < b" using heap_inv_edge(1) assms(1-4) by blast+
  from reaches_comparable [OF assms(1,6,7)] show False
  proof
    assume "reaches h a b"
    from reaches_child_above [OF assms(1,2,4) this assms(5) \<open>r < a\<close>] show False .
  next
    assume "reaches h b a"
    from reaches_child_above [OF assms(1,2,3) this] assms(5) \<open>r < b\<close> show False by blast
  qed
qed

lemma reify_frame:
  assumes "heap_inv h" and "\<forall>y. reaches h r y \<longrightarrow> objs h' y = objs h y"
    and "next_ref h \<le> next_ref h'"
  shows "reify h' r = reify h r"
  using assms
proof (induction h r rule: reify.induct)
  case (1 h r)
  have same: "objs h' r = objs h r" using "1.prems"(2) reaches.refl by blast
  show ?case
  proof (cases "objs h r")
    case None
    with same show ?thesis by (simp add: reify_simp)
  next
    case (Some d)
    have "hentry h' r v = hentry h r v" if kv: "(k, v) \<in> set d" for k v
    proof (cases v)
      case (HRef r')
      with kv have edge: "(k, HRef r') \<in> set d" by simp
      from heap_inv_edge [OF "1.prems"(1) Some edge] have lt: "r < r'" "r' < next_ref h" by auto
      have "\<forall>y. reaches h r' y \<longrightarrow> objs h' y = objs h y"
        using "1.prems"(2) reaches.step [OF Some edge lt] by blast
      from "1.IH" [OF Some kv HOL.refl HRef conjI [OF lt] "1.prems"(1) this "1.prems"(3)] lt HRef
        "1.prems"(3) show ?thesis by (auto simp: hentry_def)
    qed (simp_all add: hentry_def)
    with Some same show ?thesis by (auto simp: reify_simp)
  qed
qed


subsection \<open>Frames of the heap operations\<close>

lemma reaches_bound: "reaches h x y \<Longrightarrow> y = x \<or> y < next_ref h"
  by (induction rule: reaches.induct) auto

lemma h_put_Some:
  "objs h r = Some d \<Longrightarrow> objs (h_put h r k v) = (objs h)(r \<mapsto> AList.update k v d)"
  "next_ref (h_put h r k v) = next_ref h"
  by (simp_all add: h_put_def split: option.split)

lemma h_alloc_eq:
  "h_alloc h = (next_ref h, h\<lparr>objs := (objs h)(next_ref h \<mapsto> []), next_ref := Suc (next_ref h)\<rparr>)"
  by (rule h_alloc_def)

lemma heap_inv_fresh:
  assumes "heap_inv h"
  shows "objs h (next_ref h) = None"
    and "objs h r = Some d \<Longrightarrow> (k, HRef (next_ref h)) \<notin> set d"
proof -
  show none: "objs h (next_ref h) = None"
    using heap_invD(1) [OF assms] by (cases "objs h (next_ref h)") auto
  show "(k, HRef (next_ref h)) \<notin> set d" if "objs h r = Some d"
    using heap_inv_edge(3) [OF assms that] none by auto
qed


lemma heap_inv_alloc:
  assumes inv: "heap_inv h"
  shows "heap_inv (snd (h_alloc h))"
proof -
  define h1 where "h1 = snd (h_alloc h)"
  have objs1: "objs h1 = (objs h)(next_ref h \<mapsto> [])" and next1: "next_ref h1 = Suc (next_ref h)"
    by (simp_all add: h1_def h_alloc_eq)
  have none: "objs h (next_ref h) = None" by (rule heap_inv_fresh(1) [OF inv])
  have "heap_inv h1"
    unfolding heap_inv_def
  proof (intro conjI allI impI)
    fix r d assume o: "objs h1 r = Some d"
    show "r < next_ref h1" using o by (auto simp: objs1 next1 split: if_splits dest: heap_invD(1) [OF inv])
    show "distinct (map fst d)" using o heap_invD(2) [OF inv] by (auto simp: objs1 split: if_splits)
    fix k r' assume "(k, HRef r') \<in> set d"
    with o heap_inv_edge [OF inv] show "r < r'" and "r' \<in> dom (objs h1)"
      by (auto simp: objs1 split: if_splits)
  next
    fix r1 d1 k1 r2 d2 k2 x
    assume "objs h1 r1 = Some d1" "(k1, HRef x) \<in> set d1" "objs h1 r2 = Some d2" "(k2, HRef x) \<in> set d2"
    with heap_inv_unique [OF inv] show "r1 = r2" and "k1 = k2" by (auto simp: objs1 split: if_splits)
  qed
  then show ?thesis by (simp add: h1_def)
qed

lemma h_put_edge:
  assumes "objs h r = Some d" and "objs (h_put h r k v) r1 = Some d1" and "(k1, w) \<in> set d1"
  shows "(r1 = r \<and> (k1, w) = (k, v)) \<or> (\<exists>d0. objs h r1 = Some d0 \<and> (k1, w) \<in> set d0)"
  using assms mem_update_dict [of "(k1, w)" k v d] by (auto simp: h_put_Some split: if_splits)

lemma heap_inv_put:
  assumes inv: "heap_inv h" and o: "objs h r = Some d"
    and new: "\<And>r'. v = HRef r' \<Longrightarrow>
       r < r' \<and> r' \<in> dom (objs h) \<and> (\<forall>r2 d2 k2. objs h r2 = Some d2 \<longrightarrow> (k2, HRef r') \<notin> set d2)"
  shows "heap_inv (h_put h r k v)"
  unfolding heap_inv_def
proof (intro conjI allI impI)
  have objs': "objs (h_put h r k v) = (objs h)(r \<mapsto> AList.update k v d)" by (rule h_put_Some(1) [OF o])
  have dom: "dom (objs (h_put h r k v)) = dom (objs h)" using o objs' by auto
  fix r1 d1 assume o1: "objs (h_put h r k v) r1 = Some d1"
  then obtain d0 where o0: "objs h r1 = Some d0" using dom by (metis domD domI)
  then show "r1 < next_ref (h_put h r k v)" by (simp add: h_put_Some heap_invD(1) [OF inv])
  show "distinct (map fst d1)"
    using o1 o0 objs' heap_invD(2) [OF inv] distinct_update [OF heap_invD(2) [OF inv o]]
    by (auto split: if_splits)
  fix k' r' assume e: "(k', HRef r') \<in> set d1"
  from h_put_edge [OF o o1 e] consider (added) "r1 = r" "v = HRef r'"
    | (kept) d0' where "objs h r1 = Some d0'" "(k', HRef r') \<in> set d0'" by auto
  then have "r1 < r' \<and> r' \<in> dom (objs (h_put h r k v))"
  proof cases
    case added
    with new [of r'] dom show ?thesis by auto
  next
    case kept
    with heap_inv_edge [OF inv kept] dom show ?thesis by auto
  qed
  then show "r1 < r'" and "r' \<in> dom (objs (h_put h r k v))" by auto
next
  fix r1 d1 k1 r2 d2 k2 x
  assume "objs (h_put h r k v) r1 = Some d1" "(k1, HRef x) \<in> set d1"
    "objs (h_put h r k v) r2 = Some d2" "(k2, HRef x) \<in> set d2"
  from h_put_edge [OF o this(1,2)] h_put_edge [OF o this(3,4)]
  show "r1 = r2" and "k1 = k2" using new heap_inv_unique [OF inv] by blast+
qed


lemma hentry_frame:
  assumes inv: "heap_inv h" and o: "objs h r = Some d" and kv: "(k, v) \<in> set d"
    and frame: "\<And>c y. v = HRef c \<Longrightarrow> reaches h c y \<Longrightarrow> objs h' y = objs h y"
    and grow: "next_ref h \<le> next_ref h'"
  shows "hentry h' r v = hentry h r v"
proof (cases v)
  case (HRef c)
  with kv have e: "(k, HRef c) \<in> set d" by simp
  from heap_inv_edge [OF inv o e] have "r < c" "c < next_ref h" by auto
  moreover have "reify h' c = reify h c"
    using reify_frame [OF inv _ grow] frame HRef by blast
  ultimately show ?thesis using HRef grow by (simp add: hentry_def)
qed (simp_all add: hentry_def)

lemma reify_Some:
  "objs h r = Some d \<Longrightarrow> reify h r = Config (map (\<lambda>(k, v). (k, hentry h r v)) d)"
  by (simp add: reify_simp)

lemma reify_h_put:
  assumes inv: "heap_inv h" and o: "objs h r = Some d"
  shows "reify (h_put h r k v) r = config_put (reify h r) k (hentry (h_put h r k v) r v)"
proof -
  let ?h' = "h_put h r k v"
  have o': "objs ?h' r = Some (AList.update k v d)" by (simp add: h_put_Some(1) [OF o])
  have "hentry ?h' r v' = hentry h r v'" if "(k', v') \<in> set d" for k' v'
  proof (rule hentry_frame [OF inv o that])
    fix c y assume "v' = HRef c" "reaches h c y"
    with that heap_inv_edge(1) [OF inv o] reaches_le have "r \<noteq> y" by fastforce
    then show "objs ?h' y = objs h y" by (simp add: h_put_Some(1) [OF o])
  qed (simp add: h_put_Some)
  then have eq: "map (\<lambda>(k, v). (k, hentry ?h' r v)) d = map (\<lambda>(k, v). (k, hentry h r v)) d"
    by (auto intro: map_cong)
  have "reify ?h' r = Config (map (\<lambda>(k', v'). (k', hentry ?h' r v')) (AList.update k v d))"
    by (rule reify_Some [OF o'])
  also have "\<dots> = Config (AList.update k (hentry ?h' r v) (map (\<lambda>(k, v). (k, hentry ?h' r v)) d))"
    by (simp only: map_values_update)
  also have "\<dots> = config_put (reify h r) k (hentry ?h' r v)"
    by (simp only: eq reify_Some [OF o] config_put.simps)
  finally show ?thesis .
qed

lemma reify_alloc_other:
  assumes inv: "heap_inv h" and "x \<noteq> next_ref h"
  shows "reify (snd (h_alloc h)) x = reify h x"
proof (rule reify_frame [OF inv])
  show "\<forall>y. reaches h x y \<longrightarrow> objs (snd (h_alloc h)) y = objs h y"
    using reaches_bound assms(2) by (fastforce simp: h_alloc_eq)
qed (simp add: h_alloc_eq)

lemma reify_write_back:
  assumes inv: "heap_inv h1" and o: "objs h1 r = Some d" and ms: "map_of d s = Some (HRef c)"
    and frame: "\<forall>y. \<not> reaches h1 c y \<longrightarrow> y < next_ref h1 \<longrightarrow> objs h' y = objs h1 y"
    and grow: "next_ref h1 \<le> next_ref h'"
  shows "reify h' r = config_put (reify h1 r) s (Sub (reify h' c))"
proof -
  have e: "(s, HRef c) \<in> set d" using ms by (rule map_of_SomeD)
  from heap_inv_edge [OF inv o e] have lt: "r < c" "c < next_ref h1" by auto
  have "\<not> reaches h1 c r" using lt reaches_le by fastforce
  with frame heap_invD(1) [OF inv o] have o': "objs h' r = Some d" using o by auto
  have same: "hentry h' r v' = hentry h1 r v'" if kv: "(k', v') \<in> set d" "k' \<noteq> s" for k' v'
  proof (rule hentry_frame [OF inv o kv(1) _ grow])
    fix c' y assume c': "v' = HRef c'" and y: "reaches h1 c' y"
    have "c' \<noteq> c" using heap_inv_unique [OF inv o e o] kv c' by blast
    then have "\<not> reaches h1 c y" using siblings_disjoint [OF inv o e] kv(1) c' y by blast
    moreover have "y < next_ref h1"
      using reaches_bound [OF y] heap_inv_edge(2) [OF inv o] kv(1) c' by blast
    ultimately show "objs h' y = objs h1 y" using frame by blast
  qed
  have "map (\<lambda>(k, v). (k, hentry h' r v)) d
        = AList.update s (hentry h' r (HRef c)) (map (\<lambda>(k, v). (k, hentry h1 r v)) d)"
    by (rule map_values_update_at [OF heap_invD(2) [OF inv o] e same])
  moreover have "hentry h' r (HRef c) = Sub (reify h' c)" using lt grow by (simp add: hentry_def)
  ultimately show ?thesis using o o' by (simp add: reify_Some)
qed


subsection \<open>Simulation of the Config methods\<close>

lemma reify_getitem:
  "objs h r = Some d \<Longrightarrow> map_of (config_items (reify h r)) s = map_option (hentry h r) (map_of d s)"
  by (simp add: reify_Some map_of_map)

lemma reaches_leaf: "reaches h c y \<Longrightarrow> objs h c = Some [] \<Longrightarrow> y = c"
  by (induction rule: reaches.induct) auto

lemma h_getattr_present:
  assumes inv: "heap_inv h" and o: "objs h r = Some d" and "\<not> is_dunder s" and ms: "map_of d s = Some v"
  shows "h_getattr h r s = Inr (v, h)" and "getattr_post h r s v h"
    and "config_getattr (reify h r) s = Inr (hentry h r v, reify h r)"
proof -
  show "h_getattr h r s = Inr (v, h)" using assms by (simp add: h_getattr_def)
  have "reaches h r y" if "v = HRef c" "reaches h c y" for c y
    using heap_inv_edge [OF inv o map_of_SomeD [OF ms [unfolded that]]] reaches.step [OF o]
      map_of_SomeD [OF ms [unfolded that]] that(2) by blast
  then show "getattr_post h r s v h" using inv o ms by (auto simp: getattr_post_def)
  obtain d' where "reify h r = Config d'" and "map_of d' s = Some (hentry h r v)"
    using reify_getitem [OF o, of s] ms by (cases "reify h r") auto
  then show "config_getattr (reify h r) s = Inr (hentry h r v, reify h r)"
    using assms(3) by (simp add: config_getattr_def)
qed


lemma config_getattr_reify_absent:
  assumes o: "objs h r = Some d" and "\<not> is_dunder s" and ms: "map_of d s = None"
  shows "config_getattr (reify h r) s =
           (if is_section_key s then Inr (Sub (Config []), config_put (reify h r) s (Sub (Config [])))
            else if \<not> starts_underscore s then Inr (Lazy, config_put (reify h r) s Lazy)
            else Inl (AttributeError s))"
proof -
  obtain d' where "reify h r = Config d'" and "map_of d' s = None"
    using reify_getitem [OF o, of s] ms by (cases "reify h r") auto
  then show ?thesis using assms(2) by (simp add: config_getattr_def)
qed

lemma h_getattr_new_section:
  assumes inv: "heap_inv h" and o: "objs h r = Some d" and nd: "\<not> is_dunder s"
    and ms: "map_of d s = None" and sec: "is_section_key s"
  defines "h1 \<equiv> h_put (snd (h_alloc h)) r s (HRef (next_ref h))"
  shows "h_getattr h r s = Inr (HRef (next_ref h), h1)"
    and "getattr_post h r s (HRef (next_ref h)) h1"
    and "config_getattr (reify h r) s = Inr (hentry h1 r (HRef (next_ref h)), reify h1 r)"
proof -
  let ?B = "next_ref h" and ?h0 = "snd (h_alloc h)"
  have objs0: "objs ?h0 = (objs h)(?B \<mapsto> [])" and next0: "next_ref ?h0 = Suc ?B"
    by (simp_all add: h_alloc_eq)
  have rB: "r \<noteq> ?B" using heap_invD(1) [OF inv o] by simp
  have o0: "objs ?h0 r = Some d" using o rB objs0 by simp
  have inv0: "heap_inv ?h0" by (rule heap_inv_alloc [OF inv])
  have inv1: "heap_inv h1" unfolding h1_def
  proof (rule heap_inv_put [OF inv0 o0])
    fix r' assume "HRef ?B = HRef r'"
    then show "r < r' \<and> r' \<in> dom (objs ?h0) \<and> (\<forall>r2 d2 k2. objs ?h0 r2 = Some d2 \<longrightarrow> (k2, HRef r') \<notin> set d2)"
      using heap_invD(1) [OF inv o] heap_inv_fresh(2) [OF inv] objs0 by auto
  qed
  have objs1: "objs h1 = (objs h)(?B \<mapsto> [], r \<mapsto> AList.update s (HRef ?B) d)"
    unfolding h1_def using h_put_Some(1) [OF o0] objs0 by simp
  have next1: "next_ref h1 = Suc ?B" by (simp add: h1_def h_put_Some(2) next0)
  have leaf: "objs h1 ?B = Some []" using objs1 rB by simp
  show "h_getattr h r s = Inr (HRef ?B, h1)"
    using o nd ms sec by (simp add: h_getattr_def h1_def h_alloc_eq)
  show "getattr_post h r s (HRef ?B) h1"
    unfolding getattr_post_def using inv1 objs1 next1 reaches_leaf [OF _ leaf] by auto
  have "reify h1 r = config_put (reify ?h0 r) s (hentry h1 r (HRef ?B))"
    unfolding h1_def by (rule reify_h_put [OF inv0 o0])
  moreover have "reify ?h0 r = reify h r" by (rule reify_alloc_other [OF inv rB])
  moreover have "hentry h1 r (HRef ?B) = Sub (Config [])"
    using heap_invD(1) [OF inv o] next1 leaf by (simp add: hentry_def reify_Some)
  ultimately show "config_getattr (reify h r) s = Inr (hentry h1 r (HRef ?B), reify h1 r)"
    using config_getattr_reify_absent [OF o nd ms] sec by simp
qed

lemma h_getattr_lazy:
  assumes inv: "heap_inv h" and o: "objs h r = Some d" and nd: "\<not> is_dunder s"
    and ms: "map_of d s = None" and nsec: "\<not> is_section_key s" and nu: "\<not> starts_underscore s"
  shows "h_getattr h r s = Inr (HLazy, h_put h r s HLazy)"
    and "getattr_post h r s HLazy (h_put h r s HLazy)"
    and "config_getattr (reify h r) s = Inr (hentry (h_put h r s HLazy) r HLazy, reify (h_put h r s HLazy) r)"
proof -
  show "h_getattr h r s = Inr (HLazy, h_put h r s HLazy)"
    using o nd ms nsec nu by (simp add: h_getattr_def)
  have "heap_inv (h_put h r s HLazy)" by (rule heap_inv_put [OF inv o]) simp
  then show "getattr_post h r s HLazy (h_put h r s HLazy)"
    unfolding getattr_post_def using o by (simp add: h_put_Some)
  show "config_getattr (reify h r) s = Inr (hentry (h_put h r s HLazy) r HLazy, reify (h_put h r s HLazy) r)"
    using config_getattr_reify_absent [OF o nd ms] nsec nu reify_h_put [OF inv o, of s HLazy]
    by (simp add: hentry_def)
qed


lemma h_getattr_refines:
  assumes inv: "heap_inv h" and o: "objs h r = Some d"
  shows "case h_getattr h r s of
           Inl e \<Rightarrow> config_getattr (reify h r) s = Inl e
         | Inr (v, h1) \<Rightarrow> getattr_post h r s v h1 \<and> config_getattr (reify h r) s = Inr (hentry h1 r v, reify h1 r)"
proof (cases "is_dunder s")
  case True
  then show ?thesis by (simp add: h_getattr_def config_getattr_def)
next
  case nd: False
  show ?thesis
  proof (cases "map_of d s")
    case (Some v)
    with h_getattr_present [OF inv o nd Some] show ?thesis by simp
  next
    case ms: None
    consider (sec) "is_section_key s" | (lazy) "\<not> is_section_key s" "\<not> starts_underscore s"
      | (err) "\<not> is_section_key s" "starts_underscore s" by blast
    then show ?thesis
    proof cases
      case sec
      with h_getattr_new_section [OF inv o nd ms sec] show ?thesis by simp
    next
      case lazy
      with h_getattr_lazy [OF inv o nd ms lazy] show ?thesis by simp
    next
      case err
      with config_getattr_reify_absent [OF o nd ms] o nd ms show ?thesis by (simp add: h_getattr_def)
    qed
  qed
qed

lemma not_reaches_neq: "\<not> reaches h r y \<Longrightarrow> y \<noteq> r"
  by (auto intro: reaches.refl)

lemma assign_post_getattr_Lazy:
  "getattr_post h r s HLazy h1 \<Longrightarrow> assign_post h r h1"
  by (auto simp: getattr_post_def assign_post_def dest: not_reaches_neq)

lemma h_setattr_refines:
  assumes inv: "heap_inv h" and o: "objs h r = Some d"
  shows "case h_setattr h r k (HVal x) of
           Inl e \<Rightarrow> config_setattr (reify h r) k (Val x) = Inl e
         | Inr h' \<Rightarrow> assign_post h r h' \<and> config_setattr (reify h r) k (Val x) = Inr (reify h' r)"
proof -
  have "heap_inv (h_put h r k (HVal x))" by (rule heap_inv_put [OF inv o]) simp
  moreover have "reify (h_put h r k (HVal x)) r = config_put (reify h r) k (Val x)"
    using reify_h_put [OF inv o, of k "HVal x"] by (simp add: hentry_def)
  ultimately show ?thesis
    using inv o by (auto simp: h_setattr_def config_setattr_def assign_post_def h_put_Some dest: not_reaches_neq)
qed


subsection \<open>Simulation of the assignments\<close>

lemma assign_post_child:
  assumes gp: "getattr_post h r s (HRef c) h1" and ap: "assign_post h1 c h'"
  shows "assign_post h r h'" and "reify h' r = config_put (reify h1 r) s (Sub (reify h' c))"
proof -
  from gp obtain d1 where inv1: "heap_inv h1" and grow1: "next_ref h \<le> next_ref h1"
    and o1: "objs h1 r = Some d1" and ms: "map_of d1 s = Some (HRef c)"
    and frame1: "\<forall>y. y \<noteq> r \<longrightarrow> y < next_ref h \<longrightarrow> objs h1 y = objs h y"
    and up: "\<forall>y. reaches h1 c y \<longrightarrow> y < next_ref h \<longrightarrow> reaches h r y"
    unfolding getattr_post_def by blast
  from ap have inv': "heap_inv h'" and grow': "next_ref h1 \<le> next_ref h'"
    and frame': "\<forall>y. \<not> reaches h1 c y \<longrightarrow> y < next_ref h1 \<longrightarrow> objs h' y = objs h1 y"
    unfolding assign_post_def by blast+
  show "reify h' r = config_put (reify h1 r) s (Sub (reify h' c))"
    by (rule reify_write_back [OF inv1 o1 ms frame' grow'])
  have "r < c" using heap_inv_edge(1) [OF inv1 o1 map_of_SomeD [OF ms]] .
  then have "\<not> reaches h1 c r" using reaches_le by fastforce
  then have "objs h' r = Some d1" using frame' heap_invD(1) [OF inv1 o1] o1 by auto
  moreover have "objs h' y = objs h y" if "\<not> reaches h r y" "y < next_ref h" for y
    using that frame1 frame' up grow1 not_reaches_neq [OF that(1)] by fastforce
  ultimately show "assign_post h r h'"
    using inv' grow1 grow' unfolding assign_post_def by auto
qed

lemma getattr_post_child:
  assumes "getattr_post h r s (HRef c) h1"
  shows "heap_inv h1" and "\<exists>dc. objs h1 c = Some dc" and "hentry h1 r (HRef c) = Sub (reify h1 c)"
proof -
  from assms obtain d1 where inv1: "heap_inv h1" and o1: "objs h1 r = Some d1"
    and e: "(s, HRef c) \<in> set d1"
    unfolding getattr_post_def by (blast dest: map_of_SomeD)
  show "heap_inv h1" by (rule inv1)
  show "\<exists>dc. objs h1 c = Some dc" using heap_inv_edge(3) [OF inv1 o1 e] by blast
  show "hentry h1 r (HRef c) = Sub (reify h1 c)" by (rule hentry_HRef [OF inv1 o1 e])
qed

lemma h_assign_path_refines:
  assumes "heap_inv h" and "objs h r = Some d"
  shows "case h_assign_path h r p k (HVal x) of
           Inl e \<Rightarrow> assign_path (reify h r) p k (Val x) = Inl e
         | Inr h' \<Rightarrow> assign_post h r h' \<and> assign_path (reify h r) p k (Val x) = Inr (reify h' r)"
  using assms
proof (induction p arbitrary: h r d)
  case Nil
  then show ?case using h_setattr_refines [OF Nil.prems, of k x] by (simp split: sum.splits)
next
  case (Cons s ss)
  note get = h_getattr_refines [OF Cons.prems, of s]
  show ?case
  proof (cases "h_getattr h r s")
    case (Inl e)
    with get show ?thesis by simp
  next
    case (Inr vh)
    obtain v h1 where vh: "vh = (v, h1)" by (cases vh)
    with Inr get have gp: "getattr_post h r s v h1"
      and ga: "config_getattr (reify h r) s = Inr (hentry h1 r v, reify h1 r)" by simp_all
    show ?thesis
    proof (cases v)
      case (HRef c)
      note child = getattr_post_child [OF gp [unfolded HRef]]
      obtain dc where oc: "objs h1 c = Some dc" using child(2) by blast
      from Cons.IH [OF child(1) oc] Inr vh HRef ga child(3) show ?thesis
        by (auto split: sum.splits dest: assign_post_child [OF gp [unfolded HRef]])
    next
      case (HVal y)
      with Inr vh ga show ?thesis by (simp add: hentry_def)
    next
      case HLazy
      with Inr vh ga assign_post_getattr_Lazy [OF gp [unfolded HLazy]] show ?thesis
        by (simp add: hentry_def)
    qed
  qed
qed


lemma h_exec_stmts_sim:
  assumes "heap_inv h" and "objs h r = Some d"
  shows "case h_exec_stmts h r sts of
           Inl e \<Rightarrow> exec_stmts (reify h r) sts = Inl e
         | Inr h' \<Rightarrow> heap_inv h' \<and> r \<in> dom (objs h') \<and> exec_stmts (reify h r) sts = Inr (reify h' r)"
  using assms
proof (induction sts arbitrary: h d)
  case Nil
  then show ?case by auto
next
  case (Cons st sts)
  obtain p k v where st: "st = Assign p k v" by (cases st)
  note step = h_assign_path_refines [OF Cons.prems, of p k v]
  show ?case
  proof (cases "h_assign_path h r p k (HVal v)")
    case (Inl e)
    with step st show ?thesis by simp
  next
    case (Inr h1)
    with step have "assign_post h r h1" and a: "assign_path (reify h r) p k (Val v) = Inr (reify h1 r)"
      by simp_all
    then obtain d1 where inv1: "heap_inv h1" and o1: "objs h1 r = Some d1"
      unfolding assign_post_def by blast
    from Cons.IH [OF inv1 o1] Inr a st show ?thesis by (simp split: sum.splits)
  qed
qed

lemma heap_inv_loader: "heap_inv \<lparr>objs = [0 \<mapsto> []], next_ref = 1\<rparr>"
  by (simp add: heap_inv_def)

section \<open>Properties of the reference semantics\<close>

text \<open>
  C12: on a heap without aliasing, running any statement list in place on the
  objects gives, read back as a value, exactly the value model's run of the
  same statements, with the same error when one is raised.
\<close>

theorem h_exec_stmts_refines:
  assumes "heap_inv h" and "objs h r = Some d"
  shows "map_sum id (\<lambda>h'. reify h' r) (h_exec_stmts h r sts) = exec_stmts (reify h r) sts"
  using h_exec_stmts_sim [OF assms, of sts] by (auto split: sum.splits)

theorem h_exec_stmts_refines_witness:
  "heap_inv \<lparr>objs = [0 \<mapsto> []], next_ref = 1\<rparr> \<and> objs \<lparr>objs = [0 \<mapsto> []], next_ref = 1\<rparr> 0 = Some [] \<and>
   map_sum id (\<lambda>h'. reify h' 0) (h_exec_stmts \<lparr>objs = [0 \<mapsto> []], next_ref = 1\<rparr> 0 jupyter_lab_config_stmts)
     = exec_stmts (reify \<lparr>objs = [0 \<mapsto> []], next_ref = 1\<rparr> 0) jupyter_lab_config_stmts"
  using h_exec_stmts_refines [OF heap_inv_loader, of 0 "[]" jupyter_lab_config_stmts] heap_inv_loader
  by simp

text \<open>
  C13: running statements keeps the heap a forest of \<open>Config\<close> objects with
  the root object still allocated.
\<close>

theorem h_exec_stmts_heap_inv:
  assumes "heap_inv h" and "objs h r = Some d"
  shows "case h_exec_stmts h r sts of Inl _ \<Rightarrow> True | Inr h' \<Rightarrow> heap_inv h' \<and> r \<in> dom (objs h')"
  using h_exec_stmts_sim [OF assms, of sts] by (auto split: sum.splits)

theorem h_exec_stmts_heap_inv_witness:
  "heap_inv \<lparr>objs = [0 \<mapsto> []], next_ref = 1\<rparr> \<and> objs \<lparr>objs = [0 \<mapsto> []], next_ref = 1\<rparr> 0 = Some [] \<and>
   (case h_exec_stmts \<lparr>objs = [0 \<mapsto> []], next_ref = 1\<rparr> 0 jupyter_lab_config_stmts of
      Inl _ \<Rightarrow> True | Inr h' \<Rightarrow> heap_inv h' \<and> 0 \<in> dom (objs h'))"
  using h_exec_stmts_heap_inv [OF heap_inv_loader, of 0 "[]" jupyter_lab_config_stmts] heap_inv_loader
  by simp

end
