(* ===== verification/PyModule.thy ===== *)
theory PyModule
  imports ConfigHeap
begin

text \<open>
  The config file as the Python module it is. \<open>src/jupyter_lab_config.py\<close> is
  five statements: \<open>c = get_config()\<close> and four attribute assignments. The
  module does not import \<open>get_config\<close> (hence the \<open># noqa: F821\<close>): the name is
  bound by the namespace \<open>PyFileConfigLoader._read_file_as_dict\<close> passes to
  \<open>exec\<close>, together with \<open>c\<close>, \<open>load_subconfig\<close> and \<open>__file__\<close>. This theory
  gives the statements of the file as syntax, an evaluator for the expressions
  and statements they use over the object heap of \<open>ConfigHeap\<close>, and the
  loader's namespace. It proves that the module run in that namespace is the
  statement model of \<open>ConfigHeap\<close> on any heap, that line 5 changes nothing
  under the loader, and that run
  as a plain script the module stops at line 5 with a \<open>NameError\<close>.
\<close>

section \<open>Syntax and objects\<close>

text \<open>
  The expressions of the file: a name, an attribute load \<open>e.k\<close>, a call
  \<open>e()\<close> without arguments. The statements: \<open>n = e\<close> and \<open>e.k = v\<close> with a
  literal \<open>v\<close>, the only right-hand sides the file has.
\<close>

datatype pyexpr = PName string | PAttr pyexpr key | PCall pyexpr

datatype pystmt = PAssign string pyexpr | PSetAttr pyexpr key pyval

text \<open>
  The objects a name can denote: a value of the heap model (a \<open>Config\<close> object,
  a literal, a \<open>LazyConfigValue\<close>), the loader's \<open>get_config\<close> closure, which
  returns the \<open>Config\<close> object at the given address, and the loader's bound
  method \<open>load_subconfig\<close>.
\<close>

datatype pyobj = OVal hval | OGetConfig ref | OLoadSubconfig

text \<open>
  The exceptions: those of \<open>Config\<close>, a \<open>NameError\<close> for an unbound name, a
  \<open>TypeError\<close> for a call of an object that does not take zero arguments.
\<close>

datatype pyexc = Raised pyerror | NameError string | TypeError

type_synonym namespace = "string \<rightharpoonup> pyobj"

section \<open>Evaluation\<close>

text \<open>
  Expressions, left to right as CPython evaluates them (\<open>LOAD_NAME\<close>,
  \<open>LOAD_ATTR\<close>, \<open>CALL\<close>). An attribute load on a \<open>Config\<close> object is
  \<open>Config.__getattr__\<close> (\<open>h_getattr\<close>), which may allocate a section. Loading an
  attribute of a literal, a lazy value or a function raises \<open>AttributeError\<close>
  (the methods these objects have are not modelled). Only \<open>get_config\<close> can be
  called without arguments; \<open>load_subconfig\<close> needs a file name.
\<close>

primrec eval_expr :: "namespace \<Rightarrow> heap \<Rightarrow> pyexpr \<Rightarrow> pyexc + (pyobj \<times> heap)" where
  "eval_expr ns h (PName n) = (case ns n of None \<Rightarrow> Inl (NameError n) | Some ob \<Rightarrow> Inr (ob, h))"
| "eval_expr ns h (PAttr e k) =
     (case eval_expr ns h e of
        Inl x \<Rightarrow> Inl x
      | Inr (OVal (HRef r), h1) \<Rightarrow>
          (case h_getattr h1 r k of Inl err \<Rightarrow> Inl (Raised err) | Inr (v, h2) \<Rightarrow> Inr (OVal v, h2))
      | Inr (_, _) \<Rightarrow> Inl (Raised (AttributeError k)))"
| "eval_expr ns h (PCall e) =
     (case eval_expr ns h e of
        Inl x \<Rightarrow> Inl x
      | Inr (OGetConfig r, h1) \<Rightarrow> Inr (OVal (HRef r), h1)
      | Inr (_, _) \<Rightarrow> Inl TypeError)"

text \<open>
  Statements. \<open>n = e\<close> binds \<open>n\<close> in the module's namespace. \<open>e.k = v\<close>
  evaluates \<open>e\<close> and stores into the object: \<open>Config.__setattr__\<close> on a
  \<open>Config\<close> (\<open>h_setattr\<close>); an \<open>AttributeError\<close> on a literal; on a
  \<open>LazyConfigValue\<close> or a function object a plain instance attribute, which the
  config does not see.
\<close>

fun exec_pystmt :: "namespace \<Rightarrow> heap \<Rightarrow> pystmt \<Rightarrow> pyexc + (namespace \<times> heap)" where
  "exec_pystmt ns h (PAssign n e) =
     (case eval_expr ns h e of Inl x \<Rightarrow> Inl x | Inr (ob, h1) \<Rightarrow> Inr (ns(n \<mapsto> ob), h1))"
| "exec_pystmt ns h (PSetAttr e k v) =
     (case eval_expr ns h e of
        Inl x \<Rightarrow> Inl x
      | Inr (OVal (HRef r), h1) \<Rightarrow>
          (case h_setattr h1 r k (HVal v) of Inl err \<Rightarrow> Inl (Raised err) | Inr h2 \<Rightarrow> Inr (ns, h2))
      | Inr (OVal (HVal _), _) \<Rightarrow> Inl (Raised (AttributeError k))
      | Inr (_, h1) \<Rightarrow> Inr (ns, h1))"

text \<open>The module body: its statements in order, stopping at the first exception.\<close>

fun exec_module :: "namespace \<Rightarrow> heap \<Rightarrow> pystmt list \<Rightarrow> pyexc + (namespace \<times> heap)" where
  "exec_module ns h [] = Inr (ns, h)"
| "exec_module ns h (st # sts) =
     (case exec_pystmt ns h st of Inl x \<Rightarrow> Inl x | Inr (ns', h') \<Rightarrow> exec_module ns' h' sts)"

section \<open>The module\<close>

text \<open>The assignment \<open>c.S1. ... .Sn.k = v\<close> of a statement of \<open>ConfigScript\<close>, as syntax.\<close>

fun stmt_ast :: "stmt \<Rightarrow> pystmt" where
  "stmt_ast (Assign p k v) = PSetAttr (foldl PAttr (PName ''c'') p) k v"

text \<open>The five statements of \<open>src/jupyter_lab_config.py\<close>, lines 5 to 8 and 11.\<close>

definition get_config_line :: pystmt where
  "get_config_line = PAssign ''c'' (PCall (PName ''get_config''))"

definition server_ip_line :: pystmt where
  "server_ip_line = PSetAttr (PAttr (PName ''c'') ''ServerApp'') ''ip'' (PyStr ''0.0.0.0'')"

definition server_port_line :: pystmt where
  "server_port_line = PSetAttr (PAttr (PName ''c'') ''ServerApp'') ''port'' (PyInt 8888)"

definition server_open_browser_line :: pystmt where
  "server_open_browser_line = PSetAttr (PAttr (PName ''c'') ''ServerApp'') ''open_browser'' (PyBool False)"

definition delete_to_trash_line :: pystmt where
  "delete_to_trash_line =
     PSetAttr (PAttr (PName ''c'') ''FileContentsManager'') ''delete_to_trash'' (PyBool False)"

definition jupyter_lab_config_module :: "pystmt list" where
  "jupyter_lab_config_module =
     [get_config_line, server_ip_line, server_port_line, server_open_browser_line, delete_to_trash_line]"

section \<open>The loader\<close>

text \<open>
  The namespace of \<open>PyFileConfigLoader._read_file_as_dict\<close>:
  \<open>dict(c=self.config, load_subconfig=self.load_subconfig,
  get_config=get_config, __file__=self.full_filename)\<close>, with \<open>get_config\<close>
  returning \<open>self.config\<close>, the object at address \<open>r\<close>.
\<close>

definition loader_namespace :: "ref \<Rightarrow> string \<Rightarrow> namespace" where
  "loader_namespace r fname =
     [''c'' \<mapsto> OVal (HRef r), ''load_subconfig'' \<mapsto> OLoadSubconfig, ''get_config'' \<mapsto> OGetConfig r,
      ''__file__'' \<mapsto> OVal (HVal (PyStr fname))]"

section \<open>Lemmas\<close>

lemma eval_foldl_Inl:
  "eval_expr ns h e = Inl x \<Longrightarrow> eval_expr ns h (foldl PAttr e p) = Inl x"
  by (induction p arbitrary: e) auto

text \<open>
  An attribute chain evaluated from a \<open>Config\<close> object and then stored into is
  \<open>h_assign_path\<close>, with the same exceptions.
\<close>

lemma exec_setattr_path:
  "eval_expr ns h e = Inr (OVal (HRef r), h1) \<Longrightarrow>
   exec_pystmt ns h (PSetAttr (foldl PAttr e p) k v) = map_sum Raised (Pair ns) (h_assign_path h1 r p k (HVal v))"
proof (induction p arbitrary: e h1 r)
  case Nil
  then show ?case by (simp split: sum.splits)
next
  case (Cons s ss)
  show ?case
  proof (cases "h_getattr h1 r s")
    case (Inl err)
    with Cons.prems eval_foldl_Inl [of ns h "PAttr e s" "Raised err" ss] show ?thesis by simp
  next
    case (Inr res)
    obtain v' h2 where res: "res = (v', h2)" by (cases res)
    show ?thesis
    proof (cases v')
      case (HRef r')
      with Cons.prems Cons.IH [of "PAttr e s" r' h2] Inr res show ?thesis by simp
    next
      case (HVal x)
      with Cons.prems Inr res eval_foldl_Inl [of ns h "PAttr (PAttr e s) (hd ss)" _ "tl ss"]
      show ?thesis by (cases ss) auto
    next
      case HLazy
      with Cons.prems Inr res eval_foldl_Inl [of ns h "PAttr (PAttr e s) (hd ss)" _ "tl ss"]
      show ?thesis by (cases ss) auto
    qed
  qed
qed

lemma exec_module_stmts:
  "ns ''c'' = Some (OVal (HRef r)) \<Longrightarrow>
   exec_module ns h (map stmt_ast sts) = map_sum Raised (Pair ns) (h_exec_stmts h r sts)"
proof (induction sts arbitrary: h)
  case (Cons st sts)
  obtain p k v where st: "st = Assign p k v" by (cases st)
  have step: "exec_pystmt ns h (stmt_ast st) = map_sum Raised (Pair ns) (h_assign_path h r p k (HVal v))"
    using exec_setattr_path [of ns h "PName ''c''" r h p k v] Cons.prems st by simp
  show ?case
    using Cons.IH [OF Cons.prems]
    by (simp only: list.map exec_module.simps step) (simp add: st split: sum.splits)
qed simp

lemma jupyter_lab_config_module_ast:
  "jupyter_lab_config_module = get_config_line # map stmt_ast jupyter_lab_config_stmts"
  by (simp add: jupyter_lab_config_module_def jupyter_lab_config_lines server_ip_line_def
      server_port_line_def server_open_browser_line_def delete_to_trash_line_def)

lemma loader_namespace_c: "loader_namespace r f ''c'' = Some (OVal (HRef r))"
  by (simp add: loader_namespace_def)

lemma loader_namespace_get_config: "loader_namespace r f ''get_config'' = Some (OGetConfig r)"
  by (simp add: loader_namespace_def)

lemma loader_namespace_c_upd: "(loader_namespace r f)(''c'' \<mapsto> OVal (HRef r)) = loader_namespace r f"
  by (simp add: fun_upd_idem loader_namespace_c)

lemma exec_module_loader_stmts:
  "exec_module (loader_namespace r f) h (map stmt_ast sts)
     = map_sum Raised (Pair (loader_namespace r f)) (h_exec_stmts h r sts)"
  using loader_namespace_c by (rule exec_module_stmts)

lemma loader_get_config_line:
  "exec_pystmt (loader_namespace r f) h get_config_line = Inr (loader_namespace r f, h)"
  by (simp add: get_config_line_def loader_namespace_get_config loader_namespace_c_upd)

section \<open>Properties of the module\<close>

text \<open>
  C17: run in the loader's namespace on any heap, the module is the statement
  model of \<open>ConfigHeap\<close> run on the object \<open>c\<close> denotes: the same heap, the same
  exception, and the namespace of the loader left as it was.
\<close>

theorem jupyter_lab_config_module_refines:
  "exec_module (loader_namespace r f) h jupyter_lab_config_module
     = map_sum Raised (Pair (loader_namespace r f)) (h_jupyter_lab_config h r)"
  by (simp add: jupyter_lab_config_module_ast get_config_line_def loader_namespace_get_config
      loader_namespace_c_upd exec_module_loader_stmts h_jupyter_lab_config_def)

text \<open>
  C18: run outside the loader, in a namespace without \<open>get_config\<close> (as
  \<open>python jupyter_lab_config.py\<close> does), the module raises \<open>NameError\<close> at
  line 5 and assigns nothing.
\<close>

theorem jupyter_lab_config_module_name_error:
  assumes "ns ''get_config'' = None"
  shows "exec_module ns h jupyter_lab_config_module = Inl (NameError ''get_config'')"
  using assms by (simp add: jupyter_lab_config_module_def get_config_line_def)

text \<open>
  C19: under the loader, line 5 is redundant: \<open>c\<close> is already bound to the
  object \<open>get_config()\<close> returns, and the module without its first line does
  the same.
\<close>

theorem get_config_line_redundant:
  "exec_module (loader_namespace r f) h (tl jupyter_lab_config_module)
     = exec_module (loader_namespace r f) h jupyter_lab_config_module"
  by (simp add: jupyter_lab_config_module_def loader_get_config_line)

subsection \<open>Witnesses\<close>

theorem jupyter_lab_config_module_name_error_witness:
  "[''__name__'' \<mapsto> OVal (HVal (PyStr ''__main__''))] ''get_config'' = None \<and>
   exec_module [''__name__'' \<mapsto> OVal (HVal (PyStr ''__main__''))] \<lparr>objs = Map.empty, next_ref = 0\<rparr>
     jupyter_lab_config_module = Inl (NameError ''get_config'')"
  using jupyter_lab_config_module_name_error [of "[''__name__'' \<mapsto> OVal (HVal (PyStr ''__main__''))]"
      "\<lparr>objs = Map.empty, next_ref = 0\<rparr>"]
  by simp

end
