(* ===== verification/Spec2Isabelle.thy ===== *)
theory Spec2Isabelle
  imports Host PyModule
begin

text \<open>
  \<^bold>\<open>Verification of the JupyterLab configuration of ns3-ortools.\<close>

  \<^emph>\<open>The program.\<close> The repository's only source, \<open>src/jupyter_lab_config.py\<close>, is
  a traitlets config file. When the Jupyter server starts, traitlets'
  \<open>PyFileConfigLoader.load_config\<close> clears its \<open>Config\<close> object and executes the
  file; line 5 (\<open>c = get_config()\<close>) binds that object, and lines 6, 7, 8 and 11
  assign four options through attribute syntax:
  \<open>ServerApp.ip = "0.0.0.0"\<close>, \<open>ServerApp.port = 8888\<close>,
  \<open>ServerApp.open_browser = False\<close> and
  \<open>FileContentsManager.delete_to_trash = False\<close>. Each line \<open>c.S.k = v\<close> runs
  \<open>Config.__getattr__("S")\<close>, which creates the section \<open>S\<close> on first use, and
  then \<open>Config.__setattr__("k", v)\<close> on the section. The host (the Jupyter server
  and its file manager) then reads the options, falling back to its own defaults.

  \<^emph>\<open>The theories.\<close>
  \<^item> \<open>Prelude\<close>: the model's type names (\<open>key\<close>, \<open>attr_path\<close>, \<open>pydict\<close>), the
    \<open>config_defs\<close> and \<open>py_str\<close> collections used to unfold the operations and to
    decide string predicates on literals, and facts on \<open>AList.update\<close>, which is
    \<open>dict.__setitem__\<close> (a present key keeps its position, a new one is appended).
  \<^item> \<open>TraitletsConfig\<close>: the \<open>Config\<close> object (datatype \<open>config\<close>, entries
    \<open>Sub\<close>/\<open>Val\<close>/\<open>Lazy\<close> for a nested \<open>Config\<close>, a value and a
    \<open>LazyConfigValue\<close>), the exceptions \<open>pyerror\<close>, \<open>_is_section_key\<close>
    (\<open>is_section_key\<close>), \<open>__getitem__\<close>, \<open>__setitem__\<close>, \<open>__getattr__\<close>,
    \<open>__setattr__\<close> (\<open>config_getitem\<close>, \<open>config_setitem\<close>, \<open>config_getattr\<close>,
    \<open>config_setattr\<close>), the base \<open>dict.__setitem__\<close> (\<open>config_put\<close>), and the
    invariant \<open>wf_config\<close>: distinct keys, a \<open>Config\<close> under every section key,
    recursively. Every method returns \<open>error + result\<close>, every raise a branch.
  \<^item> \<open>ConfigAssign\<close>: the statement \<open>c.S1. ... .Sn.k = v\<close> (\<open>assign_path\<close>), the
    abstraction of a config to its option values (\<open>leaf_value\<close>, a map from key
    paths to values) and the abstract effect of an assignment (\<open>set_leaf\<close>). The
    lemmas prove that an assignment through section keys always succeeds, keeps the
    invariant, refines \<open>set_leaf\<close>, and is a no-op when the value is in place.
  \<^item> \<open>ConfigScript\<close>: the file as the statement list
    \<open>jupyter_lab_config_stmts\<close>, its execution \<open>exec_stmts\<close> (stopping at the first
    exception, which the loader propagates), the file \<open>jupyter_lab_config\<close> run on
    the object \<open>get_config()\<close> returns, and the loader \<open>load_config\<close>.
  \<^item> \<open>Settings\<close>: the spec's settings record, the abstraction \<open>settings_of\<close>, the
    key paths \<open>leaf_paths\<close>, and the host contract: options with defaults
    (\<open>effective_settings\<close>), the checked 16-bit port (\<open>port_word\<close>), the listener
    endpoint (\<open>bind_endpoint\<close>) and file deletion (\<open>delete_file\<close>); the
    record written out as a config file (\<open>settings_stmts\<close>) and the host's
    trait types of the four options (\<open>trait_accepts\<close>: \<open>Unicode\<close>, an
    \<open>Integer\<close> that also takes a \<open>bool\<close>, \<open>Bool\<close> traits that also take 0 and 1).
  \<^item> \<open>ConfigHeap\<close>: the same file under Python's reference semantics. The
    \<open>Config\<close> objects live on a heap (record \<open>heap\<close>: addresses to items, plus
    the allocation bound); \<open>h_getattr\<close> and \<open>h_setattr\<close> are \<open>__getattr__\<close>
    and \<open>__setattr__\<close> on an object, \<open>h_alloc\<close> is \<open>Config()\<close>;
    \<open>h_assign_path\<close> evaluates \<open>c.S1. ... .Sn.k = v\<close> by loading each section
    and storing into the last one in place, with no write-back, and
    \<open>h_exec_stmts\<close>/\<open>h_jupyter_lab_config\<close> run the statements and the file.
    \<open>reify\<close> reads an object back as a \<open>config\<close>; \<open>heap_inv\<close> states that the
    objects form a forest (each object has at most one parent, children are
    younger), and \<open>reaches\<close> is the set of objects a read-back visits. The
    lemmas prove that allocation and stores keep the forest invariant, frame
    lemmas for \<open>reify\<close>, and a step-by-step simulation of each method.
  \<^item> \<open>ConfigMerge\<close>: the loading of several config files. \<open>config_merge\<close> and
    \<open>merge_loop\<close> are \<open>Config.merge\<close> (recursive merge of sections in place,
    a \<open>LazyConfigValue\<close> merged into the old value through \<open>__setitem__\<close>,
    every other key collected in \<open>to_update\<close> and written by \<open>dict.update\<close>,
    \<open>dict_update\<close>), mutually recursive and terminating by the size of the
    merged-in config; \<open>load_config_files\<close>, \<open>merge_all\<close> and
    \<open>load_config_file\<close> are \<open>Application._load_config_files\<close> and
    \<open>Application.load_config_file\<close> (each file on a fresh \<open>Config\<close>, a failing
    file skipped unless \<open>raise_config_file_errors\<close>, then the command line, then
    \<open>update_config\<close>). \<open>strict_config\<close> is the shape of configs built by
    assigning literals (a \<open>Config\<close> exactly under section keys), \<open>file_leaves\<close>
    the options a list of files provides, later files winning.
  \<^item> \<open>PyModule\<close>: the file as Python syntax (\<open>pyexpr\<close>, \<open>pystmt\<close>, the five
    statements \<open>get_config_line\<close> to \<open>delete_to_trash_line\<close> and
    \<open>jupyter_lab_config_module\<close>), an evaluator over the heap of \<open>ConfigHeap\<close>
    with names, attribute loads and calls (\<open>eval_expr\<close>, \<open>exec_pystmt\<close>,
    \<open>exec_module\<close>, exceptions \<open>pyexc\<close> including \<open>NameError\<close>), and the
    namespace \<open>PyFileConfigLoader._read_file_as_dict\<close> runs the file in
    (\<open>loader_namespace\<close>, with the \<open>get_config\<close> closure).
    \<open>stmt_ast\<close> maps a statement of
    \<open>ConfigScript\<close> to its syntax; \<open>exec_setattr_path\<close> proves an attribute
    chain evaluates as \<open>h_assign_path\<close>.
  \<^item> \<open>Host\<close>: the lifecycle of the external host as the spec describes it
    (sections 3, 6, 8), an inductive step relation \<open>host_step\<close> over the
    states \<open>Booting\<close>, \<open>Loaded\<close>, \<open>Configured\<close>, \<open>Listening\<close>,
    \<open>Serving\<close> and \<open>Halted\<close>: load the configuration (the result of the real
    loading sequence of \<open>ConfigMerge\<close>, \<open>file_load\<close> with this file last), read
    the options with defaults, bind the listener (or halt on a port out of
    range), start and launch a browser iff \<open>open_browser\<close>, then serve file
    deletions. \<open>file_host_inv\<close> is what the file promises in each state,
    \<open>startup_rank\<close> the startup steps still to go; the lemmas prove the
    invariant by rule induction on reachability (\<open>file_host_inv_reach\<close>), that
    startup steps lower the rank and serving steps stay serving, and that the
    startup relation is well founded (\<open>host_startup_wf\<close>).
  \<^item> this theory: the end-to-end properties that connect the file to the spec.

  \<^emph>\<open>What is proved.\<close> On any well-formed starting \<open>Config\<close> (such as the
  loader's empty one, or one already holding options of other config files) the
  file never raises (C1), sets exactly the four options to its literals and
  leaves every other option alone (C2), and its lines may be permuted without
  changing any option (C3), only the dict's key order. Whatever the host's
  defaults, the host binds to \<open>0.0.0.0:8888\<close> (C4), opens no browser (C5) and
  deletes files permanently (C6), also after other config files (C7). A
  misspelled lower-case section name is silently ignored (C8), assigning into an
  empty \<open>Config\<close> creates the sections on the way (C9), and if the starting
  \<open>Config\<close> holds a plain value under \<open>ServerApp\<close> the file raises
  \<open>AttributeError\<close> at line 6 (C10). In any sequence of statements the last
  assignment to an option wins (C11). Under Python's reference semantics, on any
  heap without aliasing, running statements in place reads back as the value
  model's run, errors included (C12), and keeps the heap a forest (C13).
  Writing any settings record as a config file and loading it gives the record
  back (C14), and the spec's record written this way is the file's statement
  list (the witness of C14). The file keeps every option accepted by the host's
  trait for it (C15). Loading the file as traitlets does, on a fresh
  \<open>Config\<close> merged over the configs loaded before, agrees with running it on
  the accumulated config, the model C1 to C7 use (C16). The module's syntax run
  in the loader's namespace is the statement model of \<open>ConfigHeap\<close> on any
  heap (C17); run without the loader it raises \<open>NameError\<close> at line 5 (C18),
  and under the loader line 5 changes nothing (C19). In the real loading
  sequence, with the file loaded last and a command line that does not set its
  options, the host sees exactly the spec's settings (C20). The host that loads
  the file last keeps, in every reachable state, the spec's settings, the
  endpoint \<open>0.0.0.0:8888\<close>, no browser and no failure (C21); it serves after
  exactly four startup steps (C22), every reachable state serves or can step
  (C23, progress), and no deletion ever puts a file into the trash (C24). These rest on
  the lemmas of \<open>ConfigMerge\<close>: \<open>Config.merge\<close> keeps configs strict and
  refines overriding of option values (\<open>merge_strict\<close>); loading a list of
  files gives the application's options overridden by the files' in load order,
  overridden by the command line (\<open>load_config_file_leaves\<close>); a failing
  file is skipped as if absent, or aborts loading when
  \<open>raise_config_file_errors\<close> is set; merging with an empty config is the
  identity. The port conversion of the host contract is
  exact in range and rejects exactly what an unchecked 16-bit conversion would wrap
  (\<open>port_word_roundtrip\<close>, \<open>port_word_wraps\<close>). The lemmas of
  \<open>TraitletsConfig\<close> establish what these rest on: the methods keep the invariant, \<open>__setattr__\<close> reads back what it stored and refuses a plain
  value under a section key, \<open>__getattr__\<close> fails exactly on underscore names and
  creates a missing section at the end of the dict.

  \<^emph>\<open>Bounds and fuel.\<close> No loop of the program is unbounded: statement lists and
  attribute paths are finite lists and every function recurses on them
  structurally, so no fuel is needed and every definition computes; the witnesses
  evaluate them by \<open>simp\<close>. The heap read-back \<open>reify\<close> follows a reference
  only to a younger object below the allocation bound, so it terminates on
  every heap (measure: bound minus address); on heaps of \<open>heap_inv\<close> every
  reference passes that guard, so the guard never cuts a real object off. \<open>Config.merge\<close> recurses into
  sections of the config merged in, so \<open>config_merge\<close> and \<open>merge_loop\<close>
  terminate by the size of that config and of the items still to visit (the
  \<open>termination\<close> proof of the mutual \<open>function\<close>); the loop over files recurses
  on the list. The host's startup is bounded by \<open>startup_rank\<close>, four at
  \<open>Booting\<close> and lowered by every startup step, which is why four steps are
  enough (C22) and why startup ends whatever is loaded (\<open>host_startup_wf\<close>);
  the serving phase is unbounded and needs no bound. The port is a \<open>16 word\<close> because that is the width of a
  TCP port; Python's \<open>int\<close> is \<open>int\<close>.

  \<^emph>\<open>Not modelled.\<close> The host itself (jupyter_server, its Tornado listener,
  \<open>send2trash\<close>) beyond the contract the spec states: \<open>Settings\<close> and
  \<open>Host\<close> state that contract (options with defaults, a 16-bit port, the
  browser flag, deletion, the startup order), not a translation of the host's
  code, which is not in this repository; an address already in use, other
  requests than deletion, shutdown; names that ordinary
  attribute lookup resolves on a \<open>Config\<close> before \<open>__getattr__\<close> (the methods
  of \<open>dict\<close> and \<open>Config\<close>, such as \<open>keys\<close>; the file uses none); the
  attributes of plain values and of a \<open>LazyConfigValue\<close> (reading one raises
  \<open>AttributeError\<close> in the model, setting one on a \<open>LazyConfigValue\<close> succeeds
  without touching the dict); statements that assign a \<open>Config\<close> object
  rather than a literal (the file has none, and they are what creates aliasing,
  under which the value model's write-back would diverge from CPython; C12
  assumes the forest invariant that rules it out); garbage collection (an object cut off by a store
  stays allocated, which \<open>reify\<close> does not see); non-ASCII
  characters in \<open>str.upper\<close>; the contents of a \<open>LazyConfigValue\<close>
  (\<open>append\<close>, \<open>prepend\<close>, \<open>update\<close> operations; the model merges only
  the empty placeholder an attribute read leaves, the only kind the file can
  create); the JSON config loader and the search of the config path on disk
  (a file's place in the list of \<open>load_config_files\<close> is its place in the load
  order); \<open>load_subconfig\<close> (the file does not call it; calling it without
  arguments is a \<open>TypeError\<close> in the model); dotted keys in
  \<open>Config.__contains__\<close>; the logging of a skipped file.

  \<^emph>\<open>Plan.\<close> Built, in this order: the \<open>Config\<close> object and its invariant,
  attribute assignment and its refinement to option values, the file and its
  end-to-end properties against the spec's settings record and host contract,
  the reference semantics of the file on the object heap with its simulation,
  the host's trait types (C15), \<open>Config.merge\<close> and the loading of several
  config files (C16, C20), the module's syntax run in the loader's namespace
  (C17 to C19), and the host's lifecycle over the real loading sequence (C21 to
  C24). Every line of \<open>src/jupyter_lab_config.py\<close> that
  executes is a definition; what remains is library and host code outside the
  repository: the \<open>LazyConfigValue\<close> operations and the command-line
  parser of traitlets, and the host's code behind its contract.
\<close>

section \<open>End-to-end properties\<close>

text \<open>C4: Whatever defaults the host has, a host that binds its listener to the
  configured address and port binds to 0.0.0.0 and the 16-bit port 8888.\<close>

theorem host_binds_all_interfaces:
  "\<exists>c. load_config jupyter_lab_config = Inr c \<and>
       (\<forall>dflt. bind_endpoint (effective_settings dflt c) = Some (''0.0.0.0'', 8888))"
proof -
  obtain c where load: "load_config jupyter_lab_config = Inr c"
    and abs: "settings_of c = Some spec_settings"
    by (auto simp: load_config_def jupyter_lab_config_def file_eval
                   settings_of_def spec_settings_def)
  have "bind_endpoint (effective_settings dflt c) = Some (''0.0.0.0'', 8888)" for dflt
    using effective_settings_of [OF abs]
    by (simp add: bind_endpoint_def port_word_def spec_settings_def)
  with load show ?thesis by blast
qed

text \<open>C5: Whatever the host's default for open_browser, the loaded configuration
  makes the host launch no browser.\<close>

theorem host_never_opens_browser:
  "\<exists>c. load_config jupyter_lab_config = Inr c \<and> (\<forall>dflt. \<not> open_browser (effective_settings dflt c))"
proof -
  obtain c where load: "load_config jupyter_lab_config = Inr c"
    and abs: "settings_of c = Some spec_settings"
    by (auto simp: load_config_def jupyter_lab_config_def file_eval
                   settings_of_def spec_settings_def)
  with effective_settings_of [OF abs] show ?thesis by (auto simp: spec_settings_def)
qed

text \<open>C6: With the loaded configuration, whatever the host's default, deleting an
  existing file through the file manager removes it from the file system and leaves
  the trash untouched; deleting a missing file is an error.\<close>

theorem host_deletes_permanently:
  assumes "load_config jupyter_lab_config = Inr c"
  shows "delete_file (effective_settings dflt c) path st =
           (case files st path of
              None \<Rightarrow> Inl (NotFound path)
            | Some _ \<Rightarrow> Inr (st\<lparr>files := (files st)(path := None)\<rparr>))"
proof -
  from assms have "settings_of c = Some spec_settings"
    by (auto simp: load_config_def jupyter_lab_config_def file_eval
                   settings_of_def spec_settings_def)
  then have "\<not> delete_to_trash (effective_settings dflt c)"
    by (simp add: effective_settings_of spec_settings_def)
  then show ?thesis by (simp add: delete_file_def split: option.splits)
qed

text \<open>C7: The file's options take effect whatever ran before it: executed on any
  well-formed Config (for instance one holding the options of other config files),
  the host sees exactly the spec's settings, whatever its defaults.\<close>

theorem jupyter_lab_config_overrides:
  assumes "wf_config c" and "jupyter_lab_config c = Inr c'"
  shows "effective_settings dflt c' = spec_settings"
proof -
  from assms have "leaf_value c' = fold stmt_effect jupyter_lab_config_stmts (leaf_value c)"
    by (simp add: jupyter_lab_config_def exec_stmts_leaf jupyter_lab_config_stmts_ok)
  then have "settings_of c' = Some spec_settings"
    by (simp add: jupyter_lab_config_effect settings_of_def set_leaf_def spec_settings_def)
  then show ?thesis by (rule effective_settings_of)
qed

text \<open>C20: The file's options take effect in the real loading sequence: with this
  file loaded last by \<open>Application.load_config_file\<close>, after any config files
  whose configs are strict, over any strict application config, and with a
  command line that sets none of the four options, loading succeeds and the host
  sees exactly the spec's settings, whatever its defaults.\<close>

theorem host_settings_after_loading:
  assumes "strict_config app" and "strict_config cli"
    and "list_all (\<lambda>s. case load_config s of Inl _ \<Rightarrow> True | Inr c \<Rightarrow> strict_config c) scripts"
    and "list_all (\<lambda>p. leaf_value cli p = None) spec_key_paths"
  shows "\<exists>c'. load_config_file False (scripts @ [jupyter_lab_config]) cli app = Inr c' \<and>
           effective_settings dflt c' = spec_settings"
  using host_settings_loading [OF assms] .

subsection \<open>Witnesses\<close>

theorem host_deletes_permanently_witness:
  "load_config jupyter_lab_config = Inr
     (Config [(''ServerApp'', Sub (Config [(''ip'', Val (PyStr ''0.0.0.0'')), (''port'', Val (PyInt 8888)),
                                         (''open_browser'', Val (PyBool False))])),
              (''FileContentsManager'', Sub (Config [(''delete_to_trash'', Val (PyBool False))]))]) \<and>
   delete_file
     (effective_settings \<lparr>bind_address = ''localhost'', port = 8888, open_browser = True, delete_to_trash = True\<rparr>
       (Config [(''ServerApp'', Sub (Config [(''ip'', Val (PyStr ''0.0.0.0'')), (''port'', Val (PyInt 8888)),
                                           (''open_browser'', Val (PyBool False))])),
                (''FileContentsManager'', Sub (Config [(''delete_to_trash'', Val (PyBool False))]))]))
     ''notes.ipynb'' \<lparr>files = [''notes.ipynb'' \<mapsto> ''{}''], trash = Map.empty\<rparr> =
   Inr \<lparr>files = Map.empty, trash = Map.empty\<rparr>"
proof -
  have load: "load_config jupyter_lab_config = Inr
     (Config [(''ServerApp'', Sub (Config [(''ip'', Val (PyStr ''0.0.0.0'')), (''port'', Val (PyInt 8888)),
                                         (''open_browser'', Val (PyBool False))])),
              (''FileContentsManager'', Sub (Config [(''delete_to_trash'', Val (PyBool False))]))])"
    by (simp add: load_config_def jupyter_lab_config_def file_eval)
  show ?thesis
    using host_deletes_permanently [OF load,
        of "\<lparr>bind_address = ''localhost'', port = 8888, open_browser = True, delete_to_trash = True\<rparr>"
           "''notes.ipynb''" "\<lparr>files = [''notes.ipynb'' \<mapsto> ''{}''], trash = Map.empty\<rparr>"] load
    by simp
qed

theorem jupyter_lab_config_overrides_witness:
  "wf_config (Config [(''ServerApp'', Sub (Config [(''port'', Val (PyInt 9999))])),
                      (''FileContentsManager'', Sub (Config [(''delete_to_trash'', Val (PyBool True))]))]) \<and>
   jupyter_lab_config (Config [(''ServerApp'', Sub (Config [(''port'', Val (PyInt 9999))])),
                      (''FileContentsManager'', Sub (Config [(''delete_to_trash'', Val (PyBool True))]))]) =
     Inr (Config [(''ServerApp'', Sub (Config [(''port'', Val (PyInt 8888)), (''ip'', Val (PyStr ''0.0.0.0'')),
                                              (''open_browser'', Val (PyBool False))])),
                  (''FileContentsManager'', Sub (Config [(''delete_to_trash'', Val (PyBool False))]))]) \<and>
   effective_settings \<lparr>bind_address = ''localhost'', port = 8888, open_browser = True, delete_to_trash = True\<rparr>
     (Config [(''ServerApp'', Sub (Config [(''port'', Val (PyInt 8888)), (''ip'', Val (PyStr ''0.0.0.0'')),
                                         (''open_browser'', Val (PyBool False))])),
              (''FileContentsManager'', Sub (Config [(''delete_to_trash'', Val (PyBool False))]))]) =
     spec_settings"
proof -
  let ?c = "Config [(''ServerApp'', Sub (Config [(''port'', Val (PyInt 9999))])),
                    (''FileContentsManager'', Sub (Config [(''delete_to_trash'', Val (PyBool True))]))]"
  let ?c' = "Config [(''ServerApp'', Sub (Config [(''port'', Val (PyInt 8888)), (''ip'', Val (PyStr ''0.0.0.0'')),
                                              (''open_browser'', Val (PyBool False))])),
                     (''FileContentsManager'', Sub (Config [(''delete_to_trash'', Val (PyBool False))]))]"
  have wf: "wf_config ?c" by (simp add: wf_config_iff py_str)
  have run: "jupyter_lab_config ?c = Inr ?c'"
    by (simp add: jupyter_lab_config_def file_eval)
  show ?thesis
    using jupyter_lab_config_overrides [OF wf run,
        of "\<lparr>bind_address = ''localhost'', port = 8888, open_browser = True, delete_to_trash = True\<rparr>"] wf run
    by simp
qed

theorem host_settings_after_loading_witness:
  "strict_config (Config [(''ServerApp'', Sub (Config [(''port'', Val (PyInt 9999))]))]) \<and>
   strict_config (Config [(''ServerApp'', Sub (Config [(''token'', Val (PyStr ''abc''))]))]) \<and>
   list_all (\<lambda>s. case load_config s of Inl _ \<Rightarrow> True | Inr c \<Rightarrow> strict_config c)
     [\<lambda>c. exec_stmts c [Assign [''ServerApp''] ''open_browser'' (PyBool True)]] \<and>
   list_all (\<lambda>p. leaf_value (Config [(''ServerApp'', Sub (Config [(''token'', Val (PyStr ''abc''))]))]) p = None)
     spec_key_paths \<and>
   (\<exists>c'. load_config_file False
          ([\<lambda>c. exec_stmts c [Assign [''ServerApp''] ''open_browser'' (PyBool True)]] @ [jupyter_lab_config])
          (Config [(''ServerApp'', Sub (Config [(''token'', Val (PyStr ''abc''))]))])
          (Config [(''ServerApp'', Sub (Config [(''port'', Val (PyInt 9999))]))]) = Inr c' \<and>
        effective_settings \<lparr>bind_address = ''localhost'', port = 8888, open_browser = True, delete_to_trash = True\<rparr> c'
          = spec_settings)"
proof -
  have a: "strict_config (Config [(''ServerApp'', Sub (Config [(''port'', Val (PyInt 9999))]))])" by (simp add: py_str)
  have c: "strict_config (Config [(''ServerApp'', Sub (Config [(''token'', Val (PyStr ''abc''))]))])" by (simp add: py_str)
  have s: "list_all (\<lambda>s. case load_config s of Inl _ \<Rightarrow> True | Inr c \<Rightarrow> strict_config c)
     [\<lambda>c. exec_stmts c [Assign [''ServerApp''] ''open_browser'' (PyBool True)]]"
    by (simp add: load_config_def config_defs py_str)
  have p: "list_all (\<lambda>p. leaf_value (Config [(''ServerApp'', Sub (Config [(''token'', Val (PyStr ''abc''))]))]) p = None)
     spec_key_paths" by (simp add: spec_key_paths_def)
  show ?thesis using host_settings_after_loading [OF a c s p] a c s p by blast
qed

end
